(* ===== verification/Prelude.thy ===== *)
theory Prelude
  imports Main "HOL-Library.Word" "HOL-Library.Multiset"
begin

text \<open>
  Shared vocabulary of the development: byte strings, Go errors as values, results that may also be
  a run-time panic, contexts, and the generic list lemmas that the component theories rest on.
  Nothing in this theory is specific to one component.
\<close>

named_theorems option_simps \<open>unfolding rules of the functional-option helpers\<close>
named_theorems select_simps \<open>unfolding rules of the key selectors\<close>
named_theorems store_simps \<open>unfolding rules of the critical sections of the keystore\<close>

section \<open>Bytes, errors and results\<close>

type_synonym byte = "8 word"
type_synonym bytes = "byte list"

text \<open>
  An error value. \<open>ErrorNew\<close> is \<^verbatim>\<open>errors.New\<close>, \<open>Errorf\<close> is \<^verbatim>\<open>fmt.Errorf\<close> without a \<^verbatim>\<open>%w\<close> verb and
  \<open>Wrapf\<close> with one: the format is the literal of the source, and the arguments are kept as values
  instead of being rendered. \<open>Joined\<close> is a non-nil \<^verbatim>\<open>errors.Join\<close>. \<open>External\<close> is an error made by code
  outside the repository. A nil \<^verbatim>\<open>error\<close> is \<open>None\<close> of type \<open>error option\<close>.
\<close>

datatype earg = StrArg string | IntArg int | StrsArg "string list"

datatype error =
    ErrorNew string
  | Errorf string "earg list"
  | Wrapf string "earg list" error
  | Joined "error list"
  | ContextCanceled
  | DeadlineExceeded
  | External nat

text \<open>\<^verbatim>\<open>errors.Is(err, target)\<close> for a target that is itself a plain sentinel.\<close>

fun error_is :: "error \<Rightarrow> error \<Rightarrow> bool" where
  "error_is (Wrapf f as e) t = (Wrapf f as e = t \<or> error_is e t)"
| "error_is (Joined es) t = (Joined es = t \<or> list_ex (\<lambda>e. error_is e t) es)"
| "error_is e t = (e = t)"

text \<open>\<^verbatim>\<open>errors.Join\<close>: nil arguments are dropped, and the result is nil when nothing is left.\<close>

definition errors_Join :: "error option list \<Rightarrow> error option" where
  "errors_Join es =
     (let real = List.map_filter id es in if real = [] then None else Some (Joined real))"

text \<open>
  The outcome of a call: \<open>Ok\<close> with the value, \<open>Err\<close> with the non-nil error of a \<^verbatim>\<open>(value, error)\<close>
  return, or a run-time panic (nil dereference, slice bounds, a \<^verbatim>\<open>FillBytes\<close> that does not fit).
\<close>

datatype 'a res = Ok 'a | Err error | Panic string

fun bind_res :: "'a res \<Rightarrow> ('a \<Rightarrow> 'b res) \<Rightarrow> 'b res" where
  "bind_res (Ok x) f = f x"
| "bind_res (Err e) f = Err e"
| "bind_res (Panic p) f = Panic p"

fun map_err :: "(error \<Rightarrow> error) \<Rightarrow> 'a res \<Rightarrow> 'a res" where
  "map_err g (Ok x) = Ok x"
| "map_err g (Err e) = Err (g e)"
| "map_err g (Panic p) = Panic p"

text \<open>A Go function returning only an \<^verbatim>\<open>error\<close>, read as a result, and back.\<close>

definition of_error :: "error option \<Rightarrow> unit res" where
  "of_error e = (case e of None \<Rightarrow> Ok () | Some e \<Rightarrow> Err e)"

definition of_sum :: "error + 'a \<Rightarrow> 'a res" where
  "of_sum r = (case r of Inl e \<Rightarrow> Err e | Inr x \<Rightarrow> Ok x)"

fun is_ok :: "'a res \<Rightarrow> bool" where
  "is_ok (Ok x) = True"
| "is_ok (Err e) = False"
| "is_ok (Panic p) = False"

lemma bind_res_cong [fundef_cong]:
  "m = m' \<Longrightarrow> (\<And>x. m' = Ok x \<Longrightarrow> f x = f' x) \<Longrightarrow> bind_res m f = bind_res m' f'"
  by (cases m') auto

lemma bind_res_Ok_iff [simp]: "bind_res m f = Ok y \<longleftrightarrow> (\<exists>x. m = Ok x \<and> f x = Ok y)"
  by (cases m) auto

lemma map_err_Ok_iff [simp]: "map_err g m = Ok y \<longleftrightarrow> m = Ok y"
  by (cases m) auto

lemma map_err_Err_iff [simp]: "map_err g m = Err e \<longleftrightarrow> (\<exists>e'. m = Err e' \<and> e = g e')"
  by (cases m) auto

lemma of_error_simps [simp]: "of_error None = Ok ()" "of_error (Some e) = Err e"
  by (simp_all add: of_error_def)

lemma of_error_Ok_iff [simp]: "of_error e = Ok u \<longleftrightarrow> e = None"
  by (simp add: of_error_def split: option.split)

lemma of_sum_simps [simp]: "of_sum (Inl e) = Err e" "of_sum (Inr x) = Ok x"
  by (simp_all add: of_sum_def)

lemma of_sum_Ok_iff [simp]: "of_sum r = Ok y \<longleftrightarrow> r = Inr y"
  by (cases r) auto

lemma is_ok_iff: "is_ok r \<longleftrightarrow> (\<exists>x. r = Ok x)"
  by (cases r) auto

lemma errors_Join_None_iff: "errors_Join es = None \<longleftrightarrow> set es \<subseteq> {None}"
proof -
  have "List.map_filter id es = [] \<longleftrightarrow> set es \<subseteq> {None}"
    by (induction es) (auto simp: List.map_filter_simps split: option.splits)
  then show ?thesis by (simp add: errors_Join_def Let_def)
qed

section \<open>Contexts and randomness\<close>

text \<open>
  A context is seen only through \<^verbatim>\<open>ctx.Err()\<close>: \<open>ctx i\<close> is what the \<open>i\<close>-th such call of an operation
  returns, so a context may be cancelled between two checks. A callee that starts after \<open>n\<close> checks of
  its caller is given \<open>later n ctx\<close>. The entropy source is seen through what filling a buffer of a
  given size returns.
\<close>

type_synonym ctxt = "nat \<Rightarrow> error option"
type_synonym entropy = "nat \<Rightarrow> error + bytes"

definition background :: ctxt where
  "background = (\<lambda>_. None)"

definition later :: "nat \<Rightarrow> ctxt \<Rightarrow> ctxt" where
  "later n ctx = (\<lambda>i. ctx (n + i))"

lemma background_apply [simp]: "background i = None"
  by (simp add: background_def)

lemma later_apply [simp]: "later n ctx i = ctx (n + i)"
  by (simp add: later_def)

lemma later_background [simp]: "later n background = background"
  by (simp add: later_def background_def)

section \<open>Lists\<close>

lemma map_filter_id_Some [simp]: "List.map_filter id (map Some xs) = xs"
  by (induction xs) (auto simp: List.map_filter_simps)

lemma dropWhile_ConsD: "dropWhile P xs = x # ys \<Longrightarrow> \<not> P x"
  by (metis hd_dropWhile list.distinct(1) list.sel(1))

text \<open>A \<^verbatim>\<open>for range\<close> that returns at the first element satisfying a test.\<close>

lemma dropWhile_eq_split:
  "(\<exists>pre post. xs = pre @ x # post \<and> (\<forall>y\<in>set pre. P y) \<and> \<not> P x)
     \<longleftrightarrow> (\<exists>post. dropWhile P xs = x # post)"
proof
  assume "\<exists>pre post. xs = pre @ x # post \<and> (\<forall>y\<in>set pre. P y) \<and> \<not> P x"
  then show "\<exists>post. dropWhile P xs = x # post"
    by (auto simp: dropWhile_append)
next
  assume "\<exists>post. dropWhile P xs = x # post"
  then obtain post where d: "dropWhile P xs = x # post" by blast
  then have "xs = takeWhile P xs @ x # post" by (metis takeWhile_dropWhile_id)
  moreover have "\<not> P x" using d by (rule dropWhile_ConsD)
  ultimately show "\<exists>pre post. xs = pre @ x # post \<and> (\<forall>y\<in>set pre. P y) \<and> \<not> P x"
    by (metis set_takeWhileD)
qed

lemma filter_sort_key: "filter P (sort_key f xs) = sort_key f (filter P xs)"
  by (rule filter_sort)

lemma mset_filter_eq: "mset xs = mset ys \<Longrightarrow> mset (filter P xs) = mset (filter P ys)"
  by (simp add: mset_filter)

text \<open>Lists that correspond, and whose elements are selected alike.\<close>

lemma list_all2_filter_single:
  assumes "list_all2 P xs ys" "\<And>x y. P x y \<Longrightarrow> p x = q y" "filter p xs = [x]"
  shows "\<exists>y. filter q ys = [y] \<and> P x y"
proof -
  have "list_all2 P (filter p xs) (filter q ys)"
    using assms(1,2) by (induction rule: list_all2_induct) auto
  then show ?thesis using assms(3) by (auto simp: list_all2_Cons1)
qed

end
