(* ===== verification/Go_Std.thy ===== *)
theory Go_Std
  imports Prelude
begin

text \<open>
  The parts of Go and of its standard library that the components use: wrapping 64-bit arithmetic,
  \<^verbatim>\<open>time.Time\<close> and \<^verbatim>\<open>time.Duration\<close>, \<^verbatim>\<open>strings.TrimSpace\<close>, \<^verbatim>\<open>sort.SliceStable\<close>, and the unsigned
  big-endian reading and writing of \<^verbatim>\<open>big.Int\<close>; and the errors of the package \<^verbatim>\<open>errs\<close>.
\<close>

section \<open>Signed 64-bit arithmetic\<close>

definition int64 :: "int \<Rightarrow> int" where
  "int64 x = signed_take_bit 63 x"

definition int64_min :: int where
  "int64_min = - 9223372036854775808"

definition int64_max :: int where
  "int64_max = 9223372036854775807"

lemma int64_id: "int64_min \<le> x \<Longrightarrow> x \<le> int64_max \<Longrightarrow> int64 x = x"
  by (simp add: int64_def int64_min_def int64_max_def signed_take_bit_int_eq_self)

lemma int64_range: "int64_min \<le> int64 x \<and> int64 x \<le> int64_max"
  using signed_take_bit_int_greater_eq_minus_exp [of 63 x] signed_take_bit_int_less_exp [of 63 x]
  by (simp add: int64_def int64_min_def int64_max_def)

text \<open>Integer division truncates towards zero.\<close>

definition go_div :: "int \<Rightarrow> int \<Rightarrow> int" where
  "go_div a b = sgn a * sgn b * (\<bar>a\<bar> div \<bar>b\<bar>)"

lemma go_div_nonneg: "0 \<le> a \<Longrightarrow> 0 < b \<Longrightarrow> go_div a b = a div b"
  by (cases "a = 0") (simp_all add: go_div_def)

lemma go_div_self_bounds:
  assumes "0 \<le> a" "0 < b"
  shows "go_div a b * b \<le> a \<and> a < (go_div a b + 1) * b"
proof -
  have "a div b * b + a mod b = a" by simp
  moreover have "0 \<le> a mod b" "a mod b < b" using assms by simp_all
  ultimately have "a div b * b \<le> a \<and> a < a div b * b + b" by linarith
  then show ?thesis
    using assms by (simp add: go_div_nonneg distrib_right)
qed

section \<open>Time\<close>

text \<open>
  An instant is the number of nanoseconds since 1 January of year 1 UTC, so that the zero
  \<^verbatim>\<open>time.Time\<close> is \<open>0\<close>; its own range is far wider than that of a duration. A \<^verbatim>\<open>time.Duration\<close> is a
  64-bit number of nanoseconds, and \<^verbatim>\<open>Time.Sub\<close> saturates at its bounds.
\<close>

type_synonym time = int
type_synonym duration = int

definition IsZero :: "time \<Rightarrow> bool" where
  "IsZero t = (t = 0)"

definition Before :: "time \<Rightarrow> time \<Rightarrow> bool" where
  "Before t u = (t < u)"

definition After :: "time \<Rightarrow> time \<Rightarrow> bool" where
  "After t u = (u < t)"

definition time_Add :: "time \<Rightarrow> duration \<Rightarrow> time" where
  "time_Add t d = t + d"

definition time_Sub :: "time \<Rightarrow> time \<Rightarrow> duration" where
  "time_Sub t u = max int64_min (min int64_max (t - u))"

lemmas time_simps = IsZero_def Before_def After_def time_Add_def

lemma time_Sub_exact: "int64_min \<le> t - u \<Longrightarrow> t - u \<le> int64_max \<Longrightarrow> time_Sub t u = t - u"
  by (simp add: time_Sub_def)

section \<open>Strings\<close>

text \<open>
  A Go string is a byte string, and so is \<^typ>\<open>string\<close>. The white space of \<^verbatim>\<open>strings.TrimSpace\<close> is
  Unicode's, each character in its UTF-8 form.
\<close>

definition white_space :: "string list" where
  "white_space =
     map (\<lambda>c. [c]) [CHR 0x09, CHR 0x0A, CHR 0x0B, CHR 0x0C, CHR 0x0D, CHR 0x20]
     @ [[CHR 0xC2, CHR 0x85], [CHR 0xC2, CHR 0xA0], [CHR 0xE1, CHR 0x9A, CHR 0x80]]
     @ map (\<lambda>c. [CHR 0xE2, CHR 0x80, c])
         [CHR 0x80, CHR 0x81, CHR 0x82, CHR 0x83, CHR 0x84, CHR 0x85, CHR 0x86, CHR 0x87,
          CHR 0x88, CHR 0x89, CHR 0x8A, CHR 0xA8, CHR 0xA9, CHR 0xAF]
     @ [[CHR 0xE2, CHR 0x81, CHR 0x9F], [CHR 0xE3, CHR 0x80, CHR 0x80]]"

definition starts_with :: "string \<Rightarrow> string \<Rightarrow> bool" where
  "starts_with p s = (take (length p) s = p)"

lemma white_space_nonempty: "p \<in> set white_space \<Longrightarrow> p \<noteq> []"
  by (auto simp: white_space_def)

text \<open>Drop the characters of \<open>cs\<close> from the front of \<open>s\<close> as long as there is one.\<close>

function trim_front :: "string list \<Rightarrow> string \<Rightarrow> string" where
  "trim_front cs s =
     (case find (\<lambda>p. p \<noteq> [] \<and> starts_with p s) cs of
        None \<Rightarrow> s
      | Some p \<Rightarrow> trim_front cs (drop (length p) s))"
  by pat_completeness auto
termination
proof (relation "measure (\<lambda>(cs, s). length s)")
  fix cs :: "string list" and s p
  assume "find (\<lambda>p. p \<noteq> [] \<and> starts_with p s) cs = Some p"
  then have "p \<noteq> []" "take (length p) s = p"
    by (auto simp: find_Some_iff starts_with_def)
  then show "((cs, drop (length p) s), (cs, s)) \<in> measure (\<lambda>(cs, s). length s)"
    by (cases s) auto
qed simp

declare trim_front.simps [simp del]

definition TrimSpace :: "string \<Rightarrow> string" where
  "TrimSpace s =
     rev (trim_front (map rev white_space) (rev (trim_front white_space s)))"

lemma trim_front_Nil [simp]: "trim_front cs [] = []"
  by (subst trim_front.simps) (auto simp: starts_with_def find_Some_iff split: option.split)

lemma trim_front_id:
  assumes "\<And>p. p \<in> set cs \<Longrightarrow> p = [] \<or> \<not> starts_with p s"
  shows "trim_front cs s = s"
proof -
  have "find (\<lambda>p. p \<noteq> [] \<and> starts_with p s) cs = None"
    using assms by (auto simp: find_None_iff)
  then show ?thesis by (subst trim_front.simps) simp
qed

lemma TrimSpace_Nil [simp]: "TrimSpace [] = []"
  by (simp add: TrimSpace_def)

section \<open>Stable sorting\<close>

text \<open>
  \<^verbatim>\<open>sort.SliceStable\<close> with the order \<open>key xs[i] > key xs[j]\<close>: descending keys, equal keys in their
  original order.
\<close>

definition SliceStable_desc :: "('a \<Rightarrow> int) \<Rightarrow> 'a list \<Rightarrow> 'a list" where
  "SliceStable_desc key xs = sort_key (\<lambda>x. - key x) xs"

lemma mset_SliceStable_desc [simp]: "mset (SliceStable_desc key xs) = mset xs"
  by (simp add: SliceStable_desc_def)

lemma set_SliceStable_desc [simp]: "set (SliceStable_desc key xs) = set xs"
  by (simp add: SliceStable_desc_def)

lemma sorted_SliceStable_desc: "sorted_wrt (\<lambda>x y. key y \<le> key x) (SliceStable_desc key xs)"
proof -
  have "sorted (map (\<lambda>x. - key x) (SliceStable_desc key xs))"
    by (simp add: SliceStable_desc_def)
  then show ?thesis by (simp add: sorted_map)
qed

lemma filter_SliceStable_desc:
  "filter P (SliceStable_desc key xs) = SliceStable_desc key (filter P xs)"
  by (simp add: SliceStable_desc_def filter_sort_key)

section \<open>Unsigned big-endian integers\<close>

text \<open>\<^verbatim>\<open>new(big.Int).SetBytes(b)\<close>.\<close>

definition SetBytes :: "bytes \<Rightarrow> int" where
  "SetBytes bs = foldl (\<lambda>a b. 256 * a + uint b) 0 bs"

text \<open>The \<open>n\<close> low-order bytes of a non-negative number, most significant first.\<close>

fun be_bytes :: "nat \<Rightarrow> int \<Rightarrow> bytes" where
  "be_bytes 0 x = []"
| "be_bytes (Suc n) x = be_bytes n (x div 256) @ [word_of_int x]"

text \<open>
  \<^verbatim>\<open>x.FillBytes(buf)\<close> for a buffer of \<open>n\<close> bytes: the absolute value, with leading zeros; a panic when
  it does not fit.
\<close>

definition FillBytes :: "int \<Rightarrow> nat \<Rightarrow> bytes res" where
  "FillBytes x n =
     (if \<bar>x\<bar> < 256 ^ n then Ok (be_bytes n \<bar>x\<bar>)
      else Panic ''math/big: buffer too small to fit value'')"

lemma length_be_bytes [simp]: "length (be_bytes n x) = n"
  by (induction n arbitrary: x) auto

lemma SetBytes_Nil [simp]: "SetBytes [] = 0"
  by (simp add: SetBytes_def)

lemma SetBytes_snoc [simp]: "SetBytes (bs @ [b]) = 256 * SetBytes bs + uint b"
  by (simp add: SetBytes_def)

lemma SetBytes_be_bytes: "0 \<le> x \<Longrightarrow> x < 256 ^ n \<Longrightarrow> SetBytes (be_bytes n x) = x"
proof (induction n arbitrary: x)
  case 0
  then show ?case by simp
next
  case (Suc n)
  have "0 \<le> x div 256" using Suc.prems(1) by simp
  moreover have "x div 256 < 256 ^ n"
    using Suc.prems by (simp add: div_less_iff_less_mult mult.commute)
  ultimately have "SetBytes (be_bytes n (x div 256)) = x div 256" by (rule Suc.IH)
  moreover have "uint (word_of_int x :: byte) = x mod 256"
    by (simp add: uint_word_of_int)
  ultimately show ?case by simp
qed

lemma FillBytes_SetBytes:
  "0 \<le> x \<Longrightarrow> x < 256 ^ n \<Longrightarrow> \<exists>bs. FillBytes x n = Ok bs \<and> length bs = n \<and> SetBytes bs = x"
  by (simp add: FillBytes_def SetBytes_be_bytes)

lemma FillBytes_Ok_length: "FillBytes x n = Ok bs \<Longrightarrow> length bs = n"
  by (auto simp: FillBytes_def split: if_splits)

section \<open>Decimal numerals and bytes of strings\<close>

text \<open>The decimal form that \<^verbatim>\<open>%d\<close> prints.\<close>

fun decimal_nat :: "nat \<Rightarrow> string" where
  "decimal_nat n =
     (if n < 10 then [char_of (48 + n)] else decimal_nat (n div 10) @ [char_of (48 + n mod 10)])"

declare decimal_nat.simps [simp del]

definition decimal :: "int \<Rightarrow> string" where
  "decimal i = (if i < 0 then ''-'' @ decimal_nat (nat (- i)) else decimal_nat (nat i))"

text \<open>The decimal form determines the number.\<close>

definition decimal_value :: "string \<Rightarrow> nat" where
  "decimal_value cs = foldl (\<lambda>a c. 10 * a + (of_char c - 48)) 0 cs"

lemma decimal_value_nat: "decimal_value (decimal_nat n) = n"
proof (induction n rule: decimal_nat.induct)
  case (1 n)
  show ?case
  proof (cases "n < 10")
    case True
    then show ?thesis by (subst decimal_nat.simps) (simp add: decimal_value_def)
  next
    case False
    have "decimal_value (decimal_nat (n div 10) @ [char_of (48 + n mod 10)])
        = 10 * decimal_value (decimal_nat (n div 10)) + n mod 10"
      by (simp add: decimal_value_def)
    also have "\<dots> = n" using 1 False by simp
    finally show ?thesis using False by (subst decimal_nat.simps) simp
  qed
qed

lemma decimal_nat_no_sign: "CHR ''-'' # cs \<noteq> decimal_nat n"
proof (induction n arbitrary: cs rule: decimal_nat.induct)
  case (1 n)
  show ?case
  proof (cases "n < 10")
    case True
    have "CHR ''-'' \<noteq> char_of (48 + n)"
    proof
      assume "CHR ''-'' = char_of (48 + n)"
      then have "of_char (CHR ''-'') = (of_char (char_of (48 + n) :: char) :: nat)" by simp
      then show False using True by simp
    qed
    then show ?thesis using True by (subst decimal_nat.simps) simp
  next
    case False
    have "decimal_nat (n div 10) \<noteq> []" by (subst decimal_nat.simps) simp
    then obtain c ds where "decimal_nat (n div 10) = c # ds" by (cases "decimal_nat (n div 10)") auto
    then show ?thesis using False 1 [OF False, of ds] by (subst decimal_nat.simps) auto
  qed
qed

lemma decimal_inject: "decimal i = decimal j \<longleftrightarrow> i = j"
proof
  assume eq: "decimal i = decimal j"
  have nat: "decimal_nat m = decimal_nat n \<Longrightarrow> m = n" for m n by (metis decimal_value_nat)
  show "i = j"
    using eq decimal_nat_no_sign decimal_nat_no_sign [symmetric]
    by (auto simp: decimal_def dest!: nat split: if_splits)
qed simp

text \<open>The conversions between \<^verbatim>\<open>string\<close> and \<^verbatim>\<open>[]byte\<close>.\<close>

definition bytes_of :: "string \<Rightarrow> bytes" where
  "bytes_of s = map (\<lambda>c. word_of_nat (of_char c)) s"

definition string_of :: "bytes \<Rightarrow> string" where
  "string_of bs = map (\<lambda>b. char_of (unat b)) bs"

lemma byte_of_char [simp]: "unat (word_of_nat (of_char c) :: byte) = of_char c"
  using nat_of_char_less_256 [of c] by (simp add: unat_of_nat take_bit_eq_mod)

lemma unat_mod_256 [simp]: "unat (b :: byte) mod 256 = unat b"
  using unsigned_less [of b, where 'a = nat] by (simp add: mod_less)

lemma char_of_byte: "word_of_nat (of_char (char_of (unat b) :: char)) = (b :: byte)"
  by (simp add: of_char_of)

lemma bytes_of_string_of [simp]: "bytes_of (string_of bs) = bs"
  by (simp add: bytes_of_def string_of_def comp_def)

lemma string_of_bytes_of [simp]: "string_of (bytes_of s) = s"
  by (induction s) (simp_all add: bytes_of_def string_of_def)

lemma bytes_of_append [simp]: "bytes_of (s @ t) = bytes_of s @ bytes_of t"
  by (simp add: bytes_of_def)

lemma bytes_of_inject [simp]: "bytes_of s = bytes_of t \<longleftrightarrow> s = t"
  by (metis string_of_bytes_of)

text \<open>\<^verbatim>\<open>hex.EncodeToString\<close>.\<close>

definition hex_digit :: "nat \<Rightarrow> char" where
  "hex_digit n = (if n < 10 then char_of (48 + n) else char_of (87 + n))"

fun hex_EncodeToString :: "bytes \<Rightarrow> string" where
  "hex_EncodeToString [] = []"
| "hex_EncodeToString (b # bs) = hex_digit (unat b div 16) # hex_digit (unat b mod 16) # hex_EncodeToString bs"

lemma hex_EncodeToString_Nil_iff [simp]: "hex_EncodeToString bs = [] \<longleftrightarrow> bs = []"
  by (cases bs) simp_all

section \<open>The package errs\<close>

text \<open>Four error values of \<^verbatim>\<open>errs/errors.go\<close> that are exported and that no other package of the repository uses.\<close>

definition ErrInvalidAlgorithm :: error where
  "ErrInvalidAlgorithm = ErrorNew ''invalid algorithm''"

definition ErrInvalidKey :: error where
  "ErrInvalidKey = ErrorNew ''invalid key''"

definition ErrAlgorithmKeyMismatch :: error where
  "ErrAlgorithmKeyMismatch = ErrorNew ''algorithm and key mismatch''"

definition ErrMalformedSignature :: error where
  "ErrMalformedSignature = ErrorNew ''malformed signature''"

end
