(* ===== verification/Material.thy ===== *)
theory Material
  imports Go_Std
begin

text \<open>
  The package \<^verbatim>\<open>material\<close>: the four kinds of key material, \<^verbatim>\<open>Clone\<close> and \<^verbatim>\<open>Public\<close>, over the key types
  of the standard library. A pointer is an \<open>option\<close> (\<open>None\<close> is nil), so the nil checks of the source
  are visible; a \<^verbatim>\<open>*big.Int\<close> is an \<open>int option\<close>. \<^verbatim>\<open>x509.ParseCertificate\<close> is a parameter.
\<close>

section \<open>Keys of the standard library\<close>

record curve_params =
  curve_Name :: string
  curve_BitSize :: nat
  curve_N :: nat

text \<open>
  An \<^verbatim>\<open>elliptic.Curve\<close>: the three curves the code compares with, and any other implementation, whose
  \<^verbatim>\<open>Params()\<close> may be nil. A nil interface is \<open>None\<close> of the option around it.
\<close>

datatype elliptic_curve = P256 | P384 | P521 | OtherCurve nat "curve_params option"

fun Params :: "elliptic_curve \<Rightarrow> curve_params option" where
  "Params P256 = Some \<lparr>curve_Name = ''P-256'', curve_BitSize = 256,
     curve_N = 0xffffffff00000000ffffffffffffffffbce6faada7179e84f3b9cac2fc632551\<rparr>"
| "Params P384 = Some \<lparr>curve_Name = ''P-384'', curve_BitSize = 384,
     curve_N = 0xffffffffffffffffffffffffffffffffffffffffffffffffc7634d81f4372ddf581a0db248b0a77aecec196accc52973\<rparr>"
| "Params P521 = Some \<lparr>curve_Name = ''P-521'', curve_BitSize = 521,
     curve_N = 0x1fffffffffffffffffffffffffffffffffffffffffffffffffffffffffffffffffa51868783bf2f966b7fcc0148f709a5d03bb5c9b8899c47aebb6fb71e91386409\<rparr>"
| "Params (OtherCurve i p) = p"

record rsa_PublicKey =
  rsa_N :: "int option"
  rsa_E :: int

record rsa_PrecomputedValues =
  rsa_Dp :: "int option"
  rsa_Dq :: "int option"
  rsa_Qinv :: "int option"

record rsa_PrivateKey =
  rsa_PublicPart :: rsa_PublicKey
  rsa_D :: "int option"
  rsa_Primes :: "int option list"
  rsa_Precomputed :: "rsa_PrecomputedValues option"

record ecdsa_PublicKey =
  ec_Curve :: "elliptic_curve option"
  ec_X :: "int option"
  ec_Y :: "int option"

record ecdsa_PrivateKey =
  ec_PublicPart :: ecdsa_PublicKey
  ec_D :: "int option"

text \<open>
  The dynamic types that the type switches on \<^verbatim>\<open>crypto.PublicKey\<close> and \<^verbatim>\<open>crypto.PrivateKey\<close> tell
  apart. A private key of another type may implement \<^verbatim>\<open>crypto.Signer\<close>, whose public key it then
  carries.
\<close>

datatype public_key =
    PubRSA "rsa_PublicKey option"
  | PubECDSA "ecdsa_PublicKey option"
  | PubEd25519 bytes
  | PubOther nat
  | PubNil

datatype private_key =
    PrivRSA "rsa_PrivateKey option"
  | PrivECDSA "ecdsa_PrivateKey option"
  | PrivEd25519 bytes
  | PrivOther nat "public_key option"
  | PrivNil

text \<open>The fields of an \<^verbatim>\<open>x509.Certificate\<close> that the code reads; \<open>cert_rest\<close> stands for the others.\<close>

record certificate =
  cert_Raw :: bytes
  cert_RawTBSCertificate :: bytes
  cert_RawSubjectPublicKeyInfo :: bytes
  cert_RawSubject :: bytes
  cert_RawIssuer :: bytes
  cert_Signature :: bytes
  cert_PublicKey :: public_key
  cert_rest :: nat

type_synonym certificate_parser = "bytes \<Rightarrow> error + certificate"

section \<open>Material\<close>

text \<open>
  A value of the interface \<^verbatim>\<open>Material\<close>: each constructor is a dynamic type, holding a pointer that may
  be nil. \<open>OtherMaterial\<close> is an implementation from outside the repository: whether \<^verbatim>\<open>reflect\<close> reports
  it nil, and what its \<^verbatim>\<open>Public()\<close> returns. A nil interface is \<open>None\<close> of \<open>material option\<close>.
\<close>

datatype material =
    PrivateMaterial "private_key option"
  | PublicMaterial "public_key option"
  | CertificateMaterial "certificate option option"
  | SymmetricMaterial "bytes option"
  | OtherMaterial nat bool "public_key option"

definition cloneBigInt :: "int option \<Rightarrow> int option" where
  "cloneBigInt value = (case value of None \<Rightarrow> None | Some v \<Rightarrow> Some v)"

fun clonePrivateKey :: "private_key \<Rightarrow> private_key" where
  "clonePrivateKey (PrivRSA None) = PrivRSA None"
| "clonePrivateKey (PrivRSA (Some value)) =
     PrivRSA (Some \<lparr>
       rsa_PublicPart = \<lparr>rsa_N = cloneBigInt (rsa_N (rsa_PublicPart value)),
                         rsa_E = rsa_E (rsa_PublicPart value)\<rparr>,
       rsa_D = cloneBigInt (rsa_D value),
       rsa_Primes = map cloneBigInt (rsa_Primes value),
       rsa_Precomputed = None\<rparr>)"
| "clonePrivateKey (PrivECDSA None) = PrivECDSA None"
| "clonePrivateKey (PrivECDSA (Some value)) =
     PrivECDSA (Some \<lparr>
       ec_PublicPart = \<lparr>ec_Curve = ec_Curve (ec_PublicPart value),
                        ec_X = cloneBigInt (ec_X (ec_PublicPart value)),
                        ec_Y = cloneBigInt (ec_Y (ec_PublicPart value))\<rparr>,
       ec_D = cloneBigInt (ec_D value)\<rparr>)"
| "clonePrivateKey (PrivEd25519 value) = PrivEd25519 ([] @ value)"
| "clonePrivateKey value = value"

fun clonePublicKey :: "public_key \<Rightarrow> public_key" where
  "clonePublicKey (PubRSA None) = PubRSA None"
| "clonePublicKey (PubRSA (Some value)) =
     PubRSA (Some \<lparr>rsa_N = cloneBigInt (rsa_N value), rsa_E = rsa_E value\<rparr>)"
| "clonePublicKey (PubECDSA None) = PubECDSA None"
| "clonePublicKey (PubECDSA (Some value)) =
     PubECDSA (Some \<lparr>ec_Curve = ec_Curve value, ec_X = cloneBigInt (ec_X value),
                     ec_Y = cloneBigInt (ec_Y value)\<rparr>)"
| "clonePublicKey (PubEd25519 value) = PubEd25519 ([] @ value)"
| "clonePublicKey value = value"

definition copyCertificate :: "certificate \<Rightarrow> certificate" where
  "copyCertificate value =
     value\<lparr>cert_Raw := [] @ cert_Raw value,
           cert_RawTBSCertificate := [] @ cert_RawTBSCertificate value,
           cert_RawSubjectPublicKeyInfo := [] @ cert_RawSubjectPublicKeyInfo value,
           cert_RawSubject := [] @ cert_RawSubject value,
           cert_RawIssuer := [] @ cert_RawIssuer value,
           cert_Signature := [] @ cert_Signature value,
           cert_PublicKey := clonePublicKey (cert_PublicKey value)\<rparr>"

fun cloneCertificate :: "certificate_parser \<Rightarrow> certificate option \<Rightarrow> certificate option" where
  "cloneCertificate parse None = None"
| "cloneCertificate parse (Some value) =
     (if length (cert_Raw value) \<noteq> 0
      then (case parse ([] @ cert_Raw value) of
              Inr cloned \<Rightarrow> Some cloned
            | Inl err \<Rightarrow> Some (copyCertificate value))
      else Some (copyCertificate value))"

fun Clone :: "certificate_parser \<Rightarrow> material \<Rightarrow> material" where
  "Clone parse (PrivateMaterial None) = PrivateMaterial None"
| "Clone parse (PrivateMaterial (Some Key)) = PrivateMaterial (Some (clonePrivateKey Key))"
| "Clone parse (PublicMaterial None) = PublicMaterial None"
| "Clone parse (PublicMaterial (Some Key)) = PublicMaterial (Some (clonePublicKey Key))"
| "Clone parse (CertificateMaterial None) = CertificateMaterial None"
| "Clone parse (CertificateMaterial (Some Cert)) =
     CertificateMaterial (Some (cloneCertificate parse Cert))"
| "Clone parse (SymmetricMaterial None) = SymmetricMaterial None"
| "Clone parse (SymmetricMaterial (Some Key)) = SymmetricMaterial (Some ([] @ Key))"
| "Clone parse (OtherMaterial i n p) = OtherMaterial i n p"

section \<open>Public parts\<close>

text \<open>
  \<^verbatim>\<open>p.Key.(crypto.Signer)\<close> and the \<^verbatim>\<open>Public\<close> methods of the standard library behind it: those of the
  RSA and ECDSA keys take the address of a field of their receiver, which panics on a nil pointer, and
  that of an Ed25519 key slices from byte 32.
\<close>

fun signer_Public :: "private_key \<Rightarrow> public_key option res" where
  "signer_Public (PrivRSA None) = Panic ''nil pointer dereference''"
| "signer_Public (PrivRSA (Some k)) = Ok (Some (PubRSA (Some (rsa_PublicPart k))))"
| "signer_Public (PrivECDSA None) = Panic ''nil pointer dereference''"
| "signer_Public (PrivECDSA (Some k)) = Ok (Some (PubECDSA (Some (ec_PublicPart k))))"
| "signer_Public (PrivEd25519 k) =
     (if length k < 32 then Panic ''slice bounds out of range''
      else Ok (Some (PubEd25519 (take 32 (drop 32 k @ replicate 32 0)))))"
| "signer_Public (PrivOther i p) = Ok p"
| "signer_Public PrivNil = Ok None"

text \<open>\<^verbatim>\<open>Public()\<close>: the key of the \<^verbatim>\<open>*PublicMaterial\<close> returned, \<open>None\<close> for a nil pointer.\<close>

fun Public :: "material \<Rightarrow> public_key option res" where
  "Public (PrivateMaterial None) = Ok None"
| "Public (PrivateMaterial (Some Key)) =
     bind_res (signer_Public Key)
       (\<lambda>signer. Ok (case signer of None \<Rightarrow> None | Some pub \<Rightarrow> Some (clonePublicKey pub)))"
| "Public (PublicMaterial None) = Ok None"
| "Public (PublicMaterial (Some Key)) = Ok (Some (clonePublicKey Key))"
| "Public (CertificateMaterial None) = Ok None"
| "Public (CertificateMaterial (Some None)) = Ok None"
| "Public (CertificateMaterial (Some (Some Cert))) =
     Ok (Some (clonePublicKey (cert_PublicKey Cert)))"
| "Public (SymmetricMaterial Key) = Ok None"
| "Public (OtherMaterial i n p) = Ok p"

section \<open>Facts\<close>

text \<open>As values, copies are what they were copied from.\<close>

lemma cloneBigInt_id [simp]: "cloneBigInt v = v"
  by (cases v) (simp_all add: cloneBigInt_def)

lemma map_cloneBigInt [simp]: "map cloneBigInt vs = vs"
  by (induction vs) auto

lemma clonePublicKey_id [simp]: "clonePublicKey k = k"
  by (cases k rule: clonePublicKey.cases) simp_all

lemma copyCertificate_id [simp]: "copyCertificate c = c"
  by (simp add: copyCertificate_def)

text \<open>
  What the certificate parser promises: the certificate it returns records the bytes it was given.
\<close>

definition parser_keeps_raw :: "certificate_parser \<Rightarrow> bool" where
  "parser_keeps_raw parse \<longleftrightarrow> (\<forall>der cert. parse der = Inr cert \<longrightarrow> cert_Raw cert = der)"

lemma clonePrivateKey_idem [simp]: "clonePrivateKey (clonePrivateKey k) = clonePrivateKey k"
  by (cases k rule: clonePrivateKey.cases) simp_all

lemma cloneCertificate_idem:
  assumes "parser_keeps_raw parse"
  shows "cloneCertificate parse (cloneCertificate parse c) = cloneCertificate parse c"
  using assms by (cases c) (auto simp: parser_keeps_raw_def split: sum.splits)

lemma Clone_idem:
  assumes "parser_keeps_raw parse"
  shows "Clone parse (Clone parse m) = Clone parse m"
  by (cases m rule: Clone.cases [of "(parse, m)" for parse m, simplified])
    (simp_all add: cloneCertificate_idem [OF assms])

end
