(* ===== verification/Keys.thy ===== *)
theory Keys
  imports Material
begin

text \<open>
  The package \<^verbatim>\<open>key\<close>: capabilities, candidates, keys with their backends, public descriptors, and the
  selectors that decide which keys an operation may use.
\<close>

section \<open>Capabilities\<close>

type_synonym KeyUse = string
type_synonym KeyOperation = string
type_synonym KeyAlg = string
type_synonym KeyStatus = string

definition KeyUseSigning :: KeyUse where "KeyUseSigning = ''signing''"
definition KeyUseEncryption :: KeyUse where "KeyUseEncryption = ''encryption''"

definition KeyOpSign :: KeyOperation where "KeyOpSign = ''sign''"
definition KeyOpVerify :: KeyOperation where "KeyOpVerify = ''verify''"
definition KeyOpEncrypt :: KeyOperation where "KeyOpEncrypt = ''encrypt''"
definition KeyOpDecrypt :: KeyOperation where "KeyOpDecrypt = ''decrypt''"

definition KeyStatusActive :: KeyStatus where "KeyStatusActive = ''active''"
definition KeyStatusPassive :: KeyStatus where "KeyStatusPassive = ''passive''"
definition KeyStatusDisabled :: KeyStatus where "KeyStatusDisabled = ''disabled''"

lemmas use_defs = KeyUseSigning_def KeyUseEncryption_def
lemmas op_defs = KeyOpSign_def KeyOpVerify_def KeyOpEncrypt_def KeyOpDecrypt_def
lemmas status_defs = KeyStatusActive_def KeyStatusPassive_def KeyStatusDisabled_def

record Capability =
  cap_Use :: KeyUse
  cap_Operation :: KeyOperation
  cap_Algorithm :: KeyAlg

definition Cap :: "KeyUse \<Rightarrow> KeyOperation \<Rightarrow> KeyAlg \<Rightarrow> Capability" where
  "Cap u p a = \<lparr>cap_Use = u, cap_Operation = p, cap_Algorithm = a\<rparr>"

section \<open>Backends\<close>

text \<open>
  A value of the interface \<^verbatim>\<open>Backend\<close>: its two methods, and, for each of the optional interfaces
  \<^verbatim>\<open>Signer\<close>, \<^verbatim>\<open>Verifier\<close>, \<^verbatim>\<open>Encrypter\<close> and \<^verbatim>\<open>Decrypter\<close>, the method when the dynamic type implements it
  (a failed type assertion is \<open>None\<close>). What a method draws from the random source is an argument.
\<close>

record Backend =
  backend_Supports :: "KeyUse \<Rightarrow> KeyOperation \<Rightarrow> KeyAlg \<Rightarrow> bool"
  backend_Capabilities :: "Capability list"
  backend_Sign :: "(ctxt \<Rightarrow> entropy \<Rightarrow> KeyAlg \<Rightarrow> bytes \<Rightarrow> bytes res) option"
  backend_Verify :: "(ctxt \<Rightarrow> KeyAlg \<Rightarrow> bytes \<Rightarrow> bytes \<Rightarrow> unit res) option"
  backend_Encrypt :: "(ctxt \<Rightarrow> entropy \<Rightarrow> KeyAlg \<Rightarrow> bytes \<Rightarrow> bytes res) option"
  backend_Decrypt :: "(ctxt \<Rightarrow> KeyAlg \<Rightarrow> bytes \<Rightarrow> bytes res) option"

text \<open>
  The loop that every backend of the repository runs over its capability table in \<^verbatim>\<open>Supports\<close>.
\<close>

fun table_Supports :: "Capability list \<Rightarrow> KeyUse \<Rightarrow> KeyOperation \<Rightarrow> KeyAlg \<Rightarrow> bool" where
  "table_Supports [] use operation algorithm = False"
| "table_Supports (capability # rest) use operation algorithm =
     (if cap_Use capability = use \<and> cap_Operation capability = operation
         \<and> cap_Algorithm capability = algorithm
      then True else table_Supports rest use operation algorithm)"

lemma table_Supports_iff:
  "table_Supports table u p a
     \<longleftrightarrow> \<lparr>cap_Use = u, cap_Operation = p, cap_Algorithm = a\<rparr> \<in> set table"
  by (induction table) (auto intro: Capability.equality)

section \<open>Keys\<close>

record KeyCandidate =
  cand_ID :: string
  cand_Owner :: string
  cand_Source :: string
  cand_Restrictions :: "Capability list"
  cand_Status :: KeyStatus
  cand_Priority :: int
  cand_NotBefore :: time
  cand_NotAfter :: time
  cand_Material :: "material option"

text \<open>The zero value of the struct.\<close>

definition zero_KeyCandidate :: KeyCandidate where
  "zero_KeyCandidate = \<lparr>cand_ID = [], cand_Owner = [], cand_Source = [], cand_Restrictions = [],
     cand_Status = [], cand_Priority = 0, cand_NotBefore = 0, cand_NotAfter = 0, cand_Material = None\<rparr>"

record Key =
  key_id :: string
  key_owner :: string
  key_source :: string
  key_restrictions :: "Capability list"
  key_status :: KeyStatus
  key_priority :: int
  key_notBefore :: time
  key_notAfter :: time
  key_material :: "material option"
  key_backend :: "Backend option"

definition KeyCandidate_Kind :: "KeyCandidate \<Rightarrow> string" where
  "KeyCandidate_Kind candidate = ''key_candidate''"

definition Key_Kind :: "Key \<Rightarrow> string" where
  "Key_Kind key = ''key''"

definition key_New :: "certificate_parser \<Rightarrow> KeyCandidate \<Rightarrow> Backend option \<Rightarrow> Key" where
  "key_New parse candidate backend = \<lparr>
     key_id = cand_ID candidate,
     key_owner = cand_Owner candidate,
     key_source = cand_Source candidate,
     key_restrictions = [] @ cand_Restrictions candidate,
     key_status = cand_Status candidate,
     key_priority = cand_Priority candidate,
     key_notBefore = cand_NotBefore candidate,
     key_notAfter = cand_NotAfter candidate,
     key_material = map_option (Clone parse) (cand_Material candidate),
     key_backend = backend\<rparr>"

text \<open>The accessor \<^verbatim>\<open>Material()\<close> clones; the other accessors are the record's fields.\<close>

definition Key_Material :: "certificate_parser \<Rightarrow> Key \<Rightarrow> material option" where
  "Key_Material parse key = map_option (Clone parse) (key_material key)"

definition Key_Restrictions :: "Key \<Rightarrow> Capability list" where
  "Key_Restrictions key = [] @ key_restrictions key"

record KeyDescriptor =
  desc_ID :: string
  desc_Owner :: string
  desc_Source :: string
  desc_Algorithm :: KeyAlg
  desc_Restrictions :: "Capability list"
  desc_Status :: KeyStatus
  desc_Priority :: int
  desc_NotBefore :: time
  desc_NotAfter :: time
  desc_Material :: "public_key option"

definition Descriptor :: "certificate_parser \<Rightarrow> Key \<Rightarrow> KeyAlg \<Rightarrow> KeyDescriptor res" where
  "Descriptor parse key algorithm =
     bind_res
       (case Key_Material parse key of None \<Rightarrow> Ok None | Some value \<Rightarrow> Public value)
       (\<lambda>public. Ok \<lparr>
          desc_ID = key_id key,
          desc_Owner = key_owner key,
          desc_Source = key_source key,
          desc_Algorithm = algorithm,
          desc_Restrictions = Key_Restrictions key,
          desc_Status = key_status key,
          desc_Priority = key_priority key,
          desc_NotBefore = key_notBefore key,
          desc_NotAfter = key_notAfter key,
          desc_Material = public\<rparr>)"

section \<open>Selectors\<close>

type_synonym SelectorOption = "Key \<Rightarrow> bool"

record Selector =
  sel_options :: "SelectorOption list"

definition zero_Selector :: Selector where
  "zero_Selector = \<lparr>sel_options = []\<rparr>"

text \<open>The loop of \<^verbatim>\<open>And\<close> that appends every option that is not nil.\<close>

fun append_options :: "SelectorOption list \<Rightarrow> SelectorOption option list \<Rightarrow> SelectorOption list" where
  "append_options combined [] = combined"
| "append_options combined (None # options) = append_options combined options"
| "append_options combined (Some opt # options) = append_options (combined @ [opt]) options"

definition And :: "Selector \<Rightarrow> SelectorOption option list \<Rightarrow> Selector" where
  "And selector options = \<lparr>sel_options = append_options ([] @ sel_options selector) options\<rparr>"

definition Select :: "SelectorOption option list \<Rightarrow> Selector" where
  "Select options = And zero_Selector options"

definition WithID :: "string \<Rightarrow> SelectorOption" where
  "WithID kid = (\<lambda>candidate. key_id candidate = kid)"

definition WithOwner :: "string \<Rightarrow> SelectorOption" where
  "WithOwner owner = (\<lambda>candidate. key_owner candidate = owner)"

definition WithSource :: "string \<Rightarrow> SelectorOption" where
  "WithSource source = (\<lambda>candidate. key_source candidate = source)"

fun status_loop :: "KeyStatus list \<Rightarrow> Key \<Rightarrow> bool" where
  "status_loop [] candidate = False"
| "status_loop (status # allowed) candidate =
     (if key_status candidate = status then True else status_loop allowed candidate)"

definition WithStatus :: "KeyStatus list \<Rightarrow> SelectorOption" where
  "WithStatus statuses = (\<lambda>candidate. status_loop ([] @ statuses) candidate)"

definition WithoutStatus :: "KeyStatus \<Rightarrow> SelectorOption" where
  "WithoutStatus status = (\<lambda>candidate. key_status candidate \<noteq> status)"

definition WithValidityAt :: "time \<Rightarrow> SelectorOption" where
  "WithValidityAt at = (\<lambda>candidate.
     (IsZero (key_notBefore candidate) \<or> \<not> Before at (key_notBefore candidate))
     \<and> (IsZero (key_notAfter candidate) \<or> \<not> After at (key_notAfter candidate)))"

fun restriction_loop :: "Capability list \<Rightarrow> Capability \<Rightarrow> bool" where
  "restriction_loop [] capability = False"
| "restriction_loop (restriction # restrictions) capability =
     (if restriction = capability then True else restriction_loop restrictions capability)"

definition WithCapability :: "Capability \<Rightarrow> SelectorOption" where
  "WithCapability capability = (\<lambda>candidate.
     case key_backend candidate of
       None \<Rightarrow> False
     | Some backend \<Rightarrow>
         if \<not> backend_Supports backend (cap_Use capability) (cap_Operation capability)
                (cap_Algorithm capability)
         then False
         else if length (Key_Restrictions candidate) = 0 then True
         else restriction_loop (Key_Restrictions candidate) capability)"

fun matches_loop :: "SelectorOption list \<Rightarrow> Key \<Rightarrow> bool" where
  "matches_loop [] candidate = True"
| "matches_loop (opt # options) candidate =
     (if \<not> opt candidate then False else matches_loop options candidate)"

definition Matches :: "Selector \<Rightarrow> Key \<Rightarrow> bool" where
  "Matches selector candidate = matches_loop (sel_options selector) candidate"

section \<open>Facts\<close>

lemma status_loop_iff: "status_loop ss k \<longleftrightarrow> key_status k \<in> set ss"
  by (induction ss) auto

lemma restriction_loop_iff: "restriction_loop rs c \<longleftrightarrow> c \<in> set rs"
  by (induction rs) auto

lemma matches_loop_iff: "matches_loop os k \<longleftrightarrow> (\<forall>p\<in>set os. p k)"
  by (induction os) auto

lemma append_options_eq: "append_options xs os = xs @ List.map_filter id os"
  by (induction xs os rule: append_options.induct) (simp_all add: List.map_filter_simps)

lemma Matches_And [select_simps]:
  "Matches (And selector options) k
     \<longleftrightarrow> Matches selector k \<and> (\<forall>p\<in>set (List.map_filter id options). p k)"
  by (auto simp: Matches_def And_def matches_loop_iff append_options_eq)

lemma Matches_zero [select_simps, simp]: "Matches zero_Selector k"
  by (simp add: Matches_def zero_Selector_def)

lemma Matches_Select [select_simps]:
  "Matches (Select options) k \<longleftrightarrow> (\<forall>p\<in>set (List.map_filter id options). p k)"
  by (simp add: Select_def Matches_And)

lemma Matches_Select_one [select_simps, simp]: "Matches (Select [Some p]) k \<longleftrightarrow> p k"
  by (simp add: Matches_Select List.map_filter_simps)

lemma WithStatus_iff [select_simps]: "WithStatus statuses k \<longleftrightarrow> key_status k \<in> set statuses"
  by (simp add: WithStatus_def status_loop_iff)

lemma WithCapability_iff [select_simps]:
  "WithCapability c k \<longleftrightarrow>
     (\<exists>b. key_backend k = Some b \<and> backend_Supports b (cap_Use c) (cap_Operation c) (cap_Algorithm c))
     \<and> (key_restrictions k = [] \<or> c \<in> set (key_restrictions k))"
  by (auto simp: WithCapability_def Key_Restrictions_def restriction_loop_iff split: option.split)

lemma WithValidityAt_iff [select_simps]:
  "WithValidityAt at k \<longleftrightarrow>
     (key_notBefore k = 0 \<or> key_notBefore k \<le> at) \<and> (key_notAfter k = 0 \<or> at \<le> key_notAfter k)"
  by (auto simp: WithValidityAt_def time_simps)

lemmas [select_simps] = WithID_def WithOwner_def WithSource_def WithoutStatus_def

lemma key_New_simps [simp]:
  "key_id (key_New parse c b) = cand_ID c"
  "key_owner (key_New parse c b) = cand_Owner c"
  "key_source (key_New parse c b) = cand_Source c"
  "key_restrictions (key_New parse c b) = cand_Restrictions c"
  "key_status (key_New parse c b) = cand_Status c"
  "key_priority (key_New parse c b) = cand_Priority c"
  "key_notBefore (key_New parse c b) = cand_NotBefore c"
  "key_notAfter (key_New parse c b) = cand_NotAfter c"
  "key_backend (key_New parse c b) = b"
  by (simp_all add: key_New_def)

lemma And_does_not_weaken: "Matches (And selector options) k \<Longrightarrow> Matches selector k"
  by (simp add: Matches_And)

lemma Matches_And_append:
  "Matches (And (And selector xs) ys) k \<longleftrightarrow> Matches (And selector (xs @ ys)) k"
  by (auto simp: Matches_And List.map_filter_def)

end
