(* ===== verification/Keyset.thy ===== *)
theory Keyset
  imports Keys
begin

text \<open>
  The package \<^verbatim>\<open>keyset\<close>: the in-memory repository of keys behind its interface \<^verbatim>\<open>KeySet\<close>. Its two
  methods hold the set's lock for their whole body, so each is one atomic function of the state.
  \<^verbatim>\<open>Replace\<close> compacts the slice in place: the loop below reads and writes one backing array, and is
  shown to compute the filter it is meant to compute. The interface itself is the locale
  \<open>key_repository\<close>, whose laws are what the keystore relies on.
\<close>

section \<open>The implementation\<close>

record keySet =
  ks_keys :: "Key list"

definition keyset_New :: keySet where
  "keyset_New = \<lparr>ks_keys = []\<rparr>"

fun find_loop :: "Selector \<Rightarrow> Key list \<Rightarrow> Key list \<Rightarrow> Key list" where
  "find_loop selector [] result = result"
| "find_loop selector (candidate # keys) result =
     (if Matches selector candidate then find_loop selector keys (result @ [candidate])
      else find_loop selector keys result)"

definition Find :: "ctxt \<Rightarrow> keySet \<Rightarrow> Selector \<Rightarrow> Key list res" where
  "Find ctx r selector =
     (case ctx 0 of
        Some err \<Rightarrow> Err err
      | None \<Rightarrow> Ok (find_loop selector (ks_keys r) []))"

text \<open>
  The loop of \<^verbatim>\<open>Replace\<close>. \<^verbatim>\<open>kept := r.keys[:0]\<close> shares the array of \<^verbatim>\<open>r.keys\<close>: \<open>arr\<close> is that array,
  \<open>i\<close> the index of the range loop, \<open>w\<close> the length of \<open>kept\<close>, and appending to \<open>kept\<close> overwrites
  \<open>arr ! w\<close>.
\<close>

function compact_loop :: "Selector \<Rightarrow> Key list \<Rightarrow> nat \<Rightarrow> nat \<Rightarrow> Key list \<times> nat" where
  "compact_loop selector arr i w =
     (if i < length arr
      then (let candidate = arr ! i in
            if \<not> Matches selector candidate
            then compact_loop selector (arr[w := candidate]) (Suc i) (Suc w)
            else compact_loop selector arr (Suc i) w)
      else (arr, w))"
  by pat_completeness auto
termination
  by (relation "measure (\<lambda>(selector, arr, i, w). length arr - i)") auto

declare compact_loop.simps [simp del]

definition Replace :: "ctxt \<Rightarrow> keySet \<Rightarrow> Key list \<Rightarrow> Selector \<Rightarrow> keySet \<times> unit res" where
  "Replace ctx r keys selector =
     (case ctx 0 of
        Some err \<Rightarrow> (r, Err err)
      | None \<Rightarrow>
          (let (arr, w) = compact_loop selector (ks_keys r) 0 0;
               kept = take w arr
           in (r\<lparr>ks_keys := kept @ keys\<rparr>, Ok ())))"

section \<open>The loops\<close>

lemma find_loop_eq: "find_loop selector keys result = result @ filter (Matches selector) keys"
  by (induction keys arbitrary: result) auto

text \<open>
  The invariant of the compaction: the first \<open>w\<close> cells hold the kept keys among the first \<open>i\<close>, the
  cells from \<open>i\<close> on are not overwritten yet, and the write index never passes the read index.
\<close>

lemma compact_loop_inv:
  assumes "w \<le> i" "i \<le> length keys" "length arr = length keys"
    and "take w arr = filter (\<lambda>k. \<not> Matches selector k) (take i keys)"
    and "drop i arr = drop i keys"
  shows "compact_loop selector arr i w = (arr', w') \<Longrightarrow>
     w' \<le> length arr' \<and> take w' arr' = filter (\<lambda>k. \<not> Matches selector k) keys"
  using assms
proof (induction selector arr i w rule: compact_loop.induct)
  case (1 selector arr i w)
  show ?case
  proof (cases "i < length arr")
    case False
    with 1 show ?thesis by (auto simp: compact_loop.simps [of selector arr i w])
  next
    case True
    have cell: "arr ! i = keys ! i"
      using "1.prems"(6) True by (metis "1.prems"(4) hd_drop_conv_nth)
    have next_keys: "take (Suc i) keys = take i keys @ [arr ! i]"
      using True "1.prems"(4) cell by (simp add: take_Suc_conv_app_nth)
    have tails: "drop (Suc i) arr = drop (Suc i) keys"
      using "1.prems"(6) by (metis drop_Suc tl_drop)
    show ?thesis
    proof (cases "Matches selector (arr ! i)")
      case match: True
      have "compact_loop selector arr (Suc i) w = (arr', w')"
        using "1.prems"(1) True match
        by (simp add: compact_loop.simps [of selector arr i w])
      then show ?thesis
        using "1.IH"(2) [OF True refl] match "1.prems" True tails next_keys by simp
    next
      case keep: False
      have "compact_loop selector (arr[w := arr ! i]) (Suc i) (Suc w) = (arr', w')"
        using "1.prems"(1) True keep
        by (simp add: compact_loop.simps [of selector arr i w])
      moreover have "take (Suc w) (arr[w := arr ! i]) = take w arr @ [arr ! i]"
        using "1.prems"(2) True by (simp add: take_Suc_conv_app_nth)
      moreover have "drop (Suc i) (arr[w := arr ! i]) = drop (Suc i) keys"
        using "1.prems"(2) tails by simp
      ultimately show ?thesis
        using "1.IH"(1) [OF True refl] keep "1.prems" True next_keys by simp
    qed
  qed
qed

lemma compact_loop_filter:
  "compact_loop selector keys 0 0 = (arr, w) \<Longrightarrow>
     take w arr = filter (\<lambda>k. \<not> Matches selector k) keys"
  using compact_loop_inv [of 0 0 keys keys selector arr w] by simp

lemma Find_eq:
  "Find ctx r selector =
     (case ctx 0 of Some err \<Rightarrow> Err err | None \<Rightarrow> Ok (filter (Matches selector) (ks_keys r)))"
  by (simp add: Find_def find_loop_eq split: option.split)

lemma Replace_eq:
  "Replace ctx r keys selector =
     (case ctx 0 of
        Some err \<Rightarrow> (r, Err err)
      | None \<Rightarrow>
          (r\<lparr>ks_keys := filter (\<lambda>k. \<not> Matches selector k) (ks_keys r) @ keys\<rparr>, Ok ()))"
  by (auto simp: Replace_def Let_def compact_loop_filter split: option.split prod.split)

section \<open>The interface\<close>

text \<open>
  What a client of \<^verbatim>\<open>KeySet\<close> may rely on: \<open>contents\<close> are the keys of a state in order, \<open>find\<close> selects
  among them and changes nothing, \<open>replace\<close> drops the selected keys and appends the given ones, and a
  cancelled context makes either of them fail without an effect.
\<close>

locale key_repository =
  fixes find_keys :: "ctxt \<Rightarrow> 'r \<Rightarrow> Selector \<Rightarrow> Key list res"
    and replace_keys :: "ctxt \<Rightarrow> 'r \<Rightarrow> Key list \<Rightarrow> Selector \<Rightarrow> 'r \<times> unit res"
    and contents :: "'r \<Rightarrow> Key list"
  assumes find_ok: "ctx 0 = None \<Longrightarrow> find_keys ctx r sel = Ok (filter (Matches sel) (contents r))"
    and find_cancelled: "ctx 0 = Some err \<Longrightarrow> find_keys ctx r sel = Err err"
    and replace_ok: "ctx 0 = None \<Longrightarrow> snd (replace_keys ctx r ks sel) = Ok ()"
    and replace_contents: "ctx 0 = None \<Longrightarrow>
      contents (fst (replace_keys ctx r ks sel)) = filter (\<lambda>k. \<not> Matches sel k) (contents r) @ ks"
    and replace_cancelled: "ctx 0 = Some err \<Longrightarrow> replace_keys ctx r ks sel = (r, Err err)"
begin

text \<open>Replacing the keys of one source leaves the keys of every other source in place.\<close>

lemma replace_other_source:
  assumes "s \<noteq> t" "ctx 0 = None" "\<forall>k\<in>set ks. key_source k = s"
  shows "filter (WithSource t) (contents (fst (replace_keys ctx r ks (Select [Some (WithSource s)]))))
       = filter (WithSource t) (contents r)"
proof -
  have "filter (WithSource t) ks = []"
    using assms(1,3) by (auto simp: filter_empty_conv WithSource_def)
  moreover have "filter (WithSource t) (filter (\<lambda>k. \<not> WithSource s k) xs) = filter (WithSource t) xs"
    for xs
    using assms(1) by (auto simp: WithSource_def intro: filter_cong)
  ultimately show ?thesis
    using assms(2) by (simp add: replace_contents)
qed

text \<open>The keys of the replaced source are exactly the given ones, when these name that source.\<close>

lemma replace_own_source:
  assumes "ctx 0 = None" "\<forall>k\<in>set ks. key_source k = s"
  shows "filter (WithSource s) (contents (fst (replace_keys ctx r ks (Select [Some (WithSource s)]))))
       = ks"
proof -
  have "filter (WithSource s) (filter (\<lambda>k. \<not> WithSource s k) xs) = []" for xs
    by (simp add: filter_empty_conv)
  moreover have "filter (WithSource s) ks = ks"
    using assms(2) by (simp add: filter_id_conv WithSource_def)
  ultimately show ?thesis
    using assms(1) by (simp add: replace_contents)
qed

text \<open>Replacements of two different sources commute, up to the order of the keys.\<close>

lemma replace_commute:
  assumes "s \<noteq> t" "ctx 0 = None" "ctx' 0 = None"
    and "\<forall>k\<in>set ks. key_source k = s" "\<forall>k\<in>set ls. key_source k = t"
  shows "mset (contents (fst (replace_keys ctx' (fst (replace_keys ctx r ks
             (Select [Some (WithSource s)]))) ls (Select [Some (WithSource t)]))))
       = mset (contents (fst (replace_keys ctx (fst (replace_keys ctx' r ls
             (Select [Some (WithSource t)]))) ks (Select [Some (WithSource s)]))))"
proof -
  have ks: "filter (\<lambda>k. \<not> WithSource t k) ks = ks" and ls: "filter (\<lambda>k. \<not> WithSource s k) ls = ls"
    using assms(1,4,5) by (auto simp: filter_id_conv WithSource_def)
  have "filter (\<lambda>k. \<not> WithSource t k) (filter (\<lambda>k. \<not> WithSource s k) xs)
      = filter (\<lambda>k. \<not> WithSource s k) (filter (\<lambda>k. \<not> WithSource t k) xs)" for xs :: "Key list"
    by (simp add: conj_commute)
  then show ?thesis
    using assms(2,3) ks ls by (simp add: replace_contents)
qed

end

interpretation ks: key_repository Find Replace ks_keys
  by unfold_locales (simp_all add: Find_eq Replace_eq)

end
