(* ===== verification/Crypto.thy ===== *)
theory Crypto
  imports Keys
begin

text \<open>
  The cryptographic primitives of the standard library, as one record of functions that the backends
  take as a parameter, and the constructions over them that have an elementary definition: HMAC and
  cipher block chaining. What a backend relies on is stated by the predicates at the end; they are
  documented properties of the primitives (a signature made by a private key verifies under its
  public part, opening undoes sealing, a block cipher is a permutation of blocks).
\<close>

section \<open>Primitives\<close>

datatype hash = SHA1 | SHA256 | SHA384 | SHA512

fun hash_Size :: "hash \<Rightarrow> nat" where
  "hash_Size SHA1 = 20"
| "hash_Size SHA256 = 32"
| "hash_Size SHA384 = 48"
| "hash_Size SHA512 = 64"

fun hash_BlockSize :: "hash \<Rightarrow> nat" where
  "hash_BlockSize SHA1 = 64"
| "hash_BlockSize SHA256 = 64"
| "hash_BlockSize SHA384 = 128"
| "hash_BlockSize SHA512 = 128"

fun hash_String :: "hash \<Rightarrow> string" where
  "hash_String SHA1 = ''SHA-1''"
| "hash_String SHA256 = ''SHA-256''"
| "hash_String SHA384 = ''SHA-384''"
| "hash_String SHA512 = ''SHA-512''"

text \<open>
  \<open>prim_unsafe_build\<close> is the build tag \<^verbatim>\<open>with_unsafe_crypto\<close>. The salt of every PSS signature is as
  long as its hash, and every OAEP label is empty, so neither is an argument.
\<close>

record primitives =
  prim_unsafe_build :: bool
  prim_hash_Available :: "hash \<Rightarrow> bool"
  prim_hash_Sum :: "hash \<Rightarrow> bytes \<Rightarrow> bytes"
  prim_rsa_SignPKCS1v15 :: "entropy \<Rightarrow> rsa_PrivateKey \<Rightarrow> hash \<Rightarrow> bytes \<Rightarrow> bytes res"
  prim_rsa_SignPSS :: "entropy \<Rightarrow> rsa_PrivateKey \<Rightarrow> hash \<Rightarrow> bytes \<Rightarrow> bytes res"
  prim_rsa_VerifyPKCS1v15 :: "rsa_PublicKey \<Rightarrow> hash \<Rightarrow> bytes \<Rightarrow> bytes \<Rightarrow> unit res"
  prim_rsa_VerifyPSS :: "rsa_PublicKey \<Rightarrow> hash \<Rightarrow> bytes \<Rightarrow> bytes \<Rightarrow> unit res"
  prim_rsa_EncryptOAEP :: "hash \<Rightarrow> entropy \<Rightarrow> rsa_PublicKey \<Rightarrow> bytes \<Rightarrow> bytes res"
  prim_rsa_DecryptOAEP :: "hash \<Rightarrow> rsa_PrivateKey \<Rightarrow> bytes \<Rightarrow> bytes res"
  prim_rsa_EncryptPKCS1v15 :: "entropy \<Rightarrow> rsa_PublicKey \<Rightarrow> bytes \<Rightarrow> bytes res"
  prim_rsa_DecryptPKCS1v15 :: "rsa_PrivateKey \<Rightarrow> bytes \<Rightarrow> bytes res"
  prim_ecdsa_Sign :: "entropy \<Rightarrow> ecdsa_PrivateKey \<Rightarrow> bytes \<Rightarrow> (int option \<times> int option) res"
  prim_ecdsa_Verify :: "ecdsa_PublicKey \<Rightarrow> bytes \<Rightarrow> int \<Rightarrow> int \<Rightarrow> bool"
  prim_aes_gcm_Seal :: "bytes \<Rightarrow> bytes \<Rightarrow> bytes \<Rightarrow> bytes"
  prim_aes_gcm_Open :: "bytes \<Rightarrow> bytes \<Rightarrow> bytes \<Rightarrow> error + bytes"
  prim_des3_Encrypt :: "bytes \<Rightarrow> bytes \<Rightarrow> bytes"
  prim_des3_Decrypt :: "bytes \<Rightarrow> bytes \<Rightarrow> bytes"

text \<open>\<^verbatim>\<open>hashMessage\<close> of the package \<^verbatim>\<open>backend/rsa\<close>; \<^verbatim>\<open>backend/ec\<close> has a copy of its own.\<close>

definition hashMessage :: "primitives \<Rightarrow> hash \<Rightarrow> bytes \<Rightarrow> bytes res" where
  "hashMessage prim hash message =
     (if \<not> prim_hash_Available prim hash
      then Err (Errorf ''sig: hash %v is unavailable'' [StrArg (hash_String hash)])
      else Ok (prim_hash_Sum prim hash message))"

section \<open>HMAC\<close>

definition xor_bytes :: "bytes \<Rightarrow> byte \<Rightarrow> bytes" where
  "xor_bytes bs p = map (\<lambda>b. Bit_Operations.xor b p) bs"

definition hmac :: "primitives \<Rightarrow> hash \<Rightarrow> bytes \<Rightarrow> bytes \<Rightarrow> bytes" where
  "hmac prim hash key message =
     (let short = (if length key > hash_BlockSize hash then prim_hash_Sum prim hash key else key);
          block = short @ replicate (hash_BlockSize hash - length short) 0
      in prim_hash_Sum prim hash (xor_bytes block 0x5c
           @ prim_hash_Sum prim hash (xor_bytes block 0x36 @ message)))"

section \<open>Cipher block chaining\<close>

definition xor_blocks :: "bytes \<Rightarrow> bytes \<Rightarrow> bytes" where
  "xor_blocks xs ys = map2 Bit_Operations.xor xs ys"

text \<open>\<^verbatim>\<open>CryptBlocks\<close> of the CBC modes on \<open>n\<close> whole blocks of \<open>bsz\<close> bytes.\<close>

fun cbc_encrypt :: "(bytes \<Rightarrow> bytes) \<Rightarrow> nat \<Rightarrow> bytes \<Rightarrow> nat \<Rightarrow> bytes \<Rightarrow> bytes" where
  "cbc_encrypt enc bsz iv 0 src = []"
| "cbc_encrypt enc bsz iv (Suc n) src =
     (let c = enc (xor_blocks (take bsz src) iv) in c @ cbc_encrypt enc bsz c n (drop bsz src))"

fun cbc_decrypt :: "(bytes \<Rightarrow> bytes) \<Rightarrow> nat \<Rightarrow> bytes \<Rightarrow> nat \<Rightarrow> bytes \<Rightarrow> bytes" where
  "cbc_decrypt dec bsz iv 0 src = []"
| "cbc_decrypt dec bsz iv (Suc n) src =
     (let c = take bsz src in xor_blocks (dec c) iv @ cbc_decrypt dec bsz c n (drop bsz src))"

text \<open>
  Both modes panic when the input is not made of full blocks, so a call that returns has one block
  per \<open>bsz\<close> bytes.
\<close>

definition CBC_Encrypt :: "(bytes \<Rightarrow> bytes) \<Rightarrow> nat \<Rightarrow> bytes \<Rightarrow> bytes \<Rightarrow> bytes res" where
  "CBC_Encrypt enc bsz iv src =
     (if length src mod bsz \<noteq> 0 then Panic ''crypto/cipher: input not full blocks''
      else Ok (cbc_encrypt enc bsz iv (length src div bsz) src))"

definition CBC_Decrypt :: "(bytes \<Rightarrow> bytes) \<Rightarrow> nat \<Rightarrow> bytes \<Rightarrow> bytes \<Rightarrow> bytes res" where
  "CBC_Decrypt dec bsz iv src =
     (if length src mod bsz \<noteq> 0 then Panic ''crypto/cipher: input not full blocks''
      else Ok (cbc_decrypt dec bsz iv (length src div bsz) src))"

text \<open>A block cipher: \<open>dec\<close> undoes \<open>enc\<close> on blocks, and \<open>enc\<close> maps blocks to blocks.\<close>

definition block_cipher :: "nat \<Rightarrow> (bytes \<Rightarrow> bytes) \<Rightarrow> (bytes \<Rightarrow> bytes) \<Rightarrow> bool" where
  "block_cipher bsz enc dec \<longleftrightarrow>
     (\<forall>b. length b = bsz \<longrightarrow> length (enc b) = bsz \<and> dec (enc b) = b)"

lemma block_cipherD:
  "block_cipher bsz enc dec \<Longrightarrow> length b = bsz \<Longrightarrow> length (enc b) = bsz"
  "block_cipher bsz enc dec \<Longrightarrow> length b = bsz \<Longrightarrow> dec (enc b) = b"
  by (simp_all add: block_cipher_def)

lemma length_xor_blocks [simp]: "length (xor_blocks xs ys) = min (length xs) (length ys)"
  by (simp add: xor_blocks_def)

lemma xor_blocks_cancel: "length xs = length ys \<Longrightarrow> xor_blocks (xor_blocks xs ys) ys = xs"
  by (induction xs ys rule: list_induct2) (simp_all add: xor_blocks_def xor.assoc)

lemma cbc_roundtrip:
  assumes "block_cipher bsz enc dec"
  shows "length iv = bsz \<Longrightarrow> length src = n * bsz \<Longrightarrow>
     length (cbc_encrypt enc bsz iv n src) = n * bsz
     \<and> cbc_decrypt dec bsz iv n (cbc_encrypt enc bsz iv n src) = src"
proof (induction n arbitrary: iv src)
  case 0
  then show ?case by simp
next
  case (Suc n)
  let ?x = "xor_blocks (take bsz src) iv"
  have len: "length (take bsz src) = bsz" using Suc.prems by simp
  have x: "length ?x = bsz" using Suc.prems len by simp
  have c: "length (enc ?x) = bsz" and d: "dec (enc ?x) = ?x"
    using block_cipherD [OF assms x] by simp_all
  have "length (drop bsz src) = n * bsz" using Suc.prems by simp
  note IH = Suc.IH [OF c this]
  have "xor_blocks ?x iv = take bsz src"
    using xor_blocks_cancel len Suc.prems(1) by simp
  then show ?case
    using IH c d by (simp add: Let_def)
qed

section \<open>What the backends rely on\<close>

definition rsa_signatures_verify :: "primitives \<Rightarrow> rsa_PrivateKey \<Rightarrow> bool" where
  "rsa_signatures_verify prim key \<longleftrightarrow>
     (\<forall>rand hash digest sig.
        (prim_rsa_SignPKCS1v15 prim rand key hash digest = Ok sig \<longrightarrow>
           prim_rsa_VerifyPKCS1v15 prim (rsa_PublicPart key) hash digest sig = Ok ())
        \<and> (prim_rsa_SignPSS prim rand key hash digest = Ok sig \<longrightarrow>
           prim_rsa_VerifyPSS prim (rsa_PublicPart key) hash digest sig = Ok ()))"

definition rsa_decrypts :: "primitives \<Rightarrow> rsa_PrivateKey \<Rightarrow> bool" where
  "rsa_decrypts prim key \<longleftrightarrow>
     (\<forall>rand hash plain cipher.
        (prim_rsa_EncryptOAEP prim hash rand (rsa_PublicPart key) plain = Ok cipher \<longrightarrow>
           prim_rsa_DecryptOAEP prim hash key cipher = Ok plain)
        \<and> (prim_rsa_EncryptPKCS1v15 prim rand (rsa_PublicPart key) plain = Ok cipher \<longrightarrow>
           prim_rsa_DecryptPKCS1v15 prim key cipher = Ok plain))"

text \<open>
  An ECDSA signature is a pair of integers between 1 and the order of the curve that verifies under
  the public part of the key.
\<close>

definition ecdsa_signatures_verify :: "primitives \<Rightarrow> ecdsa_PrivateKey \<Rightarrow> bool" where
  "ecdsa_signatures_verify prim key \<longleftrightarrow>
     (\<forall>rand digest r s curve params.
        prim_ecdsa_Sign prim rand key digest = Ok (r, s) \<longrightarrow>
        ec_Curve (ec_PublicPart key) = Some curve \<longrightarrow> Params curve = Some params \<longrightarrow>
        (\<exists>r' s'. r = Some r' \<and> s = Some s'
           \<and> 0 < r' \<and> r' < int (curve_N params) \<and> 0 < s' \<and> s' < int (curve_N params)
           \<and> prim_ecdsa_Verify prim (ec_PublicPart key) digest r' s'))"

definition gcm_opens :: "primitives \<Rightarrow> bytes \<Rightarrow> bool" where
  "gcm_opens prim key \<longleftrightarrow>
     (\<forall>nonce plain. length (prim_aes_gcm_Seal prim key nonce plain) = length plain + 16
        \<and> prim_aes_gcm_Open prim key nonce (prim_aes_gcm_Seal prim key nonce plain) = Inr plain)"

definition entropy_fills :: "entropy \<Rightarrow> bool" where
  "entropy_fills rand \<longleftrightarrow> (\<forall>n bs. rand n = Inr bs \<longrightarrow> length bs = n)"

text \<open>
  A concrete choice of primitives with these properties, for evaluating the backends on examples:
  identity ciphers with a fixed-size tag, a truncating digest, signatures that repeat the digest.
\<close>

definition sample_digest :: "hash \<Rightarrow> bytes \<Rightarrow> bytes" where
  "sample_digest hash m = take (hash_Size hash) (m @ replicate (hash_Size hash) 0)"

definition sample_primitives :: "bool \<Rightarrow> primitives" where
  "sample_primitives unsafe_build = \<lparr>
     prim_unsafe_build = unsafe_build,
     prim_hash_Available = (\<lambda>_. True),
     prim_hash_Sum = sample_digest,
     prim_rsa_SignPKCS1v15 = (\<lambda>rand key hash digest. Ok (1 # digest)),
     prim_rsa_SignPSS = (\<lambda>rand key hash digest. Ok (2 # digest)),
     prim_rsa_VerifyPKCS1v15 = (\<lambda>key hash digest sig.
        if sig = 1 # digest then Ok () else Err (ErrorNew ''crypto/rsa: verification error'')),
     prim_rsa_VerifyPSS = (\<lambda>key hash digest sig.
        if sig = 2 # digest then Ok () else Err (ErrorNew ''crypto/rsa: verification error'')),
     prim_rsa_EncryptOAEP = (\<lambda>hash rand key plain. Ok plain),
     prim_rsa_DecryptOAEP = (\<lambda>hash key cipher. Ok cipher),
     prim_rsa_EncryptPKCS1v15 = (\<lambda>rand key plain. Ok plain),
     prim_rsa_DecryptPKCS1v15 = (\<lambda>key cipher. Ok cipher),
     prim_ecdsa_Sign = (\<lambda>rand key digest. Ok (Some 1, Some 2)),
     prim_ecdsa_Verify = (\<lambda>key digest r s. r = 1 \<and> s = 2),
     prim_aes_gcm_Seal = (\<lambda>key nonce plain. plain @ replicate 16 0),
     prim_aes_gcm_Open = (\<lambda>key nonce sealed. Inr (take (length sealed - 16) sealed)),
     prim_des3_Encrypt = (\<lambda>key b. b),
     prim_des3_Decrypt = (\<lambda>key b. b)\<rparr>"

definition sample_entropy :: entropy where
  "sample_entropy n = Inr (replicate n 7)"

lemma sample_sound [simp]:
  "rsa_signatures_verify (sample_primitives t) rk" "rsa_decrypts (sample_primitives t) rk"
  "gcm_opens (sample_primitives t) k"
  "block_cipher n (prim_des3_Encrypt (sample_primitives t) k) (prim_des3_Decrypt (sample_primitives t) k)"
  "entropy_fills sample_entropy" "prim_hash_Available (sample_primitives t) h"
  "prim_unsafe_build (sample_primitives t) = t"
  by (simp_all add: rsa_signatures_verify_def rsa_decrypts_def gcm_opens_def block_cipher_def
      entropy_fills_def sample_entropy_def sample_primitives_def)

end
