(* ===== verification/Backend_Contract.thy ===== *)
theory Backend_Contract
  imports Crypto
begin

text \<open>
  What the keystore relies on when it uses a backend: the capability table and \<^verbatim>\<open>Supports\<close> agree, and a
  backend that claims an operation implements the interface of that operation, so the type assertion
  that follows a selection succeeds. A signing backend moreover accepts its own signatures. The
  locales are interpreted on the backends of the packages \<^verbatim>\<open>symetric\<close>, \<^verbatim>\<open>ec\<close> and \<^verbatim>\<open>rsa\<close>.
\<close>

locale backend_contract =
  fixes b :: Backend
  assumes supports_listed: "backend_Supports b u p a \<longleftrightarrow>
      \<lparr>cap_Use = u, cap_Operation = p, cap_Algorithm = a\<rparr> \<in> set (backend_Capabilities b)"
    and implements_sign: "backend_Supports b u KeyOpSign a \<Longrightarrow> backend_Sign b \<noteq> None"
    and implements_verify: "backend_Supports b u KeyOpVerify a \<Longrightarrow> backend_Verify b \<noteq> None"
    and implements_encrypt: "backend_Supports b u KeyOpEncrypt a \<Longrightarrow> backend_Encrypt b \<noteq> None"
    and implements_decrypt: "backend_Supports b u KeyOpDecrypt a \<Longrightarrow> backend_Decrypt b \<noteq> None"
begin

text \<open>A key whose backend keeps the contract passes the capability test only for a listed capability.\<close>

lemma capability_listed:
  "key_backend k = Some b \<Longrightarrow> WithCapability c k \<Longrightarrow> c \<in> set (backend_Capabilities b)"
  using supports_listed [of "cap_Use c" "cap_Operation c" "cap_Algorithm c"]
  by (cases c) (simp add: WithCapability_iff)

lemma signer_present:
  assumes "key_backend k = Some b"
    "WithCapability \<lparr>cap_Use = u, cap_Operation = KeyOpSign, cap_Algorithm = a\<rparr> k"
  shows "\<exists>f. backend_Sign b = Some f"
  using assms implements_sign by (auto simp: WithCapability_iff)

lemma verifier_present:
  assumes "key_backend k = Some b"
    "WithCapability \<lparr>cap_Use = u, cap_Operation = KeyOpVerify, cap_Algorithm = a\<rparr> k"
  shows "\<exists>f. backend_Verify b = Some f"
  using assms implements_verify by (auto simp: WithCapability_iff)

lemma encrypter_present:
  assumes "key_backend k = Some b"
    "WithCapability \<lparr>cap_Use = u, cap_Operation = KeyOpEncrypt, cap_Algorithm = a\<rparr> k"
  shows "\<exists>f. backend_Encrypt b = Some f"
  using assms implements_encrypt by (auto simp: WithCapability_iff)

lemma decrypter_present:
  assumes "key_backend k = Some b"
    "WithCapability \<lparr>cap_Use = u, cap_Operation = KeyOpDecrypt, cap_Algorithm = a\<rparr> k"
  shows "\<exists>f. backend_Decrypt b = Some f"
  using assms implements_decrypt by (auto simp: WithCapability_iff)

end

text \<open>
  Two backends of which the second accepts what the first signs, for example those of the private and of
  the public part of one key.
\<close>

locale signature_pair = backend_contract verifier for verifier :: Backend +
  fixes signer :: Backend
  assumes accepted: "backend_Sign signer = Some sign \<Longrightarrow> backend_Verify verifier = Some verify \<Longrightarrow>
      sign ctx rand a message = Ok signature \<Longrightarrow> ctx' 0 = None \<Longrightarrow>
      verify ctx' a signature message = Ok ()"

locale signing_backend = backend_contract +
  assumes own_signature: "backend_Sign b = Some sign \<Longrightarrow> backend_Verify b = Some verify \<Longrightarrow>
      sign ctx rand a message = Ok signature \<Longrightarrow> ctx' 0 = None \<Longrightarrow>
      verify ctx' a signature message = Ok ()"
begin

lemma signature_accepted:
  assumes "backend_Supports b u KeyOpSign a" "backend_Supports b u' KeyOpVerify a"
  obtains sign verify where "backend_Sign b = Some sign" "backend_Verify b = Some verify"
    "\<And>ctx rand message signature ctx'. sign ctx rand a message = Ok signature \<Longrightarrow> ctx' 0 = None
       \<Longrightarrow> verify ctx' a signature message = Ok ()"
proof -
  obtain sign verify where "backend_Sign b = Some sign" "backend_Verify b = Some verify"
    using assms implements_sign implements_verify by blast
  then show thesis using that own_signature by blast
qed

end

sublocale signing_backend \<subseteq> own: signature_pair b b
  by unfold_locales (rule own_signature)

end
