(* ===== verification/Sym_Backend.thy ===== *)
theory Sym_Backend
  imports Backend_Contract
begin

text \<open>
  The package \<^verbatim>\<open>backend/symetric\<close>: HMAC signatures, AES-GCM encryption, and, in builds made with the
  tag \<^verbatim>\<open>with_unsafe_crypto\<close>, two-key triple DES in the ECB and CBC modes with PKCS#7 padding.
\<close>

section \<open>Capabilities\<close>

definition HS256 :: KeyAlg where "HS256 = ''HS256''"
definition HS384 :: KeyAlg where "HS384 = ''HS384''"
definition HS512 :: KeyAlg where "HS512 = ''HS512''"
definition A128GCM :: KeyAlg where "A128GCM = ''A128GCM''"
definition A192GCM :: KeyAlg where "A192GCM = ''A192GCM''"
definition A256GCM :: KeyAlg where "A256GCM = ''A256GCM''"
definition DES2ECB :: KeyAlg where "DES2ECB = ''DES2-ECB''"
definition DES2CBC :: KeyAlg where "DES2CBC = ''DES2-CBC''"

lemmas sym_algs = HS256_def HS384_def HS512_def A128GCM_def A192GCM_def A256GCM_def
  DES2ECB_def DES2CBC_def

definition sym_disabledCapabilities :: "Capability list" where
  [simp]: "sym_disabledCapabilities = []"

definition sym_unsafeCryptoCapabilities :: "bool \<Rightarrow> Capability list" where
  "sym_unsafeCryptoCapabilities unsafe_build =
     (if unsafe_build then
        [Cap KeyUseEncryption KeyOpEncrypt DES2ECB,
         Cap KeyUseEncryption KeyOpEncrypt DES2CBC,
         Cap KeyUseEncryption KeyOpDecrypt DES2ECB,
         Cap KeyUseEncryption KeyOpDecrypt DES2CBC]
      else sym_disabledCapabilities)"

text \<open>The table after the package's \<^verbatim>\<open>init\<close> has appended the unsafe capabilities.\<close>

definition sym_capabilities :: "bool \<Rightarrow> Capability list" where
  "sym_capabilities unsafe_build =
     [Cap KeyUseSigning KeyOpSign HS256,
      Cap KeyUseSigning KeyOpSign HS384,
      Cap KeyUseSigning KeyOpSign HS512,
      Cap KeyUseSigning KeyOpVerify HS256,
      Cap KeyUseSigning KeyOpVerify HS384,
      Cap KeyUseSigning KeyOpVerify HS512,
      Cap KeyUseEncryption KeyOpEncrypt A128GCM,
      Cap KeyUseEncryption KeyOpEncrypt A192GCM,
      Cap KeyUseEncryption KeyOpEncrypt A256GCM,
      Cap KeyUseEncryption KeyOpDecrypt A128GCM,
      Cap KeyUseEncryption KeyOpDecrypt A192GCM,
      Cap KeyUseEncryption KeyOpDecrypt A256GCM]
     @ sym_unsafeCryptoCapabilities unsafe_build"

section \<open>PKCS#7 padding and the DES modes\<close>

definition pkcs7Pad :: "bytes \<Rightarrow> nat \<Rightarrow> bytes" where
  "pkcs7Pad plaintext blockSize =
     (let padding = blockSize - length plaintext mod blockSize
      in ([] @ plaintext) @ replicate padding (word_of_nat padding))"

text \<open>
  The slice \<^verbatim>\<open>plaintext[len-padding:]\<close> panics when the padding is longer than the text; the order of
  the tests is the source's.
\<close>

definition pkcs7Unpad :: "bytes \<Rightarrow> nat \<Rightarrow> bytes res" where
  "pkcs7Unpad plaintext blockSize =
     (if length plaintext = 0 \<or> length plaintext mod blockSize \<noteq> 0
      then Err (Errorf ''symetric backend: invalid PKCS#7 padding'' [])
      else
        (let padding = unat (last plaintext) in
         if padding = 0 \<or> padding > blockSize
         then Err (Errorf ''symetric backend: invalid PKCS#7 padding'' [])
         else if padding > length plaintext then Panic ''slice bounds out of range''
         else if drop (length plaintext - padding) plaintext
                   \<noteq> replicate padding (word_of_nat padding)
         then Err (Errorf ''symetric backend: invalid PKCS#7 padding'' [])
         else Ok (take (length plaintext - padding) plaintext)))"

text \<open>
  \<^verbatim>\<open>ecbCrypt\<close>: each round writes one block of \<open>dst\<close>; slicing panics when a block is missing, and a
  real block cipher panics on a block shorter than its own, in particular on an empty one. The result
  is the new content of \<open>dst\<close>.
\<close>

function ecbCrypt :: "(bytes \<Rightarrow> bytes) \<Rightarrow> bytes \<Rightarrow> bytes \<Rightarrow> nat \<Rightarrow> bytes res" where
  "ecbCrypt cryptBlock dst src blockSize =
     (if length src > 0 then
        if length dst < blockSize \<or> length src < blockSize
        then Panic ''slice bounds out of range''
        else if blockSize = 0 then Panic ''crypto/des: input not full block''
        else bind_res (ecbCrypt cryptBlock (drop blockSize dst) (drop blockSize src) blockSize)
               (\<lambda>rest. Ok (cryptBlock (take blockSize src) @ rest))
      else Ok dst)"
  by pat_completeness auto
termination
  by (relation "measure (\<lambda>(cryptBlock, dst, src, blockSize). length src)") auto

declare ecbCrypt.simps [simp del]

definition des_BlockSize :: nat where "des_BlockSize = 8"

text \<open>
  \<^verbatim>\<open>des2Cipher\<close>: the 24-byte key \<open>K1 K2 K1\<close> that the triple DES cipher is made from.
\<close>

definition des2Cipher :: "bytes \<Rightarrow> KeyAlg \<Rightarrow> bytes res" where
  "des2Cipher keyBytes algorithm =
     (if length keyBytes \<noteq> 16
      then Err (Errorf ''symetric backend: invalid key size for %s: got %d bytes, require 16''
                  [StrArg algorithm, IntArg (int (length keyBytes))])
      else if take 8 keyBytes = drop 8 keyBytes
      then Err (Errorf ''symetric backend: invalid DES2 key: K1 and K2 must differ'' [])
      else Ok (keyBytes @ take 8 keyBytes))"

definition disabled_Encrypt :: "bytes \<Rightarrow> KeyAlg \<Rightarrow> bytes \<Rightarrow> bytes res" where
  [simp]: "disabled_Encrypt keyBytes algorithm plaintext =
     Err (Errorf ''symetric backend: encryption algorithm %q requires the with_unsafe_crypto build tag''
            [StrArg algorithm])"

definition disabled_Decrypt :: "bytes \<Rightarrow> KeyAlg \<Rightarrow> bytes \<Rightarrow> bytes res" where
  [simp]: "disabled_Decrypt keyBytes algorithm ciphertext =
     Err (Errorf ''symetric backend: encryption algorithm %q requires the with_unsafe_crypto build tag''
            [StrArg algorithm])"

definition unsafeEncrypt :: "primitives \<Rightarrow> entropy \<Rightarrow> bytes \<Rightarrow> KeyAlg \<Rightarrow> bytes \<Rightarrow> bytes res" where
  "unsafeEncrypt prim rand keyBytes algorithm plaintext =
     (if \<not> prim_unsafe_build prim
      then disabled_Encrypt keyBytes algorithm plaintext
      else
        bind_res (des2Cipher keyBytes algorithm) (\<lambda>key24.
        let padded = pkcs7Pad plaintext des_BlockSize in
        if algorithm = DES2ECB then
          ecbCrypt (prim_des3_Encrypt prim key24) (replicate (length padded) 0) padded des_BlockSize
        else if algorithm = DES2CBC then
          (case rand des_BlockSize of
             Inl err \<Rightarrow> Err (Wrapf ''symetric backend: generate IV: %w'' [] err)
           | Inr iv \<Rightarrow>
               bind_res (CBC_Encrypt (prim_des3_Encrypt prim key24) des_BlockSize iv padded)
                 (\<lambda>encrypted. Ok (iv @ encrypted)))
        else Err (Errorf ''symetric backend: unsupported unsafe encryption algorithm %q''
                    [StrArg algorithm])))"

definition unsafeDecrypt :: "primitives \<Rightarrow> bytes \<Rightarrow> KeyAlg \<Rightarrow> bytes \<Rightarrow> bytes res" where
  "unsafeDecrypt prim keyBytes algorithm ciphertext =
     (if \<not> prim_unsafe_build prim
      then disabled_Decrypt keyBytes algorithm ciphertext
      else
        bind_res (des2Cipher keyBytes algorithm) (\<lambda>key24.
        bind_res
          (if algorithm = DES2ECB then
             if length ciphertext = 0 \<or> length ciphertext mod des_BlockSize \<noteq> 0
             then Err (Errorf ''symetric backend: invalid DES2-ECB ciphertext length'' [])
             else ecbCrypt (prim_des3_Decrypt prim key24) (replicate (length ciphertext) 0)
                    ciphertext des_BlockSize
           else if algorithm = DES2CBC then
             if length ciphertext < 2 * des_BlockSize \<or> length ciphertext mod des_BlockSize \<noteq> 0
             then Err (Errorf ''symetric backend: invalid DES2-CBC ciphertext length'' [])
             else CBC_Decrypt (prim_des3_Decrypt prim key24) des_BlockSize
                    (take des_BlockSize ciphertext) (drop des_BlockSize ciphertext)
           else Err (Errorf ''symetric backend: unsupported unsafe encryption algorithm %q''
                       [StrArg algorithm]))
          (\<lambda>plaintext. pkcs7Unpad plaintext des_BlockSize)))"

section \<open>The backend\<close>

definition sym_signatureOptions :: "primitives \<Rightarrow> bytes \<Rightarrow> KeyAlg \<Rightarrow> hash res" where
  "sym_signatureOptions prim Key algorithm =
     bind_res
       (if algorithm = HS256 then Ok SHA256
        else if algorithm = HS384 then Ok SHA384
        else if algorithm = HS512 then Ok SHA512
        else Err (Errorf ''symetric backend: unsupported signature algorithm %q'' [StrArg algorithm]))
       (\<lambda>hash.
        if \<not> prim_hash_Available prim hash
        then Err (Errorf ''symetric backend: hash %v is unavailable'' [StrArg (hash_String hash)])
        else if length Key < hash_Size hash
        then Err (Errorf ''symetric backend: key is too short: got %d bytes, require at least %d''
                    [IntArg (int (length Key)), IntArg (int (hash_Size hash))])
        else Ok hash)"

text \<open>
  \<^verbatim>\<open>aes.NewCipher\<close> rejects a key that is not of 16, 24 or 32 bytes; \<^verbatim>\<open>cipher.NewGCM\<close> accepts every AES
  cipher. The AEAD is represented by its key.
\<close>

definition sym_encryptionOptions :: "bytes \<Rightarrow> KeyAlg \<Rightarrow> bytes res" where
  "sym_encryptionOptions Key algorithm =
     bind_res
       (if algorithm = A128GCM then Ok 16
        else if algorithm = A192GCM then Ok 24
        else if algorithm = A256GCM then Ok 32
        else Err (Errorf ''symetric backend: unsupported encryption algorithm %q'' [StrArg algorithm]))
       (\<lambda>keySize.
        if length Key \<noteq> keySize
        then Err (Errorf ''symetric backend: invalid key size for %s: got %d bytes, require %d''
                    [StrArg algorithm, IntArg (int (length Key)), IntArg (int keySize)])
        else if length Key \<notin> {16, 24, 32}
        then Err (Wrapf ''symetric backend: create AES cipher: %w'' []
                    (Errorf ''crypto/aes: invalid key size %d'' [IntArg (int (length Key))]))
        else Ok Key)"

definition gcm_NonceSize :: nat where "gcm_NonceSize = 12"
definition gcm_Overhead :: nat where "gcm_Overhead = 16"

definition sym_Sign :: "primitives \<Rightarrow> bytes \<Rightarrow> ctxt \<Rightarrow> entropy \<Rightarrow> KeyAlg \<Rightarrow> bytes \<Rightarrow> bytes res" where
  "sym_Sign prim Key ctx rand algorithm message =
     (case ctx 0 of
        Some err \<Rightarrow> Err err
      | None \<Rightarrow>
          bind_res (sym_signatureOptions prim Key algorithm)
            (\<lambda>hash. Ok (hmac prim hash Key message)))"

definition sym_Verify :: "primitives \<Rightarrow> bytes \<Rightarrow> ctxt \<Rightarrow> KeyAlg \<Rightarrow> bytes \<Rightarrow> bytes \<Rightarrow> unit res" where
  "sym_Verify prim Key ctx algorithm signature message =
     (case ctx 0 of
        Some err \<Rightarrow> Err err
      | None \<Rightarrow>
          bind_res (sym_signatureOptions prim Key algorithm)
            (\<lambda>hash. if signature \<noteq> hmac prim hash Key message
                    then Err (Errorf ''symetric backend: invalid signature'' []) else Ok ()))"

definition sym_Encrypt :: "primitives \<Rightarrow> bytes \<Rightarrow> ctxt \<Rightarrow> entropy \<Rightarrow> KeyAlg \<Rightarrow> bytes \<Rightarrow> bytes res" where
  "sym_Encrypt prim Key ctx rand algorithm plaintext =
     (case ctx 0 of
        Some err \<Rightarrow> Err err
      | None \<Rightarrow>
          if algorithm = DES2ECB \<or> algorithm = DES2CBC
          then unsafeEncrypt prim rand Key algorithm plaintext
          else
            bind_res (sym_encryptionOptions Key algorithm) (\<lambda>gcm.
            case rand gcm_NonceSize of
              Inl err \<Rightarrow> Err (Wrapf ''symetric backend: generate nonce: %w'' [] err)
            | Inr nonce \<Rightarrow> Ok (nonce @ prim_aes_gcm_Seal prim gcm nonce plaintext)))"

definition sym_Decrypt :: "primitives \<Rightarrow> bytes \<Rightarrow> ctxt \<Rightarrow> KeyAlg \<Rightarrow> bytes \<Rightarrow> bytes res" where
  "sym_Decrypt prim Key ctx algorithm ciphertext =
     (case ctx 0 of
        Some err \<Rightarrow> Err err
      | None \<Rightarrow>
          if algorithm = DES2ECB \<or> algorithm = DES2CBC
          then unsafeDecrypt prim Key algorithm ciphertext
          else
            bind_res (sym_encryptionOptions Key algorithm) (\<lambda>gcm.
            if length ciphertext < gcm_NonceSize + gcm_Overhead
            then Err (Errorf ''symetric backend: ciphertext is too short'' [])
            else
              (case prim_aes_gcm_Open prim gcm (take gcm_NonceSize ciphertext)
                      (drop gcm_NonceSize ciphertext) of
                 Inl err \<Rightarrow> Err (Wrapf ''symetric backend: decrypt ciphertext: %w'' [] err)
               | Inr plaintext \<Rightarrow> Ok plaintext)))"

definition sym_Capabilities :: "primitives \<Rightarrow> Capability list" where
  [simp]: "sym_Capabilities prim = [] @ sym_capabilities (prim_unsafe_build prim)"

definition symmetricBackend :: "primitives \<Rightarrow> bytes \<Rightarrow> Backend" where
  "symmetricBackend prim Key = \<lparr>
     backend_Supports = table_Supports (sym_capabilities (prim_unsafe_build prim)),
     backend_Capabilities = sym_Capabilities prim,
     backend_Sign = Some (sym_Sign prim Key),
     backend_Verify = Some (sym_Verify prim Key),
     backend_Encrypt = Some (sym_Encrypt prim Key),
     backend_Decrypt = Some (sym_Decrypt prim Key)\<rparr>"

definition sym_factory_Supports :: "material \<Rightarrow> bool" where
  "sym_factory_Supports m = (case m of SymmetricMaterial value \<Rightarrow> value \<noteq> None | _ \<Rightarrow> False)"

definition sym_factory_New :: "primitives \<Rightarrow> certificate_parser \<Rightarrow> material \<Rightarrow> Backend res" where
  "sym_factory_New prim parse m =
     (case Clone parse m of
        SymmetricMaterial (Some Key) \<Rightarrow> Ok (symmetricBackend prim Key)
      | _ \<Rightarrow> Err (ErrorNew ''symetric backend: material is not supported''))"

section \<open>Padding\<close>

lemma pkcs7_length:
  assumes "0 < bs"
  shows "length (pkcs7Pad m bs) = length m + (bs - length m mod bs)"
    and "length (pkcs7Pad m bs) mod bs = 0"
    and "bs \<le> length (pkcs7Pad m bs)"
proof -
  show len: "length (pkcs7Pad m bs) = length m + (bs - length m mod bs)"
    by (simp add: pkcs7Pad_def Let_def)
  have "length m mod bs < bs" using assms by simp
  then have "length m + (bs - length m mod bs) = (length m div bs) * bs + bs"
    using div_mult_mod_eq [of "length m" bs] by linarith
  then show "length (pkcs7Pad m bs) mod bs = 0" "bs \<le> length (pkcs7Pad m bs)"
    using len by simp_all
qed

lemma padding_size:
  assumes "0 < bs" "length p mod bs = 0" "0 < n" "n \<le> bs" "n \<le> length p"
  shows "bs - (length p - n) mod bs = (n :: nat)"
proof -
  obtain q where q: "length p = q * bs" using assms(2) by (metis mod_0_imp_dvd dvd_mult_div_cancel mult.commute)
  then have "0 < q" using assms(3,5) by (cases q) auto
  then obtain r where r: "q = Suc r" by (cases q) auto
  have "length p - n = r * bs + (bs - n)" using q r assms(4) by simp
  then have "(length p - n) mod bs = (bs - n) mod bs" by simp
  also have "\<dots> = bs - n" using assms(1,3) by simp
  finally show ?thesis using assms(4) by simp
qed

lemma unat_padding: "n \<le> 255 \<Longrightarrow> unat (word_of_nat n :: byte) = n"
  by (simp add: unat_of_nat)

text \<open>Unpadding accepts exactly the padded texts, and returns the text that was padded.\<close>

lemma pkcs7Unpad_iff:
  assumes bs: "0 < bs" "bs \<le> 255"
  shows "pkcs7Unpad p bs = Ok m \<longleftrightarrow> p = pkcs7Pad m bs"
proof
  assume ok: "pkcs7Unpad p bs = Ok m"
  let ?n = "unat (last p)"
  from ok have p: "length p mod bs = 0" "0 < ?n" "?n \<le> bs" "?n \<le> length p"
    and tail: "drop (length p - ?n) p = replicate ?n (word_of_nat ?n)"
    and m: "m = take (length p - ?n) p"
    by (auto simp: pkcs7Unpad_def Let_def split: if_splits)
  have "length m = length p - ?n" using m by simp
  then have "bs - length m mod bs = ?n" using padding_size [OF bs(1) p] by simp
  then have "pkcs7Pad m bs = m @ replicate ?n (word_of_nat ?n)" by (simp add: pkcs7Pad_def Let_def)
  also have "\<dots> = p" using m tail append_take_drop_id [of "length p - ?n" p] by simp
  finally show "p = pkcs7Pad m bs" by simp
next
  assume p: "p = pkcs7Pad m bs"
  let ?n = "bs - length m mod bs"
  have n: "0 < ?n" "?n \<le> bs" using bs(1) by simp_all
  have shape: "p = m @ replicate ?n (word_of_nat ?n)" using p by (simp add: pkcs7Pad_def Let_def)
  then have "last p = (word_of_nat ?n :: byte)" using n(1) by simp
  then have last: "unat (last p) = ?n" using unat_padding n(2) bs(2) by simp
  have "length p \<noteq> 0" "length p mod bs = 0" "?n \<le> length p"
    using pkcs7_length [OF bs(1), of m] p n by auto
  then show "pkcs7Unpad p bs = Ok m"
    using n shape last by (simp add: pkcs7Unpad_def Let_def)
qed

section \<open>The block modes\<close>

lemma ecbCrypt_roundtrip:
  assumes "block_cipher bs enc dec" "0 < bs"
  shows "length src = n * bs \<Longrightarrow> length dst = n * bs \<Longrightarrow> length dst' = n * bs \<Longrightarrow>
     \<exists>c. ecbCrypt enc dst src bs = Ok c \<and> length c = n * bs \<and> ecbCrypt dec dst' c bs = Ok src"
proof (induction n arbitrary: src dst dst')
  case 0
  then show ?case by (simp add: ecbCrypt.simps)
next
  case (Suc n)
  have "length (drop bs src) = n * bs" "length (drop bs dst) = n * bs" "length (drop bs dst') = n * bs"
    using Suc.prems by simp_all
  then obtain c where c: "ecbCrypt enc (drop bs dst) (drop bs src) bs = Ok c" "length c = n * bs"
      "ecbCrypt dec (drop bs dst') c bs = Ok (drop bs src)"
    using Suc.IH by blast
  have len: "length (take bs src) = bs" using Suc.prems by simp
  let ?e = "enc (take bs src)"
  have e: "length ?e = bs" "dec ?e = take bs src" using block_cipherD [OF assms(1) len] by simp_all
  have "ecbCrypt enc dst src bs = Ok (?e @ c)"
    using Suc.prems assms(2) c(1) by (subst ecbCrypt.simps) simp
  moreover have "ecbCrypt dec dst' (?e @ c) bs = Ok src"
    using Suc.prems assms(2) c(3) e by (subst ecbCrypt.simps) (simp add: append_take_drop_id)
  ultimately show ?case using e(1) c(2) by simp
qed

text \<open>What the backend relies on: AES-GCM opens what it sealed, and triple DES permutes blocks.\<close>

definition sym_primitives_sound :: "primitives \<Rightarrow> bool" where
  "sym_primitives_sound prim \<longleftrightarrow>
     (\<forall>k. gcm_opens prim k)
     \<and> (\<forall>k. length k = 24 \<longrightarrow> block_cipher 8 (prim_des3_Encrypt prim k) (prim_des3_Decrypt prim k))"

lemma unsafe_roundtrip:
  assumes sound: "sym_primitives_sound prim" and fills: "entropy_fills rand"
    and enc: "unsafeEncrypt prim rand Key algorithm plain = Ok cipher"
  shows "unsafeDecrypt prim Key algorithm cipher = Ok plain"
proof -
  from enc obtain key24 where on: "prim_unsafe_build prim" and key: "des2Cipher Key algorithm = Ok key24"
    by (auto simp: unsafeEncrypt_def split: if_splits)
  then have "length key24 = 24" by (auto simp: des2Cipher_def split: if_splits)
  then have bc: "block_cipher 8 (prim_des3_Encrypt prim key24) (prim_des3_Decrypt prim key24)"
    using sound by (simp add: sym_primitives_sound_def)
  let ?p = "pkcs7Pad plain 8"
  have "length ?p mod 8 = 0" "8 \<le> length ?p" using pkcs7_length [of 8 plain] by simp_all
  then obtain n where n: "length ?p = n * 8" "0 < n" by (metis div_mult_mod_eq add.right_neutral gr0I mult_0 not_less zero_less_numeral)
  have unpad: "pkcs7Unpad ?p 8 = Ok plain" using pkcs7Unpad_iff [of 8] by simp
  show ?thesis
  proof (cases "algorithm = DES2ECB")
    case True
    obtain c where "ecbCrypt (prim_des3_Encrypt prim key24) (replicate (length ?p) 0) ?p 8 = Ok c"
      "length c = n * 8" "ecbCrypt (prim_des3_Decrypt prim key24) (replicate (n * 8) 0) c 8 = Ok ?p"
      using ecbCrypt_roundtrip [OF bc _ n(1), of "replicate (length ?p) 0" "replicate (n * 8) 0"] n(1)
      by auto
    then show ?thesis
      using enc on key True unpad n by (auto simp: unsafeEncrypt_def unsafeDecrypt_def des_BlockSize_def)
  next
    case False
    with enc on key obtain iv e where cbc: "algorithm = DES2CBC" "rand 8 = Inr iv"
      "CBC_Encrypt (prim_des3_Encrypt prim key24) 8 iv ?p = Ok e" "cipher = iv @ e"
      by (auto simp: unsafeEncrypt_def des_BlockSize_def Let_def split: if_splits sum.splits)
    have iv: "length iv = 8" using fills cbc(2) by (auto simp: entropy_fills_def)
    have e: "e = cbc_encrypt (prim_des3_Encrypt prim key24) 8 iv n ?p"
      using cbc(3) n by (auto simp: CBC_Encrypt_def split: if_splits)
    then have "length e = n * 8" "CBC_Decrypt (prim_des3_Decrypt prim key24) 8 iv e = Ok ?p"
      using cbc_roundtrip [OF bc iv n(1)] by (simp_all add: CBC_Decrypt_def)
    then show ?thesis
      using on key False cbc(1,4) iv unpad n(2)
      by (auto simp: unsafeDecrypt_def des_BlockSize_def)
  qed
qed

section \<open>The contract of the backend\<close>

lemma sym_supports_iff:
  "table_Supports (sym_capabilities t) u p a \<longleftrightarrow>
     (u = KeyUseSigning \<and> p \<in> {KeyOpSign, KeyOpVerify} \<and> a \<in> {HS256, HS384, HS512})
     \<or> (u = KeyUseEncryption \<and> p \<in> {KeyOpEncrypt, KeyOpDecrypt}
        \<and> (a \<in> {A128GCM, A192GCM, A256GCM} \<or> (t \<and> a \<in> {DES2ECB, DES2CBC})))"
  (is "?L \<longleftrightarrow> ?R")
proof
  assume ?L
  then show ?R
    by (simp add: table_Supports_iff sym_capabilities_def sym_unsafeCryptoCapabilities_def
        Cap_def split: if_splits; elim disjE conjE; simp)
next
  assume ?R
  then show ?L
    by (simp add: table_Supports_iff sym_capabilities_def sym_unsafeCryptoCapabilities_def
        Cap_def; elim disjE conjE; simp)
qed

interpretation sym: signing_backend "symmetricBackend prim Key" for prim Key
proof
  fix ctx ctx' :: ctxt and rand a message signature sign verify
  assume "backend_Sign (symmetricBackend prim Key) = Some sign"
    "backend_Verify (symmetricBackend prim Key) = Some verify"
    "sign ctx rand a message = Ok signature" "ctx' 0 = None"
  then show "verify ctx' a signature message = Ok ()"
    by (auto simp: symmetricBackend_def sym_Sign_def sym_Verify_def split: option.splits)
qed (auto simp: symmetricBackend_def table_Supports_iff)

text \<open>The symmetric backend accepts a signature exactly when it is the one that signing the same
  message with the same key and algorithm produces; every other byte string, and every algorithm or
  key that signing rejects, is rejected.\<close>

theorem sym_verify_exact:
  "sym_Verify prim Key background algorithm signature message = Ok ()
     \<longleftrightarrow> sym_Sign prim Key background rand algorithm message = Ok signature"
  by (auto simp: sym_Verify_def sym_Sign_def)

lemma sym_roundtrip_any:
  assumes "sym_primitives_sound prim" "entropy_fills rand" "ctx' 0 = None"
    and enc: "sym_Encrypt prim Key ctx rand algorithm plain = Ok cipher"
  shows "sym_Decrypt prim Key ctx' algorithm cipher = Ok plain"
proof (cases "algorithm = DES2ECB \<or> algorithm = DES2CBC")
  case True
  with enc have "unsafeEncrypt prim rand Key algorithm plain = Ok cipher"
    by (simp add: sym_Encrypt_def split: option.splits)
  then have "unsafeDecrypt prim Key algorithm cipher = Ok plain"
    by (rule unsafe_roundtrip [OF assms(1,2)])
  with True assms(3) show ?thesis by (simp add: sym_Decrypt_def)
next
  case False
  with enc obtain gcm where gcm: "sym_encryptionOptions Key algorithm = Ok gcm"
    and "(case rand gcm_NonceSize of
            Inl err \<Rightarrow> Err (Wrapf ''symetric backend: generate nonce: %w'' [] err)
          | Inr nonce \<Rightarrow> Ok (nonce @ prim_aes_gcm_Seal prim gcm nonce plain)) = Ok cipher"
    by (auto simp: sym_Encrypt_def split: option.splits)
  then obtain nonce where nonce: "rand gcm_NonceSize = Inr nonce"
    and c: "cipher = nonce @ prim_aes_gcm_Seal prim gcm nonce plain"
    by (auto split: sum.splits)
  have "length nonce = gcm_NonceSize" using assms(2) nonce by (auto simp: entropy_fills_def)
  moreover have "gcm_opens prim gcm" using assms(1) by (simp add: sym_primitives_sound_def)
  ultimately show ?thesis
    using False assms(3) gcm c
    by (simp add: sym_Decrypt_def gcm_opens_def gcm_Overhead_def)
qed

text \<open>C14: Whatever the symmetric backend encrypts, it decrypts to the plaintext, in every mode:
  AES-GCM with its nonce prefix, and, in builds with the unsafe tag, two-key triple DES in ECB and CBC
  mode with PKCS#7 padding. The block modes and the padding are the code's own; AES-GCM is assumed to
  open what it sealed and triple DES to be a permutation of blocks.\<close>

theorem sym_encrypt_decrypt:
  assumes "sym_primitives_sound prim" "entropy_fills rand"
    and "sym_Encrypt prim Key background rand algorithm plain = Ok cipher"
  shows "sym_Decrypt prim Key background algorithm cipher = Ok plain"
  by (rule sym_roundtrip_any [OF assms(1,2) _ assms(3)]) simp

lemma sample_sym_sound [simp]: "sym_primitives_sound (sample_primitives t)"
  by (simp add: sym_primitives_sound_def)

theorem sym_encrypt_decrypt_witness:
  "sym_Encrypt (sample_primitives True) [0,1,2,3,4,5,6,7,8,9,10,11,12,13,14,15] background
      sample_entropy DES2CBC [1,2,3]
     = Ok [7,7,7,7,7,7,7,7, 6,5,4,2,2,2,2,2]
   \<and> sym_Decrypt (sample_primitives True) [0,1,2,3,4,5,6,7,8,9,10,11,12,13,14,15] background
      DES2CBC [7,7,7,7,7,7,7,7, 6,5,4,2,2,2,2,2] = Ok [1,2,3]"
proof -
  let ?k = "[0,1,2,3,4,5,6,7,8,9,10,11,12,13,14,15]"
  have e: "sym_Encrypt (sample_primitives True) ?k background sample_entropy DES2CBC [1,2,3]
      = Ok [7,7,7,7,7,7,7,7, 6,5,4,2,2,2,2,2]"
    by code_simp
  from sym_encrypt_decrypt [OF sample_sym_sound sample_sound(5) e] e show ?thesis by simp
qed

text \<open>C15: PKCS#7 unpadding accepts a byte string exactly when it is the padding of some text, and
  returns that text: no malformed padding is accepted and no padded text is rejected.\<close>

theorem pkcs7_unpad_exact:
  assumes "0 < blockSize" "blockSize \<le> 255"
  shows "pkcs7Unpad padded blockSize = Ok plain \<longleftrightarrow> padded = pkcs7Pad plain blockSize"
  using assms by (rule pkcs7Unpad_iff)

theorem pkcs7_unpad_exact_witness:
  "pkcs7Unpad [9, 7, 7, 7, 7, 7, 7, 7] 8 = Ok [9]
   \<and> pkcs7Unpad [9, 6, 7, 7, 7, 7, 7, 7] 8 \<noteq> Ok [9]"
proof -
  have "pkcs7Pad [9] 8 = [9, 7, 7, 7, 7, 7, 7, 7]" by code_simp
  then show ?thesis
    using pkcs7_unpad_exact [of 8 "[9, 7, 7, 7, 7, 7, 7, 7]" "[9]"]
      pkcs7_unpad_exact [of 8 "[9, 6, 7, 7, 7, 7, 7, 7]" "[9]"] by simp
qed

lemma sym_algs_distinct:
  "HS256 \<noteq> HS384" "HS256 \<noteq> HS512" "HS384 \<noteq> HS512" "A128GCM \<noteq> A192GCM" "A128GCM \<noteq> A256GCM" "A192GCM \<noteq> A256GCM"
  by (simp_all add: sym_algs)

lemmas [simp] = sym_algs_distinct sym_algs_distinct [THEN not_sym]

lemma sym_sign_possible:
  assumes "\<forall>h. prim_hash_Available prim h"
  shows "(\<exists>Key message signature. sym_Sign prim Key background rand a message = Ok signature)
     \<longleftrightarrow> a \<in> {HS256, HS384, HS512}"
proof
  assume "\<exists>Key message signature. sym_Sign prim Key background rand a message = Ok signature"
  then show "a \<in> {HS256, HS384, HS512}"
    by (auto simp: sym_Sign_def sym_signatureOptions_def split: if_splits)
next
  assume a: "a \<in> {HS256, HS384, HS512}"
  obtain h where "sym_signatureOptions prim (replicate 64 0) a = Ok h"
    using assms a by (auto simp: sym_signatureOptions_def)
  then have "sym_Sign prim (replicate 64 0) background rand a [] = Ok (hmac prim h (replicate 64 0) [])"
    by (simp add: sym_Sign_def)
  then show "\<exists>Key message signature. sym_Sign prim Key background rand a message = Ok signature"
    by blast
qed

lemma unsafeEncrypt_possible:
  assumes "prim_unsafe_build prim" "a \<in> {DES2ECB, DES2CBC}" "\<And>n. \<exists>bs. rand n = Inr bs"
   and bc: "sym_primitives_sound prim"
  shows "\<exists>c. unsafeEncrypt prim rand (replicate 8 0 @ replicate 8 1) a [] = Ok c"
proof -
  let ?k = "replicate 8 0 @ replicate 8 1 :: bytes" and ?p = "pkcs7Pad [] 8"
  have key: "des2Cipher ?k a = Ok (?k @ replicate 8 0)" by (simp add: des2Cipher_def numeral_eq_Suc)
  have p: "length ?p = 1 * 8" using pkcs7_length(1) [of 8 "[]"] by simp
  have bc': "block_cipher 8 (prim_des3_Encrypt prim (?k @ replicate 8 0)) (prim_des3_Decrypt prim (?k @ replicate 8 0))"
    using bc by (simp add: sym_primitives_sound_def)
  obtain iv where iv: "rand 8 = Inr iv" using assms(3) by blast
  obtain e where ecb: "ecbCrypt (prim_des3_Encrypt prim (?k @ replicate 8 0)) (replicate (length ?p) 0) ?p 8 = Ok e"
    using ecbCrypt_roundtrip [OF bc' _ p, of "replicate (length ?p) 0" "replicate 8 0"] p by auto
  show ?thesis
  proof (cases "a = DES2ECB")
    case True
    then show ?thesis using assms(1) key ecb by (simp add: unsafeEncrypt_def des_BlockSize_def Let_def)
  next
    case False
    then show ?thesis
      using assms(1,2) key iv p by (simp add: unsafeEncrypt_def des_BlockSize_def CBC_Encrypt_def Let_def)
  qed
qed

lemma sym_encrypt_possible:
  assumes "sym_primitives_sound prim" "\<And>n. \<exists>bs. rand n = Inr bs"
  shows "(\<exists>Key plain cipher. sym_Encrypt prim Key background rand a plain = Ok cipher)
     \<longleftrightarrow> a \<in> {A128GCM, A192GCM, A256GCM} \<or> (prim_unsafe_build prim \<and> a \<in> {DES2ECB, DES2CBC})"
    (is "?L \<longleftrightarrow> ?R")
proof
  assume ?L
  then show ?R
    by (auto simp: sym_Encrypt_def unsafeEncrypt_def sym_encryptionOptions_def split: if_splits sum.splits)
next
  obtain nonce where nonce: "rand gcm_NonceSize = Inr nonce" using assms(2) by blast
  assume ?R
  then consider "a \<in> {A128GCM, A192GCM, A256GCM}" | "prim_unsafe_build prim" "a \<in> {DES2ECB, DES2CBC}" by blast
  then show ?L
  proof cases
    case 1
    then have "a \<noteq> DES2ECB" "a \<noteq> DES2CBC" by (auto simp: sym_algs)
    moreover define n :: nat where "n = (if a = A128GCM then 16 else if a = A192GCM then 24 else 32)"
    moreover have "sym_encryptionOptions (replicate n 0) a = Ok (replicate n 0)"
      using 1 by (auto simp: sym_encryptionOptions_def n_def)
    ultimately have "sym_Encrypt prim (replicate n 0) background rand a []
        = Ok (nonce @ prim_aes_gcm_Seal prim (replicate n 0) nonce [])"
      using nonce by (simp add: sym_Encrypt_def)
    then show ?thesis by blast
  next
    case 2
    then obtain c where "unsafeEncrypt prim rand (replicate 8 0 @ replicate 8 1) a [] = Ok c"
      using unsafeEncrypt_possible assms by blast
    then have "sym_Encrypt prim (replicate 8 0 @ replicate 8 1) background rand a [] = Ok c"
      using 2 by (auto simp: sym_Encrypt_def)
    then show ?thesis by blast
  qed
qed

text \<open>What can be verified is what can be signed, and what can be decrypted is what can be encrypted.\<close>

lemma sym_verify_possible:
  assumes "\<forall>h. prim_hash_Available prim h"
  shows "(\<exists>Key message signature. sym_Verify prim Key background a signature message = Ok ())
     \<longleftrightarrow> a \<in> {HS256, HS384, HS512}"
proof -
  have "sym_Verify prim Key background a signature message = Ok ()
      \<longleftrightarrow> sym_Sign prim Key background rand a message = Ok signature" for Key rand message signature
    by (auto simp: sym_Verify_def sym_Sign_def)
  then show ?thesis using sym_sign_possible [OF assms, of sample_entropy a] by metis
qed

lemma sym_decrypt_possible:
  assumes sound: "sym_primitives_sound prim"
  shows "(\<exists>Key cipher plain. sym_Decrypt prim Key background a cipher = Ok plain)
     \<longleftrightarrow> a \<in> {A128GCM, A192GCM, A256GCM} \<or> (prim_unsafe_build prim \<and> a \<in> {DES2ECB, DES2CBC})"
    (is "?L \<longleftrightarrow> ?R")
proof
  assume ?L
  then show ?R
    by (auto simp: sym_Decrypt_def unsafeDecrypt_def sym_encryptionOptions_def split: if_splits sum.splits)
next
  have rand: "\<exists>bs. sample_entropy n = Inr bs" for n by (simp add: sample_entropy_def)
  assume ?R
  then obtain Key plain cipher where "sym_Encrypt prim Key background sample_entropy a plain = Ok cipher"
    using sym_encrypt_possible [where rand = sample_entropy, OF sound rand] by blast
  then have "sym_Decrypt prim Key background a cipher = Ok plain"
    by (rule sym_roundtrip_any [OF sound sample_sound(5), rotated]) simp
  then show ?L by blast
qed

text \<open>C19: The capability table of the symmetric backend is exact, in every entry. It claims signing with an
  algorithm if and only if some key can sign some message with it, verification if and only if some
  signature can be accepted under it, encryption if and only if some key can encrypt with it, and
  decryption if and only if some ciphertext can be decrypted with it; and it claims nothing else, such as
  encrypting with a signing use. In particular the DES algorithms are claimed only, and work only, in
  builds with the unsafe tag.\<close>

theorem sym_supports_exact:
  assumes "sym_primitives_sound prim" "\<forall>h. prim_hash_Available prim h" "\<forall>n. \<exists>bs. rand n = Inr bs"
  shows "backend_Supports (symmetricBackend prim Key) u p a \<longleftrightarrow>
     (u = KeyUseSigning \<and> p = KeyOpSign
        \<and> (\<exists>Key message signature. sym_Sign prim Key background rand a message = Ok signature))
     \<or> (u = KeyUseSigning \<and> p = KeyOpVerify
        \<and> (\<exists>Key message signature. sym_Verify prim Key background a signature message = Ok ()))
     \<or> (u = KeyUseEncryption \<and> p = KeyOpEncrypt
        \<and> (\<exists>Key plain cipher. sym_Encrypt prim Key background rand a plain = Ok cipher))
     \<or> (u = KeyUseEncryption \<and> p = KeyOpDecrypt
        \<and> (\<exists>Key cipher plain. sym_Decrypt prim Key background a cipher = Ok plain))"
proof -
  have "\<exists>bs. rand n = Inr bs" for n using assms(3) by blast
  then show ?thesis
    unfolding sym_sign_possible [OF assms(2)] sym_verify_possible [OF assms(2)]
      sym_encrypt_possible [OF assms(1) \<open>\<And>n. \<exists>bs. rand n = Inr bs\<close>] sym_decrypt_possible [OF assms(1)]
    by (auto simp: symmetricBackend_def sym_supports_iff)
qed

theorem sym_supports_exact_witness:
  "backend_Supports (symmetricBackend (sample_primitives False) []) KeyUseSigning KeyOpVerify HS512
   \<and> backend_Supports (symmetricBackend (sample_primitives False) []) KeyUseEncryption KeyOpDecrypt A128GCM
   \<and> (\<exists>Key cipher plain. sym_Decrypt (sample_primitives False) Key background A128GCM cipher = Ok plain)
   \<and> \<not> (\<exists>Key plain cipher. sym_Encrypt (sample_primitives False) Key background sample_entropy DES2ECB plain
        = Ok cipher)"
proof -
  let ?b = "symmetricBackend (sample_primitives False) []"
  have fills: "\<forall>n. \<exists>bs. sample_entropy n = Inr bs" by (simp add: sample_entropy_def)
  have hashes: "\<forall>h. prim_hash_Available (sample_primitives False) h" by simp
  note exact = sym_supports_exact [OF sample_sym_sound hashes fills, of "[]"]
  have "\<not> backend_Supports ?b KeyUseEncryption KeyOpEncrypt DES2ECB"
    "backend_Supports ?b KeyUseEncryption KeyOpDecrypt A128GCM" "backend_Supports ?b KeyUseSigning KeyOpVerify HS512"
    by (simp_all add: symmetricBackend_def sym_supports_iff sym_algs use_defs op_defs)
  moreover have "KeyOpDecrypt \<noteq> KeyOpEncrypt" "KeyUseEncryption \<noteq> KeyUseSigning" "KeyOpEncrypt \<noteq> KeyOpDecrypt"
    by (simp_all add: use_defs op_defs)
  ultimately show ?thesis using exact by metis
qed

end
