(* ===== verification/Ec_Backend.thy ===== *)
theory Ec_Backend
  imports Backend_Contract
begin

text \<open>
  The package \<^verbatim>\<open>backend/ec\<close> without its JOSE codec: ECDSA signatures in the fixed-width form of JOSE,
  over the private, public and certificate backends and their factory.
\<close>

section \<open>Capabilities and options\<close>

definition ES256 :: KeyAlg where "ES256 = ''ES256''"
definition ES384 :: KeyAlg where "ES384 = ''ES384''"
definition ES512 :: KeyAlg where "ES512 = ''ES512''"

lemmas ec_algs = ES256_def ES384_def ES512_def

datatype ec_MaterialType = EC_PUBLIC_MATERIAL | EC_PRIVATE_MATERIAL

fun ec_capabilities :: "ec_MaterialType \<Rightarrow> Capability list" where
  "ec_capabilities EC_PUBLIC_MATERIAL =
     [\<lparr>cap_Use = KeyUseSigning, cap_Operation = KeyOpVerify, cap_Algorithm = ES256\<rparr>,
      \<lparr>cap_Use = KeyUseSigning, cap_Operation = KeyOpVerify, cap_Algorithm = ES384\<rparr>,
      \<lparr>cap_Use = KeyUseSigning, cap_Operation = KeyOpVerify, cap_Algorithm = ES512\<rparr>]"
| "ec_capabilities EC_PRIVATE_MATERIAL =
     [\<lparr>cap_Use = KeyUseSigning, cap_Operation = KeyOpSign, cap_Algorithm = ES256\<rparr>,
      \<lparr>cap_Use = KeyUseSigning, cap_Operation = KeyOpSign, cap_Algorithm = ES384\<rparr>,
      \<lparr>cap_Use = KeyUseSigning, cap_Operation = KeyOpSign, cap_Algorithm = ES512\<rparr>,
      \<lparr>cap_Use = KeyUseSigning, cap_Operation = KeyOpVerify, cap_Algorithm = ES256\<rparr>,
      \<lparr>cap_Use = KeyUseSigning, cap_Operation = KeyOpVerify, cap_Algorithm = ES384\<rparr>,
      \<lparr>cap_Use = KeyUseSigning, cap_Operation = KeyOpVerify, cap_Algorithm = ES512\<rparr>]"

text \<open>\<^verbatim>\<open>publicKey.Curve.Params()\<close> behind the three nil tests that guard it everywhere.\<close>

definition ec_params :: "ecdsa_PublicKey option \<Rightarrow> curve_params option" where
  "ec_params publicKey =
     (case publicKey of
        None \<Rightarrow> None
      | Some k \<Rightarrow> (case ec_Curve k of None \<Rightarrow> None | Some curve \<Rightarrow> Params curve))"

definition ec_signatureOptions :: "ecdsa_PublicKey option \<Rightarrow> KeyAlg \<Rightarrow> hash res" where
  "ec_signatureOptions publicKey alg =
     bind_res
       (if alg = ES256 then Ok (SHA256, ''P-256'')
        else if alg = ES384 then Ok (SHA384, ''P-384'')
        else if alg = ES512 then Ok (SHA512, ''P-521'')
        else Err (Errorf ''EC backend: unsupported signature algorithm %q'' [StrArg alg]))
       (\<lambda>(hash, curve).
        case ec_params publicKey of
          None \<Rightarrow> Err (Errorf ''EC backend: invalid ECDSA public key'' [])
        | Some params \<Rightarrow>
            if curve_Name params \<noteq> curve
            then Err (Errorf ''EC backend: curve %q cannot be used with signature algorithm %q''
                        [StrArg (curve_Name params), StrArg alg])
            else Ok hash)"

section \<open>Signatures as byte strings\<close>

text \<open>\<^verbatim>\<open>big.Int.BitLen\<close> of a natural number.\<close>

fun BitLen :: "nat \<Rightarrow> nat" where
  "BitLen n = (if n = 0 then 0 else Suc (BitLen (n div 2)))"

declare BitLen.simps [simp del]

definition ec_size :: "curve_params \<Rightarrow> nat" where
  "ec_size params = (BitLen (curve_N params) + 7) div 8"

definition encodeSignature ::
    "ecdsa_PublicKey option \<Rightarrow> int option \<Rightarrow> int option \<Rightarrow> bytes res" where
  "encodeSignature publicKey r s =
     (case (ec_params publicKey, r, s) of
        (Some params, Some r, Some s) \<Rightarrow>
          bind_res (FillBytes r (ec_size params)) (\<lambda>high.
          bind_res (FillBytes s (ec_size params)) (\<lambda>low. Ok (high @ low)))
      | _ \<Rightarrow> Err (Errorf ''EC backend: invalid signature values'' []))"

definition verifySignature ::
    "primitives \<Rightarrow> ecdsa_PublicKey option \<Rightarrow> bytes \<Rightarrow> bytes \<Rightarrow> bool" where
  "verifySignature prim publicKey digest signature =
     (case ec_params publicKey of
        None \<Rightarrow> False
      | Some params \<Rightarrow>
          if length signature \<noteq> 2 * ec_size params then False
          else prim_ecdsa_Verify prim (the publicKey) digest
                 (SetBytes (take (ec_size params) signature))
                 (SetBytes (drop (ec_size params) signature)))"

section \<open>The backends\<close>

text \<open>
  The operations of the private backend on its material's key. A typed nil key passes the type
  assertion; taking the address of its public part panics.
\<close>

text \<open>The package has its own copy of \<^verbatim>\<open>hashMessage\<close>; simplification treats it as the one of \<^verbatim>\<open>backend/rsa\<close>.\<close>

definition ec_hashMessage :: "primitives \<Rightarrow> hash \<Rightarrow> bytes \<Rightarrow> bytes res" where
  "ec_hashMessage prim hash message =
     (if \<not> prim_hash_Available prim hash
      then Err (Errorf ''sig: hash %v is unavailable'' [StrArg (hash_String hash)])
      else Ok (prim_hash_Sum prim hash message))"

lemma ec_hashMessage_eq [simp]: "ec_hashMessage = hashMessage"
  by (simp add: fun_eq_iff ec_hashMessage_def hashMessage_def)

definition ec_private_Supports :: "KeyUse \<Rightarrow> KeyOperation \<Rightarrow> KeyAlg \<Rightarrow> bool" where
  [simp]: "ec_private_Supports = table_Supports (ec_capabilities EC_PRIVATE_MATERIAL)"

definition ec_public_Supports :: "KeyUse \<Rightarrow> KeyOperation \<Rightarrow> KeyAlg \<Rightarrow> bool" where
  [simp]: "ec_public_Supports = table_Supports (ec_capabilities EC_PUBLIC_MATERIAL)"

definition ec_private_Sign ::
    "primitives \<Rightarrow> private_key \<Rightarrow> ctxt \<Rightarrow> entropy \<Rightarrow> KeyAlg \<Rightarrow> bytes \<Rightarrow> bytes res" where
  "ec_private_Sign prim Key ctx rand algorithm message =
     (case ctx 0 of
        Some err \<Rightarrow> Err err
      | None \<Rightarrow>
          (case Key of
             PrivECDSA (Some privateKey) \<Rightarrow>
               bind_res (ec_signatureOptions (Some (ec_PublicPart privateKey)) algorithm) (\<lambda>hash.
               bind_res (ec_hashMessage prim hash message) (\<lambda>digest.
               bind_res (map_err (Wrapf ''EC backend: sign digest: %w'' [])
                           (prim_ecdsa_Sign prim rand privateKey digest)) (\<lambda>(r, s).
               encodeSignature (Some (ec_PublicPart privateKey)) r s)))
           | PrivECDSA None \<Rightarrow> Panic ''nil pointer dereference''
           | _ \<Rightarrow> Err (Errorf ''EC backend: key material is not an ECDSA private key'' [])))"

definition ec_private_Verify ::
    "primitives \<Rightarrow> private_key \<Rightarrow> ctxt \<Rightarrow> KeyAlg \<Rightarrow> bytes \<Rightarrow> bytes \<Rightarrow> unit res" where
  "ec_private_Verify prim Key ctx algorithm signature message =
     (case ctx 0 of
        Some err \<Rightarrow> Err err
      | None \<Rightarrow>
          (case Key of
             PrivECDSA (Some privateKey) \<Rightarrow>
               bind_res (ec_signatureOptions (Some (ec_PublicPart privateKey)) algorithm) (\<lambda>hash.
               bind_res (ec_hashMessage prim hash message) (\<lambda>digest.
               if \<not> verifySignature prim (Some (ec_PublicPart privateKey)) digest signature
               then Err (Errorf ''EC backend: invalid signature'' []) else Ok ()))
           | PrivECDSA None \<Rightarrow> Panic ''nil pointer dereference''
           | _ \<Rightarrow> Err (Errorf ''EC backend: key material is not an ECDSA private key'' [])))"

definition ec_public_Verify ::
    "primitives \<Rightarrow> public_key \<Rightarrow> ctxt \<Rightarrow> KeyAlg \<Rightarrow> bytes \<Rightarrow> bytes \<Rightarrow> unit res" where
  "ec_public_Verify prim Key ctx algorithm signature message =
     (case ctx 0 of
        Some err \<Rightarrow> Err err
      | None \<Rightarrow>
          (case Key of
             PubECDSA publicKey \<Rightarrow>
               bind_res (ec_signatureOptions publicKey algorithm) (\<lambda>hash.
               bind_res (ec_hashMessage prim hash message) (\<lambda>digest.
               if \<not> verifySignature prim publicKey digest signature
               then Err (Errorf ''EC backend: invalid signature'' []) else Ok ()))
           | _ \<Rightarrow> Err (Errorf ''EC backend: key material is not an ECDSA public key'' [])))"

definition ec_privateBackend :: "primitives \<Rightarrow> private_key \<Rightarrow> Backend" where
  "ec_privateBackend prim Key = \<lparr>
     backend_Supports = ec_private_Supports,
     backend_Capabilities = [] @ ec_capabilities EC_PRIVATE_MATERIAL,
     backend_Sign = Some (ec_private_Sign prim Key),
     backend_Verify = Some (ec_private_Verify prim Key),
     backend_Encrypt = None,
     backend_Decrypt = None\<rparr>"

definition ec_publicBackend :: "primitives \<Rightarrow> public_key \<Rightarrow> Backend" where
  "ec_publicBackend prim Key = \<lparr>
     backend_Supports = ec_public_Supports,
     backend_Capabilities = [] @ ec_capabilities EC_PUBLIC_MATERIAL,
     backend_Sign = None,
     backend_Verify = Some (ec_public_Verify prim Key),
     backend_Encrypt = None,
     backend_Decrypt = None\<rparr>"

text \<open>The certificate backend embeds a public backend, whose methods are its own.\<close>

definition ec_certificateBackend :: "primitives \<Rightarrow> public_key \<Rightarrow> certificate \<Rightarrow> Backend" where
  "ec_certificateBackend prim Key Cert = ec_publicBackend prim Key"

fun ec_factory_Supports :: "material \<Rightarrow> bool" where
  "ec_factory_Supports (PrivateMaterial (Some (PrivECDSA k))) = (k \<noteq> None)"
| "ec_factory_Supports (PublicMaterial (Some (PubECDSA k))) = (k \<noteq> None)"
| "ec_factory_Supports (CertificateMaterial (Some (Some Cert))) =
     (case cert_PublicKey Cert of PubECDSA k \<Rightarrow> k \<noteq> None | _ \<Rightarrow> False)"
| "ec_factory_Supports m = False"

definition ec_factory_New :: "primitives \<Rightarrow> certificate_parser \<Rightarrow> material \<Rightarrow> Backend res" where
  "ec_factory_New prim parse m =
     (case Clone parse m of
        PublicMaterial (Some (PubECDSA (Some k))) \<Rightarrow> Ok (ec_publicBackend prim (PubECDSA (Some k)))
      | PrivateMaterial (Some (PrivECDSA (Some k))) \<Rightarrow> Ok (ec_privateBackend prim (PrivECDSA (Some k)))
      | CertificateMaterial (Some (Some Cert)) \<Rightarrow>
          (case cert_PublicKey Cert of
             PubECDSA (Some k) \<Rightarrow> Ok (ec_certificateBackend prim (PubECDSA (Some k)) Cert)
           | _ \<Rightarrow> Err (ErrorNew ''EC backend: material is not supported''))
      | _ \<Rightarrow> Err (ErrorNew ''EC backend: material is not supported''))"

section \<open>Widths\<close>

lemma less_two_power_BitLen: "n < 2 ^ BitLen n"
proof (induction n rule: BitLen.induct)
  case (1 n)
  show ?case
  proof (cases "n = 0")
    case True
    then show ?thesis by simp
  next
    case False
    with 1 have "n div 2 < 2 ^ BitLen (n div 2)" by simp
    then show ?thesis using False by (subst BitLen.simps) simp
  qed
qed

lemma BitLen_eq: "2 ^ k \<le> n \<Longrightarrow> n < 2 ^ Suc k \<Longrightarrow> BitLen n = Suc k"
proof (induction k arbitrary: n)
  case 0
  then have "n = Suc 0" by simp
  then show ?case by (simp add: BitLen.simps [of "Suc 0"] BitLen.simps [of 0])
next
  case (Suc k)
  then have "2 ^ k \<le> n div 2" "n div 2 < 2 ^ Suc k" by auto
  then have "BitLen (n div 2) = Suc k" by (rule Suc.IH)
  moreover have "n \<noteq> 0" using Suc.prems(1) by (cases n) simp_all
  ultimately show ?case by (subst BitLen.simps) simp
qed

text \<open>A signature takes 64, 96 and 132 bytes on the three curves of JOSE.\<close>

lemma ec_sizes:
  "Params P256 = Some params \<Longrightarrow> ec_size params = 32"
  "Params P384 = Some params \<Longrightarrow> ec_size params = 48"
  "Params P521 = Some params \<Longrightarrow> ec_size params = 66"
proof -
  show "ec_size params = 32" if p: "Params P256 = Some params"
  proof -
    have "BitLen (curve_N params) = Suc 255" using p by (intro BitLen_eq) auto
    then show ?thesis by (simp add: ec_size_def)
  qed
  show "ec_size params = 48" if p: "Params P384 = Some params"
  proof -
    have "BitLen (curve_N params) = Suc 383" using p by (intro BitLen_eq) auto
    then show ?thesis by (simp add: ec_size_def)
  qed
  show "ec_size params = 66" if p: "Params P521 = Some params"
  proof -
    have "BitLen (curve_N params) = Suc 520" using p by (intro BitLen_eq) auto
    then show ?thesis by (simp add: ec_size_def)
  qed
qed

lemma order_fits: "curve_N params < 256 ^ ec_size params"
proof -
  have "BitLen (curve_N params) \<le> 8 * ec_size params"
    by (simp add: ec_size_def)
  then have "(2 :: nat) ^ BitLen (curve_N params) \<le> 2 ^ (8 * ec_size params)"
    by (rule power_increasing) simp
  also have "\<dots> = 256 ^ ec_size params" by (simp add: power_mult)
  finally show ?thesis using less_two_power_BitLen [of "curve_N params"] by linarith
qed

lemma encodeSignature_below_order:
  assumes params: "ec_params key = Some params"
    and range: "0 < r" "r < int (curve_N params)" "0 < s" "s < int (curve_N params)"
  shows "\<exists>high low. encodeSignature key (Some r) (Some s) = Ok (high @ low)
     \<and> length high = ec_size params \<and> length low = ec_size params
     \<and> SetBytes high = r \<and> SetBytes low = s"
proof -
  have "int (curve_N params) < int (256 ^ ec_size params)"
    using order_fits [of params] by (simp only: of_nat_less_iff)
  then have "int (curve_N params) < 256 ^ ec_size params" by simp
  then have "r < 256 ^ ec_size params" "s < 256 ^ ec_size params" using range by linarith+
  then obtain high low where
    "FillBytes r (ec_size params) = Ok high" "length high = ec_size params" "SetBytes high = r"
    "FillBytes s (ec_size params) = Ok low" "length low = ec_size params" "SetBytes low = s"
    using FillBytes_SetBytes [of r "ec_size params"] FillBytes_SetBytes [of s "ec_size params"] range
    by (metis less_imp_le)
  then show ?thesis
    using params by (intro exI [of _ high] exI [of _ low]) (simp add: encodeSignature_def)
qed

section \<open>The contract of the backends\<close>

interpretation ec_private: backend_contract "ec_privateBackend prim Key" for prim Key
  by unfold_locales (auto simp: ec_privateBackend_def table_Supports_iff op_defs)

interpretation ec_public: backend_contract "ec_publicBackend prim Key" for prim Key
  by unfold_locales (auto simp: ec_publicBackend_def table_Supports_iff op_defs)

lemma ec_signatureOptions_Ok_iff:
  "ec_signatureOptions publicKey alg = Ok hash \<longleftrightarrow>
     (\<exists>params. ec_params publicKey = Some params
        \<and> (alg, curve_Name params, hash)
            \<in> {(ES256, ''P-256'', SHA256), (ES384, ''P-384'', SHA384), (ES512, ''P-521'', SHA512)})"
  by (auto simp: ec_signatureOptions_def ec_algs split: if_splits option.splits)

lemma hashMessage_Ok_iff:
  "hashMessage prim hash message = Ok digest \<longleftrightarrow>
     prim_hash_Available prim hash \<and> digest = prim_hash_Sum prim hash message"
  by (auto simp: hashMessage_def)

lemma ec_params_Some: "ec_params pk = Some params \<Longrightarrow> \<exists>k. pk = Some k"
  by (cases pk) (simp_all add: ec_params_def)

text \<open>An EC public or certificate backend accepts a signature exactly when the algorithm is the
  one JOSE assigns to the key's curve (ES256 for P-256, ES384 for P-384, ES512 for P-521), its hash is
  available, the signature is twice as long as the order of the curve, and its two halves, read as
  big-endian integers, form an ECDSA signature of the message digest under the key.\<close>

theorem ec_verify_exact:
  "ec_public_Verify prim (PubECDSA publicKey) background algorithm signature message = Ok () \<longleftrightarrow>
     (\<exists>k params hash.
        publicKey = Some k \<and> ec_params publicKey = Some params
        \<and> (algorithm, curve_Name params, hash)
            \<in> {(ES256, ''P-256'', SHA256), (ES384, ''P-384'', SHA384), (ES512, ''P-521'', SHA512)}
        \<and> prim_hash_Available prim hash
        \<and> length signature = 2 * ec_size params
        \<and> prim_ecdsa_Verify prim k (prim_hash_Sum prim hash message)
             (SetBytes (take (ec_size params) signature)) (SetBytes (drop (ec_size params) signature)))"
  (is "?L \<longleftrightarrow> ?R")
proof -
  have "?L \<longleftrightarrow> (\<exists>hash. ec_signatureOptions publicKey algorithm = Ok hash \<and> prim_hash_Available prim hash
      \<and> verifySignature prim publicKey (prim_hash_Sum prim hash message) signature)"
    by (auto simp: ec_public_Verify_def hashMessage_Ok_iff)
  also have "\<dots> \<longleftrightarrow> ?R"
    by (cases publicKey)
      (auto simp: ec_signatureOptions_Ok_iff verifySignature_def ec_params_def split: option.splits)
  finally show ?thesis .
qed

lemma ec_private_verifies_as_public:
  "ec_private_Verify prim (PrivECDSA (Some key)) ctx algorithm signature message
     = ec_public_Verify prim (PubECDSA (Some (ec_PublicPart key))) ctx algorithm signature message"
  by (simp add: ec_private_Verify_def ec_public_Verify_def split: option.split)

text \<open>A signature of the fixed length, which both backends of the key accept.\<close>

lemma ec_own_signature:
  assumes "ecdsa_signatures_verify prim key"
    and "ec_private_Sign prim (PrivECDSA (Some key)) ctx rand algorithm message = Ok signature"
  shows "ec_public_Verify prim (PubECDSA (Some (ec_PublicPart key))) background algorithm
           signature message = Ok ()
     \<and> ec_private_Verify prim (PrivECDSA (Some key)) background algorithm signature message = Ok ()
     \<and> (\<exists>params. ec_params (Some (ec_PublicPart key)) = Some params
          \<and> length signature = 2 * ec_size params)"
proof -
  let ?pk = "Some (ec_PublicPart key)"
  from assms(2) obtain hash r s where opts: "ec_signatureOptions ?pk algorithm = Ok hash"
    and avail: "prim_hash_Available prim hash"
    and sign: "prim_ecdsa_Sign prim rand key (prim_hash_Sum prim hash message) = Ok (r, s)"
    and enc: "encodeSignature ?pk r s = Ok signature"
    by (auto simp: ec_private_Sign_def hashMessage_Ok_iff split: option.splits)
  from opts obtain params where params: "ec_params ?pk = Some params"
    by (auto simp: ec_signatureOptions_Ok_iff)
  then obtain curve where curve: "ec_Curve (ec_PublicPart key) = Some curve" "Params curve = Some params"
    by (auto simp: ec_params_def split: option.splits)
  from assms(1) sign curve obtain r' s' where rs: "r = Some r'" "s = Some s'"
    "0 < r'" "r' < int (curve_N params)" "0 < s'" "s' < int (curve_N params)"
    and verify: "prim_ecdsa_Verify prim (ec_PublicPart key) (prim_hash_Sum prim hash message) r' s'"
    unfolding ecdsa_signatures_verify_def by blast
  obtain high low where "signature = high @ low" "length high = ec_size params"
    "length low = ec_size params" "SetBytes high = r'" "SetBytes low = s'"
    using encodeSignature_below_order [OF params rs(3-6)] enc rs(1,2) by auto
  then have "ec_public_Verify prim (PubECDSA ?pk) background algorithm signature message = Ok ()"
    "length signature = 2 * ec_size params"
    using opts avail verify params
    by (simp_all add: ec_public_Verify_def hashMessage_Ok_iff verifySignature_def hashMessage_def)
  then show ?thesis using params by (simp add: ec_private_verifies_as_public)
qed

lemma ec_public_Verify_live:
  "ctx 0 = None \<Longrightarrow> ec_public_Verify prim Key ctx = ec_public_Verify prim Key background"
  by (simp add: fun_eq_iff ec_public_Verify_def)

text \<open>The public backend of a key accepts what the private one signs, under any live context.\<close>

lemma ec_signature_pair:
  assumes "ecdsa_signatures_verify prim key"
  shows "signature_pair (ec_publicBackend prim (PubECDSA (Some (ec_PublicPart key))))
     (ec_privateBackend prim (PrivECDSA (Some key)))"
proof (intro signature_pair.intro signature_pair_axioms.intro ec_public.backend_contract_axioms)
  fix ctx ctx' :: ctxt and rand a message signature sign verify
  assume "backend_Sign (ec_privateBackend prim (PrivECDSA (Some key))) = Some sign"
    "backend_Verify (ec_publicBackend prim (PubECDSA (Some (ec_PublicPart key)))) = Some verify"
    "sign ctx rand a message = Ok signature" "ctx' 0 = None"
  then show "verify ctx' a signature message = Ok ()"
    using ec_own_signature [OF assms, of ctx rand a message signature]
    by (auto simp: ec_privateBackend_def ec_publicBackend_def ec_public_Verify_live [of ctx'])
qed

text \<open>C16: A signature made by an EC private backend has the fixed JOSE length of its curve and is
  accepted by the public backend of the same key, and by the private backend itself, for the same
  algorithm and message. The signing primitive is assumed to return two integers between 0 and the
  order of the curve that verify under the key; encoding them cannot fail or panic.\<close>

theorem ec_sign_verify:
  assumes "ecdsa_signatures_verify prim key"
    and "ec_private_Sign prim (PrivECDSA (Some key)) ctx rand algorithm message = Ok signature"
  shows "ec_public_Verify prim (PubECDSA (Some (ec_PublicPart key))) background algorithm
           signature message = Ok ()
     \<and> ec_private_Verify prim (PrivECDSA (Some key)) background algorithm signature message = Ok ()
     \<and> (\<exists>params. ec_params (Some (ec_PublicPart key)) = Some params
          \<and> length signature = 2 * ec_size params)"
  by (rule ec_own_signature [OF assms])

definition sample_ec_key :: "elliptic_curve \<Rightarrow> ecdsa_PrivateKey" where
  "sample_ec_key curve =
     \<lparr>ec_PublicPart = \<lparr>ec_Curve = Some curve, ec_X = Some 5, ec_Y = Some 6\<rparr>, ec_D = Some 3\<rparr>"

lemma sample_ecdsa_sound:
  "curve \<in> {P256, P384, P521} \<Longrightarrow> ecdsa_signatures_verify (sample_primitives t) (sample_ec_key curve)"
  by (auto simp: ecdsa_signatures_verify_def sample_primitives_def sample_ec_key_def)

theorem ec_sign_verify_witness:
  "\<exists>signature. ec_private_Sign (sample_primitives False) (PrivECDSA (Some (sample_ec_key P256)))
       background sample_entropy ES256 [1] = Ok signature
     \<and> length signature = 64
     \<and> ec_public_Verify (sample_primitives False) (PubECDSA (Some (ec_PublicPart (sample_ec_key P256))))
         background ES256 signature [1] = Ok ()"
proof -
  let ?key = "sample_ec_key P256" and ?prim = "sample_primitives False"
  let ?s = "be_bytes 32 1 @ be_bytes 32 2"
  obtain params where params: "Params P256 = Some params" "curve_Name params = ''P-256''" by simp
  then have size: "ec_params (Some (ec_PublicPart ?key)) = Some params" "ec_size params = 32"
    using ec_sizes(1) by (simp_all add: ec_params_def sample_ec_key_def)
  have "ec_signatureOptions (Some (ec_PublicPart ?key)) ES256 = Ok SHA256"
    using size(1) params(2) by (simp add: ec_signatureOptions_Ok_iff)
  then have sign: "ec_private_Sign ?prim (PrivECDSA (Some ?key)) background sample_entropy ES256 [1] = Ok ?s"
    using size by (simp add: ec_private_Sign_def hashMessage_def sample_primitives_def
        encodeSignature_def FillBytes_def)
  show ?thesis
    using ec_sign_verify [OF sample_ecdsa_sound sign] sign by auto
qed

text \<open>The EC private backend claims all three signature algorithms for every key, but can only
  use the one of the key's curve: for a key on P-384 it supports ES256 and ES512, and signing with
  either of them returns an error whatever the primitives do.\<close>

theorem ec_supports_ignores_curve:
  "(let key' = key\<lparr>ec_PublicPart := (ec_PublicPart key)\<lparr>ec_Curve := Some P384\<rparr>\<rparr> in
     backend_Supports (ec_privateBackend prim (PrivECDSA (Some key'))) KeyUseSigning KeyOpSign ES256
   \<and> ec_private_Sign prim (PrivECDSA (Some key')) background rand ES256 message
       = Err (Errorf ''EC backend: curve %q cannot be used with signature algorithm %q''
                [StrArg ''P-384'', StrArg ES256])
   \<and> backend_Supports (ec_privateBackend prim (PrivECDSA (Some key'))) KeyUseSigning KeyOpSign ES512
   \<and> ec_private_Sign prim (PrivECDSA (Some key')) background rand ES512 message
       = Err (Errorf ''EC backend: curve %q cannot be used with signature algorithm %q''
                [StrArg ''P-384'', StrArg ES512]))"
  by (simp add: Let_def ec_privateBackend_def ec_private_Sign_def ec_signatureOptions_def ec_params_def
      ec_algs)

end
