(* ===== verification/Rsa_Backend.thy ===== *)
theory Rsa_Backend
  imports Backend_Contract
begin

text \<open>
  The package \<^verbatim>\<open>backend/rsa\<close> without its JOSE codec: PKCS #1 v1.5 and PSS signatures, OAEP
  encryption, and the legacy algorithms of builds made with the tag \<^verbatim>\<open>with_unsafe_crypto\<close>, over the
  private, public and certificate backends and their factory.
\<close>

section \<open>Capabilities\<close>

definition RS256 :: KeyAlg where "RS256 = ''RS256''"
definition RS384 :: KeyAlg where "RS384 = ''RS384''"
definition RS512 :: KeyAlg where "RS512 = ''RS512''"
definition PS256 :: KeyAlg where "PS256 = ''PS256''"
definition PS384 :: KeyAlg where "PS384 = ''PS384''"
definition PS512 :: KeyAlg where "PS512 = ''PS512''"
definition RSA1_5 :: KeyAlg where "RSA1_5 = ''RSA1_5''"
definition RSAOAEP :: KeyAlg where "RSAOAEP = ''RSA-OAEP''"
definition RSAOAEP256 :: KeyAlg where "RSAOAEP256 = ''RSA-OAEP-256''"
definition RSAOAEP384 :: KeyAlg where "RSAOAEP384 = ''RSA-OAEP-384''"
definition RSAOAEP512 :: KeyAlg where "RSAOAEP512 = ''RSA-OAEP-512''"

lemmas rsa_algs = RS256_def RS384_def RS512_def PS256_def PS384_def PS512_def
  RSA1_5_def RSAOAEP_def RSAOAEP256_def RSAOAEP384_def RSAOAEP512_def

datatype rsa_MaterialType = PUBLIC_MATERIAL | PRIVATE_MATERIAL

definition rsa_disabledCapabilities :: "rsa_MaterialType \<Rightarrow> Capability list" where
  [simp]: "rsa_disabledCapabilities materialType = []"

fun rsa_unsafeCryptoCapabilities :: "bool \<Rightarrow> rsa_MaterialType \<Rightarrow> Capability list" where
  "rsa_unsafeCryptoCapabilities False materialType = rsa_disabledCapabilities materialType"
| "rsa_unsafeCryptoCapabilities True PUBLIC_MATERIAL =
     [Cap KeyUseEncryption KeyOpEncrypt RSA1_5,
      Cap KeyUseEncryption KeyOpEncrypt RSAOAEP]"
| "rsa_unsafeCryptoCapabilities True PRIVATE_MATERIAL =
     [Cap KeyUseEncryption KeyOpEncrypt RSA1_5,
      Cap KeyUseEncryption KeyOpEncrypt RSAOAEP,
      Cap KeyUseEncryption KeyOpDecrypt RSA1_5,
      Cap KeyUseEncryption KeyOpDecrypt RSAOAEP]"

fun rsa_base_capabilities :: "rsa_MaterialType \<Rightarrow> Capability list" where
  "rsa_base_capabilities PUBLIC_MATERIAL =
     [Cap KeyUseSigning KeyOpVerify RS256,
      Cap KeyUseSigning KeyOpVerify RS384,
      Cap KeyUseSigning KeyOpVerify RS512,
      Cap KeyUseSigning KeyOpVerify PS256,
      Cap KeyUseSigning KeyOpVerify PS384,
      Cap KeyUseSigning KeyOpVerify PS512,
      Cap KeyUseEncryption KeyOpEncrypt RSAOAEP256,
      Cap KeyUseEncryption KeyOpEncrypt RSAOAEP384,
      Cap KeyUseEncryption KeyOpEncrypt RSAOAEP512]"
| "rsa_base_capabilities PRIVATE_MATERIAL =
     [Cap KeyUseSigning KeyOpSign RS256,
      Cap KeyUseSigning KeyOpSign RS384,
      Cap KeyUseSigning KeyOpSign RS512,
      Cap KeyUseSigning KeyOpSign PS256,
      Cap KeyUseSigning KeyOpSign PS384,
      Cap KeyUseSigning KeyOpSign PS512,
      Cap KeyUseSigning KeyOpVerify RS256,
      Cap KeyUseSigning KeyOpVerify RS384,
      Cap KeyUseSigning KeyOpVerify RS512,
      Cap KeyUseSigning KeyOpVerify PS256,
      Cap KeyUseSigning KeyOpVerify PS384,
      Cap KeyUseSigning KeyOpVerify PS512,
      Cap KeyUseEncryption KeyOpEncrypt RSAOAEP256,
      Cap KeyUseEncryption KeyOpEncrypt RSAOAEP384,
      Cap KeyUseEncryption KeyOpEncrypt RSAOAEP512,
      Cap KeyUseEncryption KeyOpDecrypt RSAOAEP256,
      Cap KeyUseEncryption KeyOpDecrypt RSAOAEP384,
      Cap KeyUseEncryption KeyOpDecrypt RSAOAEP512]"

text \<open>The table after the package's \<^verbatim>\<open>init\<close> has appended the unsafe capabilities.\<close>

definition rsa_capabilities :: "bool \<Rightarrow> rsa_MaterialType \<Rightarrow> Capability list" where
  "rsa_capabilities unsafe_build materialType =
     rsa_base_capabilities materialType @ rsa_unsafeCryptoCapabilities unsafe_build materialType"

section \<open>Encryption\<close>

text \<open>The functions of the file that builds without the tag use.\<close>

definition disabled_EncryptionHash :: "hash res" where
  [simp]: "disabled_EncryptionHash =
     Err (Errorf ''RSA backend: encryption algorithm %q requires the with_unsafe_crypto build tag'' [StrArg RSAOAEP])"

definition disabled_EncryptPKCS1v15 :: "rsa_PublicKey option \<Rightarrow> bytes \<Rightarrow> bytes res" where
  [simp]: "disabled_EncryptPKCS1v15 publicKey plaintext =
     Err (Errorf ''RSA backend: encryption algorithm %q requires the with_unsafe_crypto build tag'' [StrArg RSA1_5])"

definition disabled_DecryptPKCS1v15 :: "rsa_PrivateKey option \<Rightarrow> bytes \<Rightarrow> bytes res" where
  [simp]: "disabled_DecryptPKCS1v15 privateKey ciphertext =
     Err (Errorf ''RSA backend: encryption algorithm %q requires the with_unsafe_crypto build tag'' [StrArg RSA1_5])"

definition unsafeEncryptionHash :: "primitives \<Rightarrow> hash res" where
  "unsafeEncryptionHash prim =
     (if prim_unsafe_build prim then Ok SHA1 else disabled_EncryptionHash)"

text \<open>
  A nil key passes the type assertions of the backends and reaches the standard library, which
  dereferences it.
\<close>

definition unsafeEncryptPKCS1v15 ::
    "primitives \<Rightarrow> entropy \<Rightarrow> rsa_PublicKey option \<Rightarrow> bytes \<Rightarrow> bytes res" where
  "unsafeEncryptPKCS1v15 prim rand publicKey plaintext =
     (if prim_unsafe_build prim
      then (case publicKey of
              None \<Rightarrow> Panic ''nil pointer dereference''
            | Some k \<Rightarrow> prim_rsa_EncryptPKCS1v15 prim rand k plaintext)
      else disabled_EncryptPKCS1v15 publicKey plaintext)"

definition unsafeDecryptPKCS1v15 ::
    "primitives \<Rightarrow> rsa_PrivateKey option \<Rightarrow> bytes \<Rightarrow> bytes res" where
  "unsafeDecryptPKCS1v15 prim privateKey ciphertext =
     (if prim_unsafe_build prim
      then (case privateKey of
              None \<Rightarrow> Panic ''nil pointer dereference''
            | Some k \<Rightarrow> prim_rsa_DecryptPKCS1v15 prim k ciphertext)
      else disabled_DecryptPKCS1v15 privateKey ciphertext)"

definition encryptionHash :: "primitives \<Rightarrow> KeyAlg \<Rightarrow> hash res" where
  "encryptionHash prim algorithm =
     (if algorithm = RSAOAEP then unsafeEncryptionHash prim
      else if algorithm = RSAOAEP256 then Ok SHA256
      else if algorithm = RSAOAEP384 then Ok SHA384
      else if algorithm = RSAOAEP512 then Ok SHA512
      else Err (Errorf ''RSA backend: unsupported encryption algorithm %q'' [StrArg algorithm]))"

definition rsa_encrypt ::
    "primitives \<Rightarrow> entropy \<Rightarrow> rsa_PublicKey option \<Rightarrow> KeyAlg \<Rightarrow> bytes \<Rightarrow> bytes res" where
  "rsa_encrypt prim rand publicKey algorithm plaintext =
     (if algorithm = RSA1_5 then unsafeEncryptPKCS1v15 prim rand publicKey plaintext
      else bind_res (encryptionHash prim algorithm) (\<lambda>hash.
        case publicKey of
          None \<Rightarrow> Panic ''nil pointer dereference''
        | Some k \<Rightarrow> prim_rsa_EncryptOAEP prim hash rand k plaintext))"

definition rsa_decrypt ::
    "primitives \<Rightarrow> rsa_PrivateKey option \<Rightarrow> KeyAlg \<Rightarrow> bytes \<Rightarrow> bytes res" where
  "rsa_decrypt prim privateKey algorithm ciphertext =
     (if algorithm = RSA1_5 then unsafeDecryptPKCS1v15 prim privateKey ciphertext
      else bind_res (encryptionHash prim algorithm) (\<lambda>hash.
        case privateKey of
          None \<Rightarrow> Panic ''nil pointer dereference''
        | Some k \<Rightarrow> prim_rsa_DecryptOAEP prim hash k ciphertext))"

section \<open>The backends\<close>

text \<open>The hash of a signature algorithm, and whether it is a PSS one.\<close>

definition rsa_private_signatureOptions :: "KeyAlg \<Rightarrow> (hash \<times> bool) res" where
  "rsa_private_signatureOptions alg =
     (if alg = RS256 then Ok (SHA256, False)
      else if alg = RS384 then Ok (SHA384, False)
      else if alg = RS512 then Ok (SHA512, False)
      else if alg = PS256 then Ok (SHA256, True)
      else if alg = PS384 then Ok (SHA384, True)
      else if alg = PS512 then Ok (SHA512, True)
      else Err (Errorf ''RSA backend: unsupported signature algorithm %q'' [StrArg alg]))"

definition rsa_public_signatureOptions :: "KeyAlg \<Rightarrow> (hash \<times> bool) res" where
  "rsa_public_signatureOptions alg =
     (if alg = RS256 then Ok (SHA256, False)
      else if alg = RS384 then Ok (SHA384, False)
      else if alg = RS512 then Ok (SHA512, False)
      else if alg = PS256 then Ok (SHA256, True)
      else if alg = PS384 then Ok (SHA384, True)
      else if alg = PS512 then Ok (SHA512, True)
      else Err (Errorf ''RSA backend: unsupported signature algorithm %q'' [StrArg alg]))"

definition rsa_private_Sign ::
    "primitives \<Rightarrow> private_key \<Rightarrow> ctxt \<Rightarrow> entropy \<Rightarrow> KeyAlg \<Rightarrow> bytes \<Rightarrow> bytes res" where
  "rsa_private_Sign prim Key ctx rand algorithm message =
     (case ctx 0 of
        Some err \<Rightarrow> Err err
      | None \<Rightarrow>
          (case Key of
             PrivRSA key \<Rightarrow>
               bind_res (rsa_private_signatureOptions algorithm) (\<lambda>(hash, isPss).
               bind_res (hashMessage prim hash message) (\<lambda>digest.
               case key of
                 None \<Rightarrow> Panic ''nil pointer dereference''
               | Some k \<Rightarrow>
                   if isPss then prim_rsa_SignPSS prim rand k hash digest
                   else prim_rsa_SignPKCS1v15 prim rand k hash digest))
           | _ \<Rightarrow> Err (Errorf ''RSA backend: key material is not an RSA private key'' [])))"

definition rsa_private_Verify ::
    "primitives \<Rightarrow> private_key \<Rightarrow> ctxt \<Rightarrow> KeyAlg \<Rightarrow> bytes \<Rightarrow> bytes \<Rightarrow> unit res" where
  "rsa_private_Verify prim Key ctx algorithm signature message =
     (case ctx 0 of
        Some err \<Rightarrow> Err err
      | None \<Rightarrow>
          (case Key of
             PrivRSA privateKey \<Rightarrow>
               bind_res (rsa_private_signatureOptions algorithm) (\<lambda>(hash, isPss).
               bind_res (hashMessage prim hash message) (\<lambda>digest.
               case privateKey of
                 None \<Rightarrow> Panic ''nil pointer dereference''
               | Some k \<Rightarrow>
                   if isPss then prim_rsa_VerifyPSS prim (rsa_PublicPart k) hash digest signature
                   else prim_rsa_VerifyPKCS1v15 prim (rsa_PublicPart k) hash digest signature))
           | _ \<Rightarrow> Err (Errorf ''RSA backend: key material is not an RSA private key'' [])))"

definition rsa_private_Encrypt ::
    "primitives \<Rightarrow> private_key \<Rightarrow> ctxt \<Rightarrow> entropy \<Rightarrow> KeyAlg \<Rightarrow> bytes \<Rightarrow> bytes res" where
  "rsa_private_Encrypt prim Key ctx rand algorithm plaintext =
     (case ctx 0 of
        Some err \<Rightarrow> Err err
      | None \<Rightarrow>
          (case Key of
             PrivRSA None \<Rightarrow> Panic ''nil pointer dereference''
           | PrivRSA (Some privateKey) \<Rightarrow>
               rsa_encrypt prim rand (Some (rsa_PublicPart privateKey)) algorithm plaintext
           | _ \<Rightarrow> Err (Errorf ''RSA backend: key material is not an RSA private key'' [])))"

definition rsa_private_Decrypt ::
    "primitives \<Rightarrow> private_key \<Rightarrow> ctxt \<Rightarrow> KeyAlg \<Rightarrow> bytes \<Rightarrow> bytes res" where
  "rsa_private_Decrypt prim Key ctx algorithm ciphertext =
     (case ctx 0 of
        Some err \<Rightarrow> Err err
      | None \<Rightarrow>
          (case Key of
             PrivRSA privateKey \<Rightarrow> rsa_decrypt prim privateKey algorithm ciphertext
           | _ \<Rightarrow> Err (Errorf ''RSA backend: key material is not an RSA private key'' [])))"

definition rsa_public_Verify ::
    "primitives \<Rightarrow> public_key \<Rightarrow> ctxt \<Rightarrow> KeyAlg \<Rightarrow> bytes \<Rightarrow> bytes \<Rightarrow> unit res" where
  "rsa_public_Verify prim Key ctx algorithm signature message =
     (case ctx 0 of
        Some err \<Rightarrow> Err err
      | None \<Rightarrow>
          (case Key of
             PubRSA publicKey \<Rightarrow>
               bind_res (rsa_public_signatureOptions algorithm) (\<lambda>(hash, isPss).
               bind_res (hashMessage prim hash message) (\<lambda>digest.
               case publicKey of
                 None \<Rightarrow> Panic ''nil pointer dereference''
               | Some k \<Rightarrow>
                   if isPss then prim_rsa_VerifyPSS prim k hash digest signature
                   else prim_rsa_VerifyPKCS1v15 prim k hash digest signature))
           | _ \<Rightarrow> Err (Errorf ''RSA backend: key material is not an RSA public key'' [])))"

definition rsa_public_Encrypt ::
    "primitives \<Rightarrow> public_key \<Rightarrow> ctxt \<Rightarrow> entropy \<Rightarrow> KeyAlg \<Rightarrow> bytes \<Rightarrow> bytes res" where
  "rsa_public_Encrypt prim Key ctx rand algorithm plaintext =
     (case ctx 0 of
        Some err \<Rightarrow> Err err
      | None \<Rightarrow>
          (case Key of
             PubRSA publicKey \<Rightarrow> rsa_encrypt prim rand publicKey algorithm plaintext
           | _ \<Rightarrow> Err (Errorf ''RSA backend: key material is not an RSA public key'' [])))"

definition rsa_private_Supports :: "primitives \<Rightarrow> KeyUse \<Rightarrow> KeyOperation \<Rightarrow> KeyAlg \<Rightarrow> bool" where
  [simp]: "rsa_private_Supports prim =
     table_Supports (rsa_capabilities (prim_unsafe_build prim) PRIVATE_MATERIAL)"

definition rsa_public_Supports :: "primitives \<Rightarrow> KeyUse \<Rightarrow> KeyOperation \<Rightarrow> KeyAlg \<Rightarrow> bool" where
  [simp]: "rsa_public_Supports prim =
     table_Supports (rsa_capabilities (prim_unsafe_build prim) PUBLIC_MATERIAL)"

definition rsa_public_Capabilities :: "primitives \<Rightarrow> Capability list" where
  [simp]: "rsa_public_Capabilities prim = [] @ rsa_capabilities (prim_unsafe_build prim) PUBLIC_MATERIAL"

definition rsa_privateBackend :: "primitives \<Rightarrow> private_key \<Rightarrow> Backend" where
  "rsa_privateBackend prim Key = \<lparr>
     backend_Supports = rsa_private_Supports prim,
     backend_Capabilities = [] @ rsa_capabilities (prim_unsafe_build prim) PRIVATE_MATERIAL,
     backend_Sign = Some (rsa_private_Sign prim Key),
     backend_Verify = Some (rsa_private_Verify prim Key),
     backend_Encrypt = Some (rsa_private_Encrypt prim Key),
     backend_Decrypt = Some (rsa_private_Decrypt prim Key)\<rparr>"

definition rsa_publicBackend :: "primitives \<Rightarrow> public_key \<Rightarrow> Backend" where
  "rsa_publicBackend prim Key = \<lparr>
     backend_Supports = rsa_public_Supports prim,
     backend_Capabilities = rsa_public_Capabilities prim,
     backend_Sign = None,
     backend_Verify = Some (rsa_public_Verify prim Key),
     backend_Encrypt = Some (rsa_public_Encrypt prim Key),
     backend_Decrypt = None\<rparr>"

text \<open>The certificate backend embeds a public backend, whose methods are its own.\<close>

definition rsa_certificateBackend :: "primitives \<Rightarrow> public_key \<Rightarrow> certificate \<Rightarrow> Backend" where
  "rsa_certificateBackend prim Key Cert = rsa_publicBackend prim Key"

fun rsa_factory_Supports :: "material \<Rightarrow> bool" where
  "rsa_factory_Supports (PrivateMaterial (Some (PrivRSA k))) = (k \<noteq> None)"
| "rsa_factory_Supports (PublicMaterial (Some (PubRSA k))) = (k \<noteq> None)"
| "rsa_factory_Supports (CertificateMaterial (Some (Some Cert))) =
     (case cert_PublicKey Cert of PubRSA k \<Rightarrow> k \<noteq> None | _ \<Rightarrow> False)"
| "rsa_factory_Supports m = False"

definition rsa_factory_New :: "primitives \<Rightarrow> certificate_parser \<Rightarrow> material \<Rightarrow> Backend res" where
  "rsa_factory_New prim parse m =
     (case Clone parse m of
        PublicMaterial (Some (PubRSA (Some k))) \<Rightarrow> Ok (rsa_publicBackend prim (PubRSA (Some k)))
      | PrivateMaterial (Some (PrivRSA (Some k))) \<Rightarrow> Ok (rsa_privateBackend prim (PrivRSA (Some k)))
      | CertificateMaterial (Some (Some Cert)) \<Rightarrow>
          (case cert_PublicKey Cert of
             PubRSA (Some k) \<Rightarrow> Ok (rsa_certificateBackend prim (PubRSA (Some k)) Cert)
           | _ \<Rightarrow> Err (ErrorNew ''RSA backend: material is not supported''))
      | _ \<Rightarrow> Err (ErrorNew ''RSA backend: material is not supported''))"

section \<open>The contract of the backends\<close>

lemma rsa_capabilities_private:
  "table_Supports (rsa_capabilities t PRIVATE_MATERIAL) u p a \<longleftrightarrow>
     (u = KeyUseSigning \<and> p \<in> {KeyOpSign, KeyOpVerify}
        \<and> a \<in> {RS256, RS384, RS512, PS256, PS384, PS512})
     \<or> (u = KeyUseEncryption \<and> p \<in> {KeyOpEncrypt, KeyOpDecrypt}
        \<and> (a \<in> {RSAOAEP256, RSAOAEP384, RSAOAEP512} \<or> (t \<and> a \<in> {RSA1_5, RSAOAEP})))"
  (is "?L \<longleftrightarrow> ?R")
proof
  assume ?L
  then show ?R
    by (cases t) (simp_all add: table_Supports_iff rsa_capabilities_def Cap_def; elim disjE conjE; simp)+
next
  assume ?R
  then show ?L
    by (cases t) (simp_all add: table_Supports_iff rsa_capabilities_def Cap_def; elim disjE conjE; simp)+
qed

lemma rsa_capabilities_public:
  "table_Supports (rsa_capabilities t PUBLIC_MATERIAL) u p a \<longleftrightarrow>
     (u = KeyUseSigning \<and> p = KeyOpVerify \<and> a \<in> {RS256, RS384, RS512, PS256, PS384, PS512})
     \<or> (u = KeyUseEncryption \<and> p = KeyOpEncrypt
        \<and> (a \<in> {RSAOAEP256, RSAOAEP384, RSAOAEP512} \<or> (t \<and> a \<in> {RSA1_5, RSAOAEP})))"
  (is "?L \<longleftrightarrow> ?R")
proof
  assume ?L
  then show ?R
    by (cases t) (simp_all add: table_Supports_iff rsa_capabilities_def Cap_def; elim disjE conjE; simp)+
next
  assume ?R
  then show ?L
    by (cases t) (simp_all add: table_Supports_iff rsa_capabilities_def Cap_def; elim disjE conjE; simp)+
qed

interpretation rsa_private: backend_contract "rsa_privateBackend prim Key" for prim Key
  by unfold_locales (simp_all add: rsa_privateBackend_def table_Supports_iff)

interpretation rsa_public: backend_contract "rsa_publicBackend prim Key" for prim Key
  by unfold_locales
    (auto simp: rsa_publicBackend_def rsa_capabilities_public op_defs use_defs simp flip: table_Supports_iff)

section \<open>Signatures and encryption\<close>

lemma rsa_signatureOptions_same: "rsa_public_signatureOptions = rsa_private_signatureOptions"
  by (simp add: fun_eq_iff rsa_public_signatureOptions_def rsa_private_signatureOptions_def)

lemma rsa_private_verifies_as_public:
  "rsa_private_Verify prim (PrivRSA (Some k)) = rsa_public_Verify prim (PubRSA (Some (rsa_PublicPart k)))"
  by (simp add: fun_eq_iff rsa_private_Verify_def rsa_public_Verify_def rsa_signatureOptions_same
      split: option.split)

lemma rsa_signature_accepted:
  assumes "rsa_signatures_verify prim k" "ctx' 0 = None"
    and "rsa_private_Sign prim (PrivRSA (Some k)) ctx rand algorithm message = Ok signature"
  shows "rsa_public_Verify prim (PubRSA (Some (rsa_PublicPart k))) ctx' algorithm signature message = Ok ()"
  using assms
  by (auto simp: rsa_private_Sign_def rsa_public_Verify_def rsa_signatureOptions_same
      rsa_signatures_verify_def split: option.splits if_splits)

lemma rsa_signing_backend:
  assumes "rsa_signatures_verify prim k"
  shows "signing_backend (rsa_privateBackend prim (PrivRSA (Some k)))"
proof
  fix ctx ctx' :: ctxt and rand a message signature sign verify
  assume "backend_Sign (rsa_privateBackend prim (PrivRSA (Some k))) = Some sign"
    "backend_Verify (rsa_privateBackend prim (PrivRSA (Some k))) = Some verify"
    "sign ctx rand a message = Ok signature" "ctx' 0 = None"
  then show "verify ctx' a signature message = Ok ()"
    using rsa_signature_accepted [OF assms]
    by (auto simp: rsa_privateBackend_def rsa_private_verifies_as_public)
qed

lemma rsa_signature_pair:
  assumes "rsa_signatures_verify prim k"
  shows "signature_pair (rsa_publicBackend prim (PubRSA (Some (rsa_PublicPart k))))
     (rsa_privateBackend prim (PrivRSA (Some k)))"
proof (intro signature_pair.intro signature_pair_axioms.intro rsa_public.backend_contract_axioms)
  fix ctx ctx' :: ctxt and rand a message signature sign verify
  assume "backend_Sign (rsa_privateBackend prim (PrivRSA (Some k))) = Some sign"
    "backend_Verify (rsa_publicBackend prim (PubRSA (Some (rsa_PublicPart k)))) = Some verify"
    "sign ctx rand a message = Ok signature" "ctx' 0 = None"
  then show "verify ctx' a signature message = Ok ()"
    using rsa_signature_accepted [OF assms] by (auto simp: rsa_privateBackend_def rsa_publicBackend_def)
qed

text \<open>C17: A signature made by an RSA private backend, PKCS #1 v1.5 or PSS, is accepted by the public
  backend of the same key, and by the private backend itself, for the same algorithm and message. The
  signing primitives are assumed to make signatures that the verifying ones accept.\<close>

theorem rsa_sign_verify:
  assumes "rsa_signatures_verify prim k"
    and "rsa_private_Sign prim (PrivRSA (Some k)) ctx rand algorithm message = Ok signature"
  shows "rsa_public_Verify prim (PubRSA (Some (rsa_PublicPart k))) background algorithm signature message
           = Ok ()
     \<and> rsa_private_Verify prim (PrivRSA (Some k)) background algorithm signature message = Ok ()"
  using rsa_signature_accepted [OF assms(1) _ assms(2), of background]
  by (simp add: rsa_private_verifies_as_public)

definition sample_rsa_key :: rsa_PrivateKey where
  "sample_rsa_key =
     \<lparr>rsa_PublicPart = \<lparr>rsa_N = Some 3233, rsa_E = 17\<rparr>, rsa_D = Some 413,
      rsa_Primes = [Some 61, Some 53], rsa_Precomputed = None\<rparr>"

theorem rsa_sign_verify_witness:
  "rsa_public_Verify (sample_primitives False) (PubRSA (Some (rsa_PublicPart sample_rsa_key))) background
     PS384 (2 # sample_digest SHA384 [5]) [5] = Ok ()"
proof -
  have "rsa_private_Sign (sample_primitives False) (PrivRSA (Some sample_rsa_key)) background
      sample_entropy PS384 [5] = Ok (2 # sample_digest SHA384 [5])"
    by (simp add: rsa_private_Sign_def rsa_private_signatureOptions_def hashMessage_def
        sample_primitives_def rsa_algs)
  from rsa_sign_verify [OF sample_sound(1) this] show ?thesis by simp
qed

text \<open>C18: Whatever the public backend of an RSA key encrypts, the private backend of the key decrypts to
  the plaintext, for the same algorithm; the same holds when the private backend encrypted it.
  Decryption is assumed to undo encryption for each padding and hash.\<close>

theorem rsa_encrypt_decrypt:
  assumes "rsa_decrypts prim k"
    and "rsa_public_Encrypt prim (PubRSA (Some (rsa_PublicPart k))) ctx rand algorithm plain = Ok cipher
       \<or> rsa_private_Encrypt prim (PrivRSA (Some k)) ctx rand algorithm plain = Ok cipher"
  shows "rsa_private_Decrypt prim (PrivRSA (Some k)) background algorithm cipher = Ok plain"
proof -
  have "rsa_encrypt prim rand (Some (rsa_PublicPart k)) algorithm plain = Ok cipher"
    using assms(2) by (auto simp: rsa_public_Encrypt_def rsa_private_Encrypt_def split: option.splits)
  then show ?thesis
    using assms(1)
    by (auto simp: rsa_encrypt_def rsa_private_Decrypt_def rsa_decrypt_def rsa_decrypts_def
        unsafeEncryptPKCS1v15_def unsafeDecryptPKCS1v15_def split: if_splits)
qed

theorem rsa_encrypt_decrypt_witness:
  "rsa_private_Decrypt (sample_primitives True) (PrivRSA (Some sample_rsa_key)) background RSA1_5 [4, 2]
     = Ok [4, 2]"
proof -
  have "rsa_public_Encrypt (sample_primitives True) (PubRSA (Some (rsa_PublicPart sample_rsa_key)))
      background sample_entropy RSA1_5 [4, 2] = Ok [4, 2]"
    by (simp add: rsa_public_Encrypt_def rsa_encrypt_def unsafeEncryptPKCS1v15_def sample_primitives_def)
  from rsa_encrypt_decrypt [OF sample_sound(2) disjI1, OF this] show ?thesis by simp
qed

lemma rsa_sign_possible:
  "(\<exists>prim'. prim_unsafe_build prim' = t
      \<and> is_ok (rsa_private_Sign prim' (PrivRSA (Some k)) background rand a message))
   \<longleftrightarrow> a \<in> {RS256, RS384, RS512, PS256, PS384, PS512}"
proof
  assume "a \<in> {RS256, RS384, RS512, PS256, PS384, PS512}"
  then have "is_ok (rsa_private_Sign (sample_primitives t) (PrivRSA (Some k)) background rand a message)"
    by (auto simp: rsa_private_Sign_def rsa_private_signatureOptions_def hashMessage_def
        sample_primitives_def)
  then show "\<exists>prim'. prim_unsafe_build prim' = t
      \<and> is_ok (rsa_private_Sign prim' (PrivRSA (Some k)) background rand a message)"
    by (intro exI [of _ "sample_primitives t"]) simp
qed (auto simp: rsa_private_Sign_def rsa_private_signatureOptions_def split: if_splits)

lemma rsa_decrypt_possible:
  "(\<exists>prim'. prim_unsafe_build prim' = t
      \<and> is_ok (rsa_private_Decrypt prim' (PrivRSA (Some k)) background a cipher))
   \<longleftrightarrow> a \<in> {RSAOAEP256, RSAOAEP384, RSAOAEP512} \<or> (t \<and> a \<in> {RSA1_5, RSAOAEP})"
    (is "?L \<longleftrightarrow> ?R")
proof
  assume ?R
  then have "is_ok (rsa_private_Decrypt (sample_primitives t) (PrivRSA (Some k)) background a cipher)"
    by (elim disjE conjE insertE; simp add: rsa_private_Decrypt_def rsa_decrypt_def unsafeDecryptPKCS1v15_def
        encryptionHash_def unsafeEncryptionHash_def sample_primitives_def rsa_algs)
  then show ?L by (intro exI [of _ "sample_primitives t"]) simp
qed (auto simp: rsa_private_Decrypt_def rsa_decrypt_def unsafeDecryptPKCS1v15_def encryptionHash_def
    unsafeEncryptionHash_def split: if_splits)

lemma rsa_encrypt_possible:
  "(\<exists>prim'. prim_unsafe_build prim' = t
      \<and> is_ok (rsa_public_Encrypt prim' (PubRSA (Some pk)) background rand a plain))
   \<longleftrightarrow> a \<in> {RSAOAEP256, RSAOAEP384, RSAOAEP512} \<or> (t \<and> a \<in> {RSA1_5, RSAOAEP})"
    (is "?L \<longleftrightarrow> ?R")
proof
  assume ?R
  then have "is_ok (rsa_public_Encrypt (sample_primitives t) (PubRSA (Some pk)) background rand a plain)"
    by (elim disjE conjE insertE; simp add: rsa_public_Encrypt_def rsa_encrypt_def unsafeEncryptPKCS1v15_def
        encryptionHash_def unsafeEncryptionHash_def sample_primitives_def rsa_algs)
  then show ?L by (intro exI [of _ "sample_primitives t"]) simp
qed (auto simp: rsa_public_Encrypt_def rsa_encrypt_def unsafeEncryptPKCS1v15_def encryptionHash_def
    unsafeEncryptionHash_def split: if_splits)

text \<open>The capability tables of the RSA backends are exact, in both builds: signing, decryption and
  encryption with an algorithm are claimed if and only if they can succeed (for some behaviour of the
  primitives) on the key at hand. In particular the legacy algorithms RSA1_5 and RSA-OAEP are claimed,
  and reachable, only in a build with the unsafe tag.\<close>

theorem rsa_supports_exact:
  "(backend_Supports (rsa_privateBackend prim (PrivRSA (Some k))) KeyUseSigning KeyOpSign a
      \<longleftrightarrow> (\<exists>prim'. prim_unsafe_build prim' = prim_unsafe_build prim
            \<and> is_ok (rsa_private_Sign prim' (PrivRSA (Some k)) background rand a message)))
   \<and> (backend_Supports (rsa_privateBackend prim (PrivRSA (Some k))) KeyUseEncryption KeyOpDecrypt a
      \<longleftrightarrow> (\<exists>prim'. prim_unsafe_build prim' = prim_unsafe_build prim
            \<and> is_ok (rsa_private_Decrypt prim' (PrivRSA (Some k)) background a message)))
   \<and> (backend_Supports (rsa_publicBackend prim (PubRSA (Some pk))) KeyUseEncryption KeyOpEncrypt a
      \<longleftrightarrow> (\<exists>prim'. prim_unsafe_build prim' = prim_unsafe_build prim
            \<and> is_ok (rsa_public_Encrypt prim' (PubRSA (Some pk)) background rand a message)))
   \<and> \<not> backend_Supports (rsa_publicBackend prim (PubRSA (Some pk))) use KeyOpSign a
   \<and> \<not> backend_Supports (rsa_publicBackend prim (PubRSA (Some pk))) use KeyOpDecrypt a"
  unfolding rsa_sign_possible rsa_decrypt_possible rsa_encrypt_possible
  by (simp add: rsa_privateBackend_def rsa_publicBackend_def rsa_capabilities_private
      rsa_capabilities_public use_defs op_defs)

end
