(* ===== verification/Registry.thy ===== *)
theory Registry
  imports Sym_Backend Ec_Backend Rsa_Backend
begin

text \<open>
  The package \<^verbatim>\<open>backend\<close>: the process-wide registry of backend factories and the four registries of
  JOSE and SAML codecs. All of them append on registration, ignore nil, and search from the most
  recent entry; that common contract is the locale \<open>latest_registry\<close>, interpreted on each of the five.
  Every operation copies or appends under the registry's lock and is atomic.
\<close>

section \<open>Factories\<close>

record Factory =
  fac_Supports :: "material \<Rightarrow> bool"
  fac_New :: "material \<Rightarrow> Backend res"

record registry =
  reg_factories :: "Factory list"

definition initial_registry :: registry where
  "initial_registry = \<lparr>reg_factories = []\<rparr>"

definition Regsiter :: "Factory option \<Rightarrow> registry \<Rightarrow> registry" where
  "Regsiter factory r =
     (case factory of None \<Rightarrow> r | Some f \<Rightarrow> r\<lparr>reg_factories := reg_factories r @ [f]\<rparr>)"

text \<open>\<^verbatim>\<open>isNil\<close>: a typed nil pointer, or whatever \<^verbatim>\<open>reflect\<close> says of a foreign type.\<close>

fun isNil :: "material \<Rightarrow> bool" where
  "isNil (PrivateMaterial p) = (p = None)"
| "isNil (PublicMaterial p) = (p = None)"
| "isNil (CertificateMaterial p) = (p = None)"
| "isNil (SymmetricMaterial p) = (p = None)"
| "isNil (OtherMaterial i n p) = n"

text \<open>The loop over \<^verbatim>\<open>i := len(factories) - 1; i >= 0; i--\<close>; the argument is \<^verbatim>\<open>i + 1\<close>.\<close>

fun factory_loop :: "Factory list \<Rightarrow> nat \<Rightarrow> material \<Rightarrow> Backend res" where
  "factory_loop factories 0 m = Err (ErrorNew ''material is not supported'')"
| "factory_loop factories (Suc i) m =
     (let backendFactory = factories ! i in
      if fac_Supports backendFactory m then fac_New backendFactory m
      else factory_loop factories i m)"

definition BackendFor :: "registry \<Rightarrow> material option \<Rightarrow> Backend res" where
  "BackendFor r m =
     (case m of
        None \<Rightarrow> Err (ErrorNew ''nil material'')
      | Some m \<Rightarrow>
          if isNil m then Err (ErrorNew ''nil material'')
          else (let factories = [] @ reg_factories r in factory_loop factories (length factories) m))"

section \<open>Codecs\<close>

type_synonym MaterialExportPolicy = byte

definition ExportPublicMaterial :: MaterialExportPolicy where "ExportPublicMaterial = 0"
definition ExportPrivateMaterial :: MaterialExportPolicy where "ExportPrivateMaterial = 1"

record JOSEEncodeOption =
  opt_MaterialPolicy :: MaterialExportPolicy

type_synonym JOSEDecodeOption = unit
type_synonym SAMLEncodeOption = unit
type_synonym SAMLDecodeOption = unit

record xml_Name =
  xml_Space :: string
  xml_Local :: string

text \<open>
  The codec interfaces. \<^verbatim>\<open>SupportsMaterial\<close> of the encoders of this repository dereferences its
  argument, so it may panic.
\<close>

record JOSEEncoder =
  jenc_SupportsMaterial :: "material \<Rightarrow> bool res"
  jenc_Encode :: "ctxt \<Rightarrow> Key \<Rightarrow> JOSEEncodeOption list \<Rightarrow> bytes res"

record JOSEDecoder =
  jdec_SupportsJOSEKeyType :: "string \<Rightarrow> bool"
  jdec_Decode :: "ctxt \<Rightarrow> bytes \<Rightarrow> JOSEDecodeOption list \<Rightarrow> KeyCandidate res"

record SAMLEncoder =
  senc_SupportsMaterial :: "material \<Rightarrow> bool res"
  senc_Encode :: "ctxt \<Rightarrow> Key \<Rightarrow> SAMLEncodeOption list \<Rightarrow> bytes res"

record SAMLDecoder =
  sdec_SupportsSAMLKeyType :: "xml_Name \<Rightarrow> bool"
  sdec_Decode :: "ctxt \<Rightarrow> bytes \<Rightarrow> SAMLDecodeOption list \<Rightarrow> KeyCandidate res"

record codecs =
  joseEncoders :: "JOSEEncoder list"
  joseDecoders :: "JOSEDecoder list"
  samlEncoders :: "SAMLEncoder list"
  samlDecoders :: "SAMLDecoder list"

definition initial_codecs :: codecs where
  "initial_codecs = \<lparr>joseEncoders = [], joseDecoders = [], samlEncoders = [], samlDecoders = []\<rparr>"

definition RegisterJOSEEncoder :: "JOSEEncoder option \<Rightarrow> codecs \<Rightarrow> codecs" where
  "RegisterJOSEEncoder encoder c =
     (case encoder of None \<Rightarrow> c | Some e \<Rightarrow> c\<lparr>joseEncoders := joseEncoders c @ [e]\<rparr>)"

fun jose_encoder_loop :: "JOSEEncoder list \<Rightarrow> nat \<Rightarrow> material \<Rightarrow> JOSEEncoder res" where
  "jose_encoder_loop encoders 0 m = Err (ErrorNew ''JOSE encoder: material is not supported'')"
| "jose_encoder_loop encoders (Suc i) m =
     bind_res (jenc_SupportsMaterial (encoders ! i) m) (\<lambda>supports.
     if supports then Ok (encoders ! i) else jose_encoder_loop encoders i m)"

definition JOSEEncoderFor :: "codecs \<Rightarrow> material option \<Rightarrow> JOSEEncoder res" where
  "JOSEEncoderFor c m =
     (case m of
        None \<Rightarrow> Err (ErrorNew ''nil material'')
      | Some m \<Rightarrow>
          (let encoders = [] @ joseEncoders c in jose_encoder_loop encoders (length encoders) m))"

definition RegisterJOSEDecoder :: "JOSEDecoder option \<Rightarrow> codecs \<Rightarrow> codecs" where
  "RegisterJOSEDecoder decoder c =
     (case decoder of None \<Rightarrow> c | Some d \<Rightarrow> c\<lparr>joseDecoders := joseDecoders c @ [d]\<rparr>)"

fun jose_decoder_loop :: "JOSEDecoder list \<Rightarrow> nat \<Rightarrow> string \<Rightarrow> JOSEDecoder res" where
  "jose_decoder_loop decoders 0 kty = Err (ErrorNew ''JOSE decoder: key type is not supported'')"
| "jose_decoder_loop decoders (Suc i) kty =
     (if jdec_SupportsJOSEKeyType (decoders ! i) kty then Ok (decoders ! i)
      else jose_decoder_loop decoders i kty)"

definition JOSEDecoderFor :: "codecs \<Rightarrow> string \<Rightarrow> JOSEDecoder res" where
  "JOSEDecoderFor c kty =
     (let decoders = [] @ joseDecoders c in jose_decoder_loop decoders (length decoders) kty)"

definition RegisterSAMLEncoder :: "SAMLEncoder option \<Rightarrow> codecs \<Rightarrow> codecs" where
  "RegisterSAMLEncoder encoder c =
     (case encoder of None \<Rightarrow> c | Some e \<Rightarrow> c\<lparr>samlEncoders := samlEncoders c @ [e]\<rparr>)"

fun saml_encoder_loop :: "SAMLEncoder list \<Rightarrow> nat \<Rightarrow> material \<Rightarrow> SAMLEncoder res" where
  "saml_encoder_loop encoders 0 m = Err (ErrorNew ''SAML encoder: material is not supported'')"
| "saml_encoder_loop encoders (Suc i) m =
     bind_res (senc_SupportsMaterial (encoders ! i) m) (\<lambda>supports.
     if supports then Ok (encoders ! i) else saml_encoder_loop encoders i m)"

definition SAMLEncoderFor :: "codecs \<Rightarrow> material option \<Rightarrow> SAMLEncoder res" where
  "SAMLEncoderFor c m =
     (case m of
        None \<Rightarrow> Err (ErrorNew ''nil material'')
      | Some m \<Rightarrow>
          (let encoders = [] @ samlEncoders c in saml_encoder_loop encoders (length encoders) m))"

definition RegisterSAMLDecoder :: "SAMLDecoder option \<Rightarrow> codecs \<Rightarrow> codecs" where
  "RegisterSAMLDecoder decoder c =
     (case decoder of None \<Rightarrow> c | Some d \<Rightarrow> c\<lparr>samlDecoders := samlDecoders c @ [d]\<rparr>)"

fun saml_decoder_loop :: "SAMLDecoder list \<Rightarrow> nat \<Rightarrow> xml_Name \<Rightarrow> SAMLDecoder res" where
  "saml_decoder_loop decoders 0 n = Err (ErrorNew ''SAML decoder: key type is not supported'')"
| "saml_decoder_loop decoders (Suc i) n =
     (if sdec_SupportsSAMLKeyType (decoders ! i) n then Ok (decoders ! i)
      else saml_decoder_loop decoders i n)"

definition SAMLDecoderFor :: "codecs \<Rightarrow> xml_Name \<Rightarrow> SAMLDecoder res" where
  "SAMLDecoderFor c n =
     (let decoders = [] @ samlDecoders c in saml_decoder_loop decoders (length decoders) n)"

section \<open>The contract of a registry\<close>

text \<open>
  What the five lookups have in common: \<open>latest\<close> goes through the entries from the newest one, asks
  each whether it claims the query, and uses the first that does.
\<close>

fun latest :: "('c \<Rightarrow> bool res) \<Rightarrow> ('c \<Rightarrow> 'x res) \<Rightarrow> error \<Rightarrow> 'c list \<Rightarrow> 'x res" where
  "latest claims use missing [] = Err missing"
| "latest claims use missing (c # older) =
     bind_res (claims c) (\<lambda>yes. if yes then use c else latest claims use missing older)"

locale latest_registry =
  fixes register :: "'c option \<Rightarrow> 's \<Rightarrow> 's"
    and lookup :: "'s \<Rightarrow> 'q \<Rightarrow> 'x res"
    and entries :: "'s \<Rightarrow> 'c list"
    and claims :: "'c \<Rightarrow> 'q \<Rightarrow> bool res"
    and use :: "'c \<Rightarrow> 'q \<Rightarrow> 'x res"
    and invalid :: "'q \<Rightarrow> error option"
    and missing :: error
  assumes register_nil: "register None s = s"
    and register_entry: "entries (register (Some c) s) = entries s @ [c]"
    and lookup_law: "lookup s q =
      (case invalid q of
         Some err \<Rightarrow> Err err
       | None \<Rightarrow> latest (\<lambda>c. claims c q) (\<lambda>c. use c q) missing (rev (entries s)))"
begin

text \<open>The most recent registration wins; an entry that does not claim the query is transparent.\<close>

lemma newest_wins:
  "invalid q = None \<Longrightarrow> claims c q = Ok True \<Longrightarrow> lookup (register (Some c) s) q = use c q"
  by (simp add: lookup_law register_entry)

lemma unclaimed_transparent:
  "claims c q = Ok False \<Longrightarrow> lookup (register (Some c) s) q = lookup s q"
  by (simp add: lookup_law register_entry split: option.split)

lemma latest_Ok:
  "latest cl us err cs = Ok x \<Longrightarrow>
     \<exists>newer c older. cs = newer @ c # older \<and> (\<forall>d\<in>set newer. cl d = Ok False) \<and> cl c = Ok True
       \<and> us c = Ok x"
proof (induction cs)
  case Nil
  then show ?case by simp
next
  case (Cons c cs)
  from Cons.prems obtain yes where yes: "cl c = Ok yes" by auto
  show ?case
  proof (cases yes)
    case True
    then show ?thesis using Cons.prems yes by (intro exI [of _ "[]"]) auto
  next
    case False
    then have "latest cl us err cs = Ok x" using Cons.prems yes by auto
    then obtain newer d older where "cs = newer @ d # older" "\<forall>e\<in>set newer. cl e = Ok False"
      "cl d = Ok True" "us d = Ok x"
      using Cons.IH by blast
    then show ?thesis using yes False by (intro exI [of _ "c # newer"]) auto
  qed
qed

text \<open>A successful lookup used an entry that claims the query, and that no newer one claims.\<close>

lemma lookup_sound:
  assumes "lookup s q = Ok x"
  shows "\<exists>older c newer. entries s = older @ c # newer \<and> claims c q = Ok True
     \<and> (\<forall>d\<in>set newer. claims d q = Ok False) \<and> use c q = Ok x"
proof -
  from assms have "latest (\<lambda>c. claims c q) (\<lambda>c. use c q) missing (rev (entries s)) = Ok x"
    by (simp add: lookup_law split: option.splits)
  then obtain newer c older where *: "rev (entries s) = newer @ c # older"
    "\<forall>d\<in>set newer. claims d q = Ok False" "claims c q = Ok True" "use c q = Ok x"
    using latest_Ok by fast
  then have "entries s = rev older @ c # rev newer" by (simp add: rev_swap)
  then show ?thesis using * by (metis set_rev)
qed

text \<open>If exactly one registered entry claims a query, the order of registration does not matter.\<close>

lemma lookup_unique:
  assumes "invalid q = None" "c \<in> set (entries s)" "claims c q = Ok True"
    and "\<forall>d\<in>set (entries s). d \<noteq> c \<longrightarrow> claims d q = Ok False"
  shows "lookup s q = use c q"
proof -
  have "latest (\<lambda>c. claims c q) (\<lambda>c. use c q) missing cs = use c q"
    if "c \<in> set cs" "set cs \<subseteq> set (entries s)" for cs
    using that
  proof (induction cs)
    case Nil
    then show ?case by simp
  next
    case (Cons d cs)
    then show ?case using assms(3,4) by (cases "d = c") auto
  qed
  then show ?thesis using assms(1,2) by (simp add: lookup_law)
qed

lemma lookup_missing:
  assumes "invalid q = None" "\<forall>d\<in>set (entries s). claims d q = Ok False"
  shows "lookup s q = Err missing"
proof -
  have "latest (\<lambda>c. claims c q) (\<lambda>c. use c q) missing cs = Err missing"
    if "set cs \<subseteq> set (entries s)" for cs
    using that assms(2) by (induction cs) auto
  then show ?thesis using assms(1) by (simp add: lookup_law)
qed

end

section \<open>The loops\<close>

lemma take_Suc_nth: "i < length xs \<Longrightarrow> rev (take (Suc i) xs) = xs ! i # rev (take i xs)"
  by (simp add: take_Suc_conv_app_nth)

lemma factory_loop_eq:
  "i \<le> length fs \<Longrightarrow> factory_loop fs i m =
     latest (\<lambda>f. Ok (fac_Supports f m)) (\<lambda>f. fac_New f m) (ErrorNew ''material is not supported'')
       (rev (take i fs))"
  by (induction i) (simp_all add: take_Suc_nth Let_def del: take_Suc)

lemma jose_encoder_loop_eq:
  "i \<le> length es \<Longrightarrow> jose_encoder_loop es i m =
     latest (\<lambda>e. jenc_SupportsMaterial e m) Ok (ErrorNew ''JOSE encoder: material is not supported'')
       (rev (take i es))"
  by (induction i) (auto simp: take_Suc_nth simp del: take_Suc intro!: bind_res_cong)

lemma jose_decoder_loop_eq:
  "i \<le> length ds \<Longrightarrow> jose_decoder_loop ds i kty =
     latest (\<lambda>d. Ok (jdec_SupportsJOSEKeyType d kty)) Ok
       (ErrorNew ''JOSE decoder: key type is not supported'') (rev (take i ds))"
  by (induction i) (simp_all add: take_Suc_nth del: take_Suc)

lemma saml_encoder_loop_eq:
  "i \<le> length es \<Longrightarrow> saml_encoder_loop es i m =
     latest (\<lambda>e. senc_SupportsMaterial e m) Ok (ErrorNew ''SAML encoder: material is not supported'')
       (rev (take i es))"
  by (induction i) (auto simp: take_Suc_nth simp del: take_Suc intro!: bind_res_cong)

lemma saml_decoder_loop_eq:
  "i \<le> length ds \<Longrightarrow> saml_decoder_loop ds i n =
     latest (\<lambda>d. Ok (sdec_SupportsSAMLKeyType d n)) Ok
       (ErrorNew ''SAML decoder: key type is not supported'') (rev (take i ds))"
  by (induction i) (simp_all add: take_Suc_nth del: take_Suc)

text \<open>The nil tests in front of the searches.\<close>

definition nil_material :: "material option \<Rightarrow> error option" where
  "nil_material m = (if m = None then Some (ErrorNew ''nil material'') else None)"

definition nil_or_typed_nil :: "material option \<Rightarrow> error option" where
  "nil_or_typed_nil m =
     (case m of
        None \<Rightarrow> Some (ErrorNew ''nil material'')
      | Some m \<Rightarrow> if isNil m then Some (ErrorNew ''nil material'') else None)"

interpretation factories: latest_registry Regsiter BackendFor reg_factories
    "\<lambda>f m. Ok (fac_Supports f (the m))" "\<lambda>f m. fac_New f (the m)" nil_or_typed_nil
    "ErrorNew ''material is not supported''"
  by unfold_locales
    (auto simp: Regsiter_def BackendFor_def nil_or_typed_nil_def factory_loop_eq split: option.split)

interpretation jose_encoders: latest_registry RegisterJOSEEncoder JOSEEncoderFor joseEncoders
    "\<lambda>e m. jenc_SupportsMaterial e (the m)" "\<lambda>e m. Ok e" nil_material
    "ErrorNew ''JOSE encoder: material is not supported''"
  by unfold_locales
    (auto simp: RegisterJOSEEncoder_def JOSEEncoderFor_def nil_material_def jose_encoder_loop_eq
      split: option.split)

interpretation jose_decoders: latest_registry RegisterJOSEDecoder JOSEDecoderFor joseDecoders
    "\<lambda>d kty. Ok (jdec_SupportsJOSEKeyType d kty)" "\<lambda>d kty. Ok d" "\<lambda>_. None"
    "ErrorNew ''JOSE decoder: key type is not supported''"
  by unfold_locales (auto simp: RegisterJOSEDecoder_def JOSEDecoderFor_def jose_decoder_loop_eq)

interpretation saml_encoders: latest_registry RegisterSAMLEncoder SAMLEncoderFor samlEncoders
    "\<lambda>e m. senc_SupportsMaterial e (the m)" "\<lambda>e m. Ok e" nil_material
    "ErrorNew ''SAML encoder: material is not supported''"
  by unfold_locales
    (auto simp: RegisterSAMLEncoder_def SAMLEncoderFor_def nil_material_def saml_encoder_loop_eq
      split: option.split)

interpretation saml_decoders: latest_registry RegisterSAMLDecoder SAMLDecoderFor samlDecoders
    "\<lambda>d n. Ok (sdec_SupportsSAMLKeyType d n)" "\<lambda>d n. Ok d" "\<lambda>_. None"
    "ErrorNew ''SAML decoder: key type is not supported''"
  by unfold_locales (auto simp: RegisterSAMLDecoder_def SAMLDecoderFor_def saml_decoder_loop_eq)

section \<open>The factories of the repository\<close>

definition ec_factory :: "primitives \<Rightarrow> certificate_parser \<Rightarrow> Factory" where
  "ec_factory prim parse = \<lparr>fac_Supports = ec_factory_Supports, fac_New = ec_factory_New prim parse\<rparr>"

definition rsa_factory :: "primitives \<Rightarrow> certificate_parser \<Rightarrow> Factory" where
  "rsa_factory prim parse = \<lparr>fac_Supports = rsa_factory_Supports, fac_New = rsa_factory_New prim parse\<rparr>"

definition sym_factory :: "primitives \<Rightarrow> certificate_parser \<Rightarrow> Factory" where
  "sym_factory prim parse = \<lparr>fac_Supports = sym_factory_Supports, fac_New = sym_factory_New prim parse\<rparr>"

text \<open>The three \<^verbatim>\<open>init\<close> functions, each registering its factory.\<close>

definition builtin_registry :: "primitives \<Rightarrow> certificate_parser \<Rightarrow> registry" where
  "builtin_registry prim parse =
     Regsiter (Some (sym_factory prim parse)) (Regsiter (Some (rsa_factory prim parse))
       (Regsiter (Some (ec_factory prim parse)) initial_registry))"

lemma factory_simps [simp]:
  "fac_Supports (ec_factory prim parse) = ec_factory_Supports"
  "fac_New (ec_factory prim parse) = ec_factory_New prim parse"
  "fac_Supports (rsa_factory prim parse) = rsa_factory_Supports"
  "fac_New (rsa_factory prim parse) = rsa_factory_New prim parse"
  "fac_Supports (sym_factory prim parse) = sym_factory_Supports"
  "fac_New (sym_factory prim parse) = sym_factory_New prim parse"
  by (simp_all add: ec_factory_def rsa_factory_def sym_factory_def)

lemma ec_Supports_iff:
  "ec_factory_Supports m \<longleftrightarrow>
     (\<exists>k. m = PrivateMaterial (Some (PrivECDSA (Some k))))
     \<or> (\<exists>k. m = PublicMaterial (Some (PubECDSA (Some k))))
     \<or> (\<exists>Cert k. m = CertificateMaterial (Some (Some Cert)) \<and> cert_PublicKey Cert = PubECDSA (Some k))"
  by (cases m rule: ec_factory_Supports.cases) (auto split: public_key.splits)

lemma rsa_Supports_iff:
  "rsa_factory_Supports m \<longleftrightarrow>
     (\<exists>k. m = PrivateMaterial (Some (PrivRSA (Some k))))
     \<or> (\<exists>k. m = PublicMaterial (Some (PubRSA (Some k))))
     \<or> (\<exists>Cert k. m = CertificateMaterial (Some (Some Cert)) \<and> cert_PublicKey Cert = PubRSA (Some k))"
  by (cases m rule: rsa_factory_Supports.cases) (auto split: public_key.splits)

lemma sym_Supports_iff: "sym_factory_Supports m \<longleftrightarrow> (\<exists>k. m = SymmetricMaterial (Some k))"
  by (cases m) (auto simp: sym_factory_Supports_def)

lemmas Supports_iffs = ec_Supports_iff rsa_Supports_iff sym_Supports_iff

lemma one_factory:
  "ec_factory_Supports m \<Longrightarrow> \<not> rsa_factory_Supports m \<and> \<not> sym_factory_Supports m"
  "rsa_factory_Supports m \<Longrightarrow> \<not> ec_factory_Supports m \<and> \<not> sym_factory_Supports m"
  "sym_factory_Supports m \<Longrightarrow> \<not> ec_factory_Supports m \<and> \<not> rsa_factory_Supports m"
  by (auto simp: Supports_iffs)

lemma supported_not_nil:
  "ec_factory_Supports m \<or> rsa_factory_Supports m \<or> sym_factory_Supports m \<Longrightarrow> \<not> isNil m"
  by (auto simp: Supports_iffs)

text \<open>
  A certificate is consistent when parsing its own bytes gives it back, or when it has no bytes or
  unparsable ones (then it is copied field by field).
\<close>

fun material_consistent :: "certificate_parser \<Rightarrow> material \<Rightarrow> bool" where
  "material_consistent parse (CertificateMaterial (Some (Some Cert))) =
     (cert_Raw Cert = [] \<or> (case parse (cert_Raw Cert) of Inl err \<Rightarrow> True | Inr cloned \<Rightarrow> cloned = Cert))"
| "material_consistent parse m = True"

lemma Clone_certificate:
  "material_consistent parse (CertificateMaterial (Some (Some Cert))) \<Longrightarrow>
     Clone parse (CertificateMaterial (Some (Some Cert))) = CertificateMaterial (Some (Some Cert))"
  by (auto split: sum.splits)

lemma clonePrivateKey_kinds:
  "(\<exists>k. clonePrivateKey p = PrivECDSA (Some k)) \<longleftrightarrow> (\<exists>k. p = PrivECDSA (Some k))"
  "(\<exists>k. clonePrivateKey p = PrivRSA (Some k)) \<longleftrightarrow> (\<exists>k. p = PrivRSA (Some k))"
  by (cases p rule: clonePrivateKey.cases; simp)+

text \<open>A supported material gets a backend, and a material that is not supported an error.\<close>

lemma factories_New_ok:
  assumes "material_consistent parse m"
  shows "ec_factory_Supports m \<Longrightarrow> is_ok (ec_factory_New prim parse m)"
    and "rsa_factory_Supports m \<Longrightarrow> is_ok (rsa_factory_New prim parse m)"
    and "sym_factory_Supports m \<Longrightarrow> is_ok (sym_factory_New prim parse m)"
  using assms
  by (auto simp: Supports_iffs ec_factory_New_def rsa_factory_New_def sym_factory_New_def
      Clone_certificate simp del: Clone.simps(6))

lemma Clone_private: "Clone parse m = PrivateMaterial p \<Longrightarrow> \<exists>q. m = PrivateMaterial q"
  by (cases m rule: Clone.cases [of "(parse, m)" for parse m, simplified]) auto

text \<open>
  Whatever a factory makes is one of the backends of its package, and a private one only for
  private material.
\<close>

lemma ec_New_cases:
  assumes "ec_factory_New prim parse m = Ok b"
  shows "(\<exists>k. b = ec_publicBackend prim (PubECDSA (Some k)))
     \<or> ((\<exists>p. m = PrivateMaterial p) \<and> (\<exists>k. b = ec_privateBackend prim (PrivECDSA (Some k))))"
  using assms Clone_private [of parse m]
  by (auto simp: ec_factory_New_def ec_certificateBackend_def
      split: material.splits option.splits private_key.splits public_key.splits)

lemma rsa_New_cases:
  assumes "rsa_factory_New prim parse m = Ok b"
  shows "(\<exists>k. b = rsa_publicBackend prim (PubRSA (Some k)))
     \<or> ((\<exists>p. m = PrivateMaterial p) \<and> (\<exists>k. b = rsa_privateBackend prim (PrivRSA (Some k))))"
  using assms Clone_private [of parse m]
  by (auto simp: rsa_factory_New_def rsa_certificateBackend_def
      split: material.splits option.splits private_key.splits public_key.splits)

lemma sym_New_cases:
  assumes "sym_factory_New prim parse m = Ok b"
  shows "\<exists>k. m = SymmetricMaterial k \<and> (\<exists>key. b = symmetricBackend prim key)"
  using assms
  by (cases m rule: Clone.cases [of "(parse, m)" for parse m, simplified])
    (auto simp: sym_factory_New_def split: material.splits option.splits)

section \<open>Properties\<close>

text \<open>The lookups give precedence to the most recent registration: after an entry that supports the
  argument is registered it is the one used, an entry that does not support it changes nothing, and
  registering nil changes nothing. This holds for backend factories (on material that is not nil) and
  for the JOSE codecs alike.\<close>

theorem registries_latest_first:
  "(fac_Supports f m \<and> \<not> isNil m \<longrightarrow> BackendFor (Regsiter (Some f) r) (Some m) = fac_New f m)
   \<and> (\<not> fac_Supports f m \<longrightarrow> BackendFor (Regsiter (Some f) r) (Some m) = BackendFor r (Some m))
   \<and> Regsiter None r = r
   \<and> (jenc_SupportsMaterial e m = Ok True \<longrightarrow>
        JOSEEncoderFor (RegisterJOSEEncoder (Some e) c) (Some m) = Ok e)
   \<and> (jenc_SupportsMaterial e m = Ok False \<longrightarrow>
        JOSEEncoderFor (RegisterJOSEEncoder (Some e) c) (Some m) = JOSEEncoderFor c (Some m))
   \<and> (jdec_SupportsJOSEKeyType d kty \<longrightarrow>
        JOSEDecoderFor (RegisterJOSEDecoder (Some d) c) kty = Ok d)
   \<and> (\<not> jdec_SupportsJOSEKeyType d kty \<longrightarrow>
        JOSEDecoderFor (RegisterJOSEDecoder (Some d) c) kty = JOSEDecoderFor c kty)"
  using factories.newest_wins [where q = "Some m" and c = f and s = r]
    factories.unclaimed_transparent [where q = "Some m" and c = f and s = r]
    factories.register_nil [of r]
    jose_encoders.newest_wins [where q = "Some m" and c = e and s = c]
    jose_encoders.unclaimed_transparent [where q = "Some m" and c = e and s = c]
    jose_decoders.newest_wins [where q = kty and c = d and s = c]
    jose_decoders.unclaimed_transparent [where q = kty and c = d and s = c]
  by (simp add: nil_or_typed_nil_def nil_material_def)

theorem registries_latest_first_witness:
  "BackendFor (Regsiter (Some (sym_factory (sample_primitives False) (\<lambda>_. Inl (External 0)))) initial_registry)
      (Some (SymmetricMaterial (Some [1])))
    = Ok (symmetricBackend (sample_primitives False) [1])"
  using registries_latest_first [of "sym_factory (sample_primitives False) (\<lambda>_. Inl (External 0))"
      "SymmetricMaterial (Some [1])" initial_registry]
  by (simp add: sym_factory_Supports_def sym_factory_New_def)

lemma BackendFor_any_order:
  assumes "set (reg_factories r) = {ec_factory prim parse, rsa_factory prim parse, sym_factory prim parse}"
  shows "BackendFor r (Some m) =
     (if isNil m then Err (ErrorNew ''nil material'')
      else if ec_factory_Supports m then ec_factory_New prim parse m
      else if rsa_factory_Supports m then rsa_factory_New prim parse m
      else if sym_factory_Supports m then sym_factory_New prim parse m
      else Err (ErrorNew ''material is not supported''))"
proof (cases "isNil m")
  case True
  then show ?thesis by (simp add: BackendFor_def)
next
  case False
  then have valid: "nil_or_typed_nil (Some m) = None" by (simp add: nil_or_typed_nil_def)
  note unique = factories.lookup_unique [OF valid, of _ r, unfolded assms]
  show ?thesis
  proof -
    consider "ec_factory_Supports m" | "rsa_factory_Supports m" | "sym_factory_Supports m"
      | "\<not> ec_factory_Supports m" "\<not> rsa_factory_Supports m" "\<not> sym_factory_Supports m" by blast
    then show ?thesis
    proof cases
      case 1
      then show ?thesis
        using unique [of "ec_factory prim parse"] one_factory(1) [of m] False by simp
    next
      case 2
      then show ?thesis
        using unique [of "rsa_factory prim parse"] one_factory(2) [of m] False by simp
    next
      case 3
      then show ?thesis
        using unique [of "sym_factory prim parse"] one_factory(3) [of m] False by simp
    next
      case 4
      then show ?thesis
        using factories.lookup_missing [OF valid, of r] assms False by simp
    qed
  qed
qed

lemma builtin_factories:
  "set (reg_factories (builtin_registry prim parse)) =
     {ec_factory prim parse, rsa_factory prim parse, sym_factory prim parse}"
  by (auto simp: builtin_registry_def Regsiter_def initial_registry_def)

text \<open>What a backend made by one of the three factories promises its users.\<close>

lemma BackendFor_contract:
  assumes "set (reg_factories r) = {ec_factory prim parse, rsa_factory prim parse, sym_factory prim parse}"
    and "BackendFor r (Some m) = Ok b"
  shows "backend_contract b
     \<and> ((\<forall>p. m \<noteq> PrivateMaterial p) \<and> (\<forall>k. m \<noteq> SymmetricMaterial k) \<longrightarrow>
          backend_Sign b = None \<and> backend_Decrypt b = None)"
proof -
  from assms(2) consider "ec_factory_New prim parse m = Ok b" | "rsa_factory_New prim parse m = Ok b"
    | "sym_factory_New prim parse m = Ok b"
    unfolding BackendFor_any_order [OF assms(1)] by (auto split: if_splits)
  then show ?thesis
  proof cases
    case 1
    then show ?thesis
      using ec_New_cases [OF 1] ec_public.backend_contract_axioms ec_private.backend_contract_axioms
      by (auto simp: ec_publicBackend_def)
  next
    case 2
    then show ?thesis
      using rsa_New_cases [OF 2] rsa_public.backend_contract_axioms rsa_private.backend_contract_axioms
      by (auto simp: rsa_publicBackend_def)
  next
    case 3
    then show ?thesis
      using sym_New_cases [OF 3] sym.backend_contract_axioms by auto
  qed
qed

text \<open>With the three factories of the repository registered, in whatever order and however often,
  finding a backend does not depend on the order: a material gets a backend exactly when it carries an
  RSA or ECDSA key or a certificate of one, or a symmetric key; nothing else does, nil pointers
  included. The certificate is assumed to be what its own bytes parse to.\<close>

theorem backend_for_exact:
  assumes "set (reg_factories r) = {ec_factory prim parse, rsa_factory prim parse, sym_factory prim parse}"
    and "material_consistent parse m"
  shows "BackendFor r (Some m) = BackendFor (builtin_registry prim parse) (Some m)
     \<and> ((\<exists>b. BackendFor r (Some m) = Ok b) \<longleftrightarrow>
          (\<exists>k. m = PrivateMaterial (Some (PrivECDSA (Some k))))
          \<or> (\<exists>k. m = PrivateMaterial (Some (PrivRSA (Some k))))
          \<or> (\<exists>k. m = PublicMaterial (Some (PubECDSA (Some k))))
          \<or> (\<exists>k. m = PublicMaterial (Some (PubRSA (Some k))))
          \<or> (\<exists>Cert k. m = CertificateMaterial (Some (Some Cert))
               \<and> cert_PublicKey Cert = PubECDSA (Some k))
          \<or> (\<exists>Cert k. m = CertificateMaterial (Some (Some Cert))
               \<and> cert_PublicKey Cert = PubRSA (Some k))
          \<or> (\<exists>k. m = SymmetricMaterial (Some k)))"
proof -
  have "(\<exists>b. BackendFor r (Some m) = Ok b) \<longleftrightarrow>
      ec_factory_Supports m \<or> rsa_factory_Supports m \<or> sym_factory_Supports m"
    using factories_New_ok [OF assms(2)] supported_not_nil [of m]
    by (auto simp: BackendFor_any_order [OF assms(1)] is_ok_iff)
  moreover have "BackendFor r (Some m) = BackendFor (builtin_registry prim parse) (Some m)"
    by (simp only: BackendFor_any_order [OF assms(1)] BackendFor_any_order [OF builtin_factories])
  ultimately show ?thesis by (simp add: Supports_iffs) blast
qed

theorem backend_for_exact_witness:
  "\<exists>b. BackendFor \<lparr>reg_factories = [sym_factory (sample_primitives False) (\<lambda>_. Inl (External 0)),
            rsa_factory (sample_primitives False) (\<lambda>_. Inl (External 0)),
            ec_factory (sample_primitives False) (\<lambda>_. Inl (External 0))]\<rparr>
        (Some (SymmetricMaterial (Some [1, 2]))) = Ok b"
proof -
  let ?p = "sample_primitives False" and ?parse = "\<lambda>_. Inl (External 0) :: error + certificate"
  let ?r = "\<lparr>reg_factories = [sym_factory ?p ?parse, rsa_factory ?p ?parse, ec_factory ?p ?parse]\<rparr>"
  have "set (reg_factories ?r) = {ec_factory ?p ?parse, rsa_factory ?p ?parse, sym_factory ?p ?parse}"
    by auto
  note exact = backend_for_exact [OF this, of "SymmetricMaterial (Some [1, 2])"]
  show ?thesis using conjunct2 [OF exact] by simp
qed

text \<open>C20: Every backend that the registered factories make keeps the contract the keystore relies on: its
  capability list and its support test agree, and it implements each operation it claims. One made
  from public material or from a certificate can neither sign nor decrypt.\<close>

theorem backend_for_contract:
  assumes "BackendFor (builtin_registry prim parse) (Some m) = Ok b"
  shows "(backend_Supports b u p a \<longleftrightarrow>
            \<lparr>cap_Use = u, cap_Operation = p, cap_Algorithm = a\<rparr> \<in> set (backend_Capabilities b))
     \<and> (backend_Supports b u KeyOpSign a \<longrightarrow> backend_Sign b \<noteq> None)
     \<and> (backend_Supports b u KeyOpVerify a \<longrightarrow> backend_Verify b \<noteq> None)
     \<and> (backend_Supports b u KeyOpEncrypt a \<longrightarrow> backend_Encrypt b \<noteq> None)
     \<and> (backend_Supports b u KeyOpDecrypt a \<longrightarrow> backend_Decrypt b \<noteq> None)
     \<and> ((\<forall>p. m \<noteq> PrivateMaterial p) \<and> (\<forall>k. m \<noteq> SymmetricMaterial k) \<longrightarrow>
          backend_Sign b = None \<and> backend_Decrypt b = None)"
proof -
  note c = BackendFor_contract [OF builtin_factories assms]
  then have contract: "backend_contract b" by blast
  show ?thesis
    using c backend_contract.supports_listed [OF contract, of u p a]
      backend_contract.implements_sign [OF contract, of u a]
      backend_contract.implements_verify [OF contract, of u a]
      backend_contract.implements_encrypt [OF contract, of u a]
      backend_contract.implements_decrypt [OF contract, of u a]
    by simp
qed

theorem backend_for_contract_witness:
  "\<exists>b. BackendFor (builtin_registry (sample_primitives False) (\<lambda>_. Inl (External 0)))
        (Some (SymmetricMaterial (Some [1]))) = Ok b \<and> backend_Sign b \<noteq> None"
proof -
  let ?b = "symmetricBackend (sample_primitives False) [1]"
  have b: "BackendFor (builtin_registry (sample_primitives False) (\<lambda>_. Inl (External 0)))
      (Some (SymmetricMaterial (Some [1]))) = Ok ?b"
    unfolding BackendFor_any_order [OF builtin_factories]
    by (simp add: sym_factory_Supports_def sym_factory_New_def)
  have "backend_Supports ?b KeyUseSigning KeyOpSign HS256"
    by (simp add: symmetricBackend_def sym_supports_iff)
  then show ?thesis using backend_for_contract [OF b, of KeyUseSigning KeyOpSign HS256] b by blast
qed

end
