(* ===== verification/Keystore.thy ===== *)
theory Keystore
  imports Keyset Registry
begin

text \<open>
  The operations of the keystore's client interface (\<^verbatim>\<open>keystore/keystore_api.go\<close> and the runtime
  options): the selection of one key for an operation, and signing, verification, encryption and
  decryption with it. The life cycle of the store (sources, refreshes, closing) is in the theory
  \<open>Store_Lifecycle\<close>.
\<close>

section \<open>The store and the options of an operation\<close>

record operationQuery =
  query_Keys :: Selector
  query_Algorithms :: "KeyAlg list"

type_synonym KeystoreRuntimeOption = "operationQuery \<Rightarrow> operationQuery"

text \<open>
  A source is an object with its own state; the store holds a reference to it. \<open>bindWG\<close> is the counter
  of the wait group, and \<open>closeOnce\<close> records whether the body of \<^verbatim>\<open>Close\<close> has been entered.
\<close>

type_synonym source = nat

record store =
  repository :: keySet
  sources :: "string \<rightharpoonup> source"
  loading :: "string \<rightharpoonup> source"
  bindWG :: nat
  closeOnce :: bool
  closeErr :: "error option"
  closed :: bool
  runtimeOptions :: "KeystoreRuntimeOption option list"

definition zero_operationQuery :: operationQuery where
  "zero_operationQuery = \<lparr>query_Keys = zero_Selector, query_Algorithms = []\<rparr>"

definition WithKeys :: "Selector \<Rightarrow> KeystoreRuntimeOption" where
  "WithKeys selector = (\<lambda>options. options\<lparr>query_Keys := selector\<rparr>)"

definition WithAlgorithms :: "KeyAlg list \<Rightarrow> KeystoreRuntimeOption" where
  "WithAlgorithms algorithms = (\<lambda>options. options\<lparr>query_Algorithms := [] @ algorithms\<rparr>)"

text \<open>A nil option is not skipped here: calling it panics.\<close>

fun apply_options :: "KeystoreRuntimeOption option list \<Rightarrow> operationQuery \<Rightarrow> operationQuery res" where
  "apply_options [] request = Ok request"
| "apply_options (None # options) request = Panic ''nil pointer dereference''"
| "apply_options (Some opt # options) request = apply_options options (opt request)"

definition operation_request ::
    "store \<Rightarrow> KeystoreRuntimeOption option list \<Rightarrow> operationQuery res" where
  "operation_request k options =
     bind_res (apply_options (runtimeOptions k) zero_operationQuery) (apply_options options)"

section \<open>Selecting a key\<close>

definition operation_use :: "KeyOperation \<Rightarrow> KeyUse" where
  "operation_use operation =
     (if operation = KeyOpEncrypt \<or> operation = KeyOpDecrypt then KeyUseEncryption else KeyUseSigning)"

definition eligible_selector :: "Selector \<Rightarrow> time \<Rightarrow> KeyOperation \<Rightarrow> KeyAlg \<Rightarrow> Selector" where
  "eligible_selector selector now operation algorithm =
     (let eligible = And selector
            [Some (WithoutStatus KeyStatusDisabled),
             Some (WithValidityAt now),
             Some (WithCapability \<lparr>cap_Use = operation_use operation, cap_Operation = operation,
                                    cap_Algorithm = algorithm\<rparr>)]
      in if operation = KeyOpSign \<or> operation = KeyOpEncrypt
         then And eligible [Some (WithoutStatus KeyStatusPassive)]
         else eligible)"

fun matching :: "Selector \<Rightarrow> Key list \<Rightarrow> Key list \<Rightarrow> Key list" where
  "matching eligible [] matches = matches"
| "matching eligible (candidate # candidates) matches =
     (if Matches eligible candidate then matching eligible candidates (matches @ [candidate])
      else matching eligible candidates matches)"

fun algorithm_loop ::
    "Selector \<Rightarrow> time \<Rightarrow> KeyOperation \<Rightarrow> Key list \<Rightarrow> KeyAlg list \<Rightarrow> KeyAlg list \<Rightarrow> (Key \<times> KeyAlg) res" where
  "algorithm_loop selector now operation candidates algorithms [] =
     Err (Errorf ''keystore: no eligible key supports operation %q and algorithms %v''
            [StrArg operation, StrsArg algorithms])"
| "algorithm_loop selector now operation candidates algorithms (algorithm # rest) =
     (let matches = matching (eligible_selector selector now operation algorithm) candidates [] in
      if length matches = 0
      then algorithm_loop selector now operation candidates algorithms rest
      else if length matches > 1 \<and> key_priority (matches ! 0) = key_priority (matches ! 1)
      then Err (Errorf ''keystore: multiple keys with priority %d support operation %q and algorithm %q''
                  [IntArg (key_priority (matches ! 0)), StrArg operation, StrArg algorithm])
      else Ok (matches ! 0, algorithm))"

definition selectKey ::
    "store option \<Rightarrow> time \<Rightarrow> ctxt \<Rightarrow> KeyOperation \<Rightarrow> Selector \<Rightarrow> KeyAlg list \<Rightarrow> (Key \<times> KeyAlg) res" where
  "selectKey k now ctx operation selector algorithms =
     (case k of
        None \<Rightarrow> Err (Errorf ''keystore: not initialized'' [])
      | Some m \<Rightarrow>
          bind_res (map_err (Wrapf ''keystore: find key: %w'' []) (Find ctx (repository m) selector))
            (\<lambda>candidates.
               algorithm_loop selector now operation (SliceStable_desc key_priority candidates)
                 algorithms algorithms))"

definition Keys :: "store \<Rightarrow> ctxt \<Rightarrow> Selector \<Rightarrow> Key list res" where
  "Keys m ctx selector = Find ctx (repository m) selector"

section \<open>The operations\<close>

text \<open>
  The closure that \<^verbatim>\<open>Signer\<close> returns: the variables it captured, apart from the flag \<^verbatim>\<open>used\<close>, which
  is its state. Of the checks of the captured context, the first one was made by the selection.
\<close>

record SignFunc =
  sf_id :: string
  sf_algorithm :: KeyAlg
  sf_ctx :: ctxt
  sf_signer :: "ctxt \<Rightarrow> entropy \<Rightarrow> KeyAlg \<Rightarrow> bytes \<Rightarrow> bytes res"

definition Signer ::
    "certificate_parser \<Rightarrow> store option \<Rightarrow> time \<Rightarrow> ctxt \<Rightarrow> KeystoreRuntimeOption option list
       \<Rightarrow> (KeyDescriptor \<times> SignFunc) res" where
  "Signer parse k now ctx options =
     (case k of
        None \<Rightarrow> Panic ''nil pointer dereference''
      | Some m \<Rightarrow>
          bind_res (operation_request m options) (\<lambda>request.
          if length (query_Algorithms request) = 0
          then Err (Errorf ''keystore: signing algorithms are empty'' [])
          else
            bind_res (selectKey k now ctx KeyOpSign (query_Keys request) (query_Algorithms request))
              (\<lambda>(selected, algorithm).
            case Option.bind (key_backend selected) backend_Sign of
              None \<Rightarrow> Err (Errorf ''keystore: backend for key %q does not implement signing''
                             [StrArg (key_id selected)])
            | Some signer \<Rightarrow>
                bind_res (Descriptor parse selected algorithm) (\<lambda>descriptor.
                Ok (descriptor, \<lparr>sf_id = key_id selected, sf_algorithm = algorithm,
                                 sf_ctx = later 1 ctx, sf_signer = signer\<rparr>)))))"

text \<open>One call of the closure: the compare-and-swap on \<^verbatim>\<open>used\<close> decides whether it may sign.\<close>

definition call_SignFunc ::
    "SignFunc \<Rightarrow> entropy \<Rightarrow> bool \<Rightarrow> bytes \<Rightarrow> bool \<times> bytes res" where
  "call_SignFunc sf rand used message =
     (if used
      then (used, Err (Errorf ''keystore: signer for key %q has already been used'' [StrArg (sf_id sf)]))
      else (True,
            map_err (Wrapf ''keystore: sign with key %q and algorithm %q: %w''
                       [StrArg (sf_id sf), StrArg (sf_algorithm sf)])
              (sf_signer sf (sf_ctx sf) rand (sf_algorithm sf) message)))"

definition Verify ::
    "store option \<Rightarrow> time \<Rightarrow> ctxt \<Rightarrow> bytes \<Rightarrow> bytes \<Rightarrow> KeystoreRuntimeOption option list \<Rightarrow> unit res" where
  "Verify k now ctx message signature options =
     (case k of
        None \<Rightarrow> Panic ''nil pointer dereference''
      | Some m \<Rightarrow>
          bind_res (operation_request m options) (\<lambda>request.
          if length (query_Algorithms request) = 0
          then Err (Errorf ''keystore: verification algorithm is empty'' [])
          else
            bind_res (selectKey k now ctx KeyOpVerify (query_Keys request) (query_Algorithms request))
              (\<lambda>(selected, algorithm).
            case Option.bind (key_backend selected) backend_Verify of
              None \<Rightarrow> Err (Errorf ''keystore: backend for key %q does not implement signature verification''
                             [StrArg (key_id selected)])
            | Some verifier \<Rightarrow>
                map_err (Wrapf ''keystore: verify with key %q and algorithm %q: %w''
                           [StrArg (key_id selected), StrArg algorithm])
                  (verifier (later 1 ctx) algorithm signature message))))"

record EncryptResult =
  er_Ciphertext :: bytes
  er_Key :: KeyDescriptor

definition Encrypt ::
    "certificate_parser \<Rightarrow> store option \<Rightarrow> time \<Rightarrow> ctxt \<Rightarrow> entropy \<Rightarrow> bytes
       \<Rightarrow> KeystoreRuntimeOption option list \<Rightarrow> EncryptResult res" where
  "Encrypt parse k now ctx rand plaintext options =
     (case k of
        None \<Rightarrow> Panic ''nil pointer dereference''
      | Some m \<Rightarrow>
          bind_res (operation_request m options) (\<lambda>request.
          if length (query_Algorithms request) = 0
          then Err (Errorf ''keystore: encryption algorithms are empty'' [])
          else
            bind_res (selectKey k now ctx KeyOpEncrypt (query_Keys request) (query_Algorithms request))
              (\<lambda>(selected, algorithm).
            case Option.bind (key_backend selected) backend_Encrypt of
              None \<Rightarrow> Err (Errorf ''keystore: backend for key %q does not implement encryption''
                             [StrArg (key_id selected)])
            | Some encrypter \<Rightarrow>
                bind_res (map_err (Wrapf ''keystore: encrypt with key %q and algorithm %q: %w''
                                     [StrArg (key_id selected), StrArg algorithm])
                            (encrypter (later 1 ctx) rand algorithm plaintext)) (\<lambda>ciphertext.
                bind_res (Descriptor parse selected algorithm) (\<lambda>descriptor.
                Ok \<lparr>er_Ciphertext = ciphertext, er_Key = descriptor\<rparr>)))))"

definition Decrypt ::
    "store option \<Rightarrow> time \<Rightarrow> ctxt \<Rightarrow> bytes \<Rightarrow> KeystoreRuntimeOption option list \<Rightarrow> bytes res" where
  "Decrypt k now ctx ciphertext options =
     (case k of
        None \<Rightarrow> Panic ''nil pointer dereference''
      | Some m \<Rightarrow>
          bind_res (operation_request m options) (\<lambda>request.
          if length (query_Algorithms request) = 0
          then Err (Errorf ''keystore: decryption algorithms are empty'' [])
          else
            bind_res (selectKey k now ctx KeyOpDecrypt (query_Keys request) (query_Algorithms request))
              (\<lambda>(selected, algorithm).
            case Option.bind (key_backend selected) backend_Decrypt of
              None \<Rightarrow> Err (Errorf ''keystore: backend for key %q does not implement decryption''
                             [StrArg (key_id selected)])
            | Some decrypter \<Rightarrow>
                map_err (Wrapf ''keystore: decrypt with key %q and algorithm %q: %w''
                           [StrArg (key_id selected), StrArg algorithm])
                  (decrypter (later 1 ctx) algorithm ciphertext))))"

section \<open>Eligibility\<close>

text \<open>The specification of the keys an operation may use with an algorithm.\<close>

definition eligible :: "Selector \<Rightarrow> time \<Rightarrow> KeyOperation \<Rightarrow> KeyAlg \<Rightarrow> Key \<Rightarrow> bool" where
  "eligible selector now operation algorithm k \<longleftrightarrow>
     Matches selector k
     \<and> key_status k \<noteq> KeyStatusDisabled
     \<and> (operation \<in> {KeyOpSign, KeyOpEncrypt} \<longrightarrow> key_status k \<noteq> KeyStatusPassive)
     \<and> (key_notBefore k = 0 \<or> key_notBefore k \<le> now) \<and> (key_notAfter k = 0 \<or> now \<le> key_notAfter k)
     \<and> (\<exists>b. key_backend k = Some b
          \<and> backend_Supports b (operation_use operation) operation algorithm)
     \<and> (key_restrictions k = []
        \<or> \<lparr>cap_Use = operation_use operation, cap_Operation = operation, cap_Algorithm = algorithm\<rparr>
            \<in> set (key_restrictions k))"

lemma eligible_selector_iff:
  "Matches (eligible_selector selector now operation algorithm) k
     \<longleftrightarrow> eligible selector now operation algorithm k"
  by (simp add: eligible_selector_def eligible_def Let_def select_simps List.map_filter_simps)
    (blast dest: sym)

lemma matching_eq: "matching s ks ms = ms @ filter (Matches s) ks"
  by (induction ks arbitrary: ms) auto

text \<open>
  The choice of the loop on the keys that are eligible for one algorithm: the first in order of
  priority, unless the second has the same priority.
\<close>

definition pick_key :: "KeyOperation \<Rightarrow> KeyAlg \<Rightarrow> Key list \<Rightarrow> (Key \<times> KeyAlg) res" where
  "pick_key operation algorithm matches =
     (if length matches > 1 \<and> key_priority (matches ! 0) = key_priority (matches ! 1)
      then Err (Errorf ''keystore: multiple keys with priority %d support operation %q and algorithm %q''
                  [IntArg (key_priority (matches ! 0)), StrArg operation, StrArg algorithm])
      else Ok (matches ! 0, algorithm))"

lemma pick_key_Ok_iff:
  assumes "sorted_wrt (\<lambda>x y. key_priority y \<le> key_priority x) ms" "ms \<noteq> []"
  shows "pick_key operation algorithm ms = Ok (k, a) \<longleftrightarrow>
     a = algorithm \<and> filter (\<lambda>x. key_priority k \<le> key_priority x) ms = [k]"
proof -
  obtain h t where ms: "ms = h # t" using assms(2) by (cases ms) auto
  have below: "\<forall>x\<in>set t. key_priority x \<le> key_priority h"
    using assms(1) ms by simp
  have gap: "(\<forall>x\<in>set t. key_priority x < key_priority h)
      \<longleftrightarrow> \<not> (length ms > 1 \<and> key_priority (ms ! 0) = key_priority (ms ! 1))"
    using assms(1) below ms by (cases t) fastforce+
  have "filter (\<lambda>x. key_priority k \<le> key_priority x) ms = [k]
      \<longleftrightarrow> k = h \<and> (\<forall>x\<in>set t. key_priority x < key_priority h)"
  proof
    assume f: "filter (\<lambda>x. key_priority k \<le> key_priority x) ms = [k]"
    then have "k \<in> set (filter (\<lambda>x. key_priority k \<le> key_priority x) ms)" by simp
    then have "k \<in> set ms" by simp
    then have "key_priority k \<le> key_priority h" using ms below by auto
    then have "k = h" "filter (\<lambda>x. key_priority k \<le> key_priority x) t = []" using f ms by auto
    then show "k = h \<and> (\<forall>x\<in>set t. key_priority x < key_priority h)"
      by (auto simp: filter_empty_conv not_le)
  next
    assume "k = h \<and> (\<forall>x\<in>set t. key_priority x < key_priority h)"
    then show "filter (\<lambda>x. key_priority k \<le> key_priority x) ms = [k]"
      using ms by (auto simp: filter_empty_conv not_le)
  qed
  then show ?thesis using gap ms by (auto simp: pick_key_def)
qed

lemma filter_stable_singleton:
  "filter P (SliceStable_desc f xs) = [k] \<longleftrightarrow> filter P xs = [k]"
proof -
  have "mset (filter P (SliceStable_desc f xs)) = mset (filter P xs)"
    by (simp add: mset_filter)
  then show ?thesis by (metis mset_single_iff)
qed

text \<open>The candidates of one algorithm, in the order the loop sees them.\<close>

definition ranked :: "Selector \<Rightarrow> time \<Rightarrow> KeyOperation \<Rightarrow> Key list \<Rightarrow> KeyAlg \<Rightarrow> Key list" where
  "ranked selector now operation keys algorithm =
     SliceStable_desc key_priority (filter (eligible selector now operation algorithm) keys)"

lemma eligible_matches: "eligible selector now operation a k \<Longrightarrow> Matches selector k"
  by (simp add: eligible_def)

lemma matching_ranked:
  "matching (eligible_selector selector now operation a)
      (SliceStable_desc key_priority (filter (Matches selector) keys)) []
     = ranked selector now operation keys a"
proof -
  have "filter (eligible selector now operation a) (filter (Matches selector) keys)
      = filter (eligible selector now operation a) keys"
    by (auto simp: eligible_matches intro: filter_cong)
  then show ?thesis
    by (simp add: matching_eq eligible_selector_iff ranked_def filter_SliceStable_desc)
qed

lemma ranked_empty_iff:
  "ranked selector now operation keys a = [] \<longleftrightarrow> (\<forall>k\<in>set keys. \<not> eligible selector now operation a k)"
proof -
  have "ranked selector now operation keys a = [] \<longleftrightarrow> set (ranked selector now operation keys a) = {}"
    by simp
  then show ?thesis by (simp only: ranked_def set_SliceStable_desc) auto
qed

text \<open>The loop over the algorithms, in terms of the ranked candidates of each.\<close>

lemma algorithm_loop_eq:
  "algorithm_loop selector now operation
      (SliceStable_desc key_priority (filter (Matches selector) keys)) algorithms rest =
     (case dropWhile (\<lambda>a. ranked selector now operation keys a = []) rest of
        [] \<Rightarrow> Err (Errorf ''keystore: no eligible key supports operation %q and algorithms %v''
                     [StrArg operation, StrsArg algorithms])
      | a # _ \<Rightarrow> pick_key operation a (ranked selector now operation keys a))"
  by (induction rest) (simp_all add: matching_ranked pick_key_def Let_def)

lemma selectKey_eq:
  "selectKey (Some m) now ctx operation selector algorithms =
     (case ctx 0 of
        Some err \<Rightarrow> Err (Wrapf ''keystore: find key: %w'' [] err)
      | None \<Rightarrow>
          (case dropWhile (\<lambda>a. ranked selector now operation (ks_keys (repository m)) a = []) algorithms of
             [] \<Rightarrow> Err (Errorf ''keystore: no eligible key supports operation %q and algorithms %v''
                          [StrArg operation, StrsArg algorithms])
           | a # _ \<Rightarrow> pick_key operation a (ranked selector now operation (ks_keys (repository m)) a)))"
  by (simp add: selectKey_def Find_eq algorithm_loop_eq split: option.split)

lemma pick_key_Err_iff:
  assumes "sorted_wrt (\<lambda>x y. key_priority y \<le> key_priority x) ms" "ms \<noteq> []"
  shows "pick_key operation algorithm ms = Err e \<longleftrightarrow>
     (\<exists>p. (\<forall>x\<in>set ms. key_priority x \<le> p) \<and> 2 \<le> length (filter (\<lambda>x. key_priority x = p) ms)
        \<and> e = Errorf ''keystore: multiple keys with priority %d support operation %q and algorithm %q''
                [IntArg p, StrArg operation, StrArg algorithm])"
    (is "?L \<longleftrightarrow> (\<exists>p. ?R p)")
proof -
  obtain h t where ms: "ms = h # t" using assms(2) by (cases ms) auto
  have below: "\<forall>x\<in>set t. key_priority x \<le> key_priority h"
    using assms(1) ms by simp
  show ?thesis
  proof
    assume ?L
    then obtain x u where t: "t = x # u" "key_priority x = key_priority h"
      and e: "e = Errorf ''keystore: multiple keys with priority %d support operation %q and algorithm %q''
                [IntArg (key_priority h), StrArg operation, StrArg algorithm]"
      using ms by (cases t) (auto simp: pick_key_def split: if_splits)
    have "?R (key_priority h)" using ms t below e by simp
    then show "\<exists>p. ?R p" by blast
  next
    assume "\<exists>p. ?R p"
    then obtain p where p: "?R p" by blast
    then have "filter (\<lambda>x. key_priority x = p) ms \<noteq> []" by auto
    then obtain y where "y \<in> set ms" "key_priority y = p" by (auto simp: filter_empty_conv)
    then have h: "key_priority h = p" using p ms below by force
    then have "filter (\<lambda>x. key_priority x = p) t \<noteq> []" using p ms by auto
    then obtain z where z: "z \<in> set t" "key_priority z = p" by (auto simp: filter_empty_conv)
    then obtain x u where t: "t = x # u" by (cases t) auto
    have "key_priority x = p" using z t h below assms(1) ms by fastforce
    then show ?L using p ms t h by (simp add: pick_key_def)
  qed
qed

lemma pick_key_not_Panic: "pick_key operation algorithm ms \<noteq> Panic s"
  by (simp add: pick_key_def)

lemma pick_key_mset:
  assumes "sorted_wrt (\<lambda>x y. key_priority y \<le> key_priority x) ms"
    and "sorted_wrt (\<lambda>x y. key_priority y \<le> key_priority x) ms'"
    and m: "mset ms = mset ms'" and ne: "ms \<noteq> []"
  shows "pick_key operation algorithm ms = pick_key operation algorithm ms'"
proof -
  have ne': "ms' \<noteq> []" using m ne by auto
  have filters: "mset (filter P ms) = mset (filter P ms')" for P
    using m by (rule mset_filter_eq)
  then have one: "filter P ms = [k] \<longleftrightarrow> filter P ms' = [k]" for P k by (metis mset_single_iff)
  have len: "length (filter P ms) = length (filter P ms')" for P by (metis filters size_mset)
  have sets: "set ms = set ms'" using m by (metis set_mset_mset)
  show ?thesis
  proof (cases "pick_key operation algorithm ms")
    case (Ok x)
    then obtain k a where x: "x = (k, a)" "pick_key operation algorithm ms = Ok (k, a)" by (cases x) auto
    then have "pick_key operation algorithm ms' = Ok (k, a)"
      using one by (simp only: pick_key_Ok_iff [OF assms(1) ne] pick_key_Ok_iff [OF assms(2) ne'])
    with x show ?thesis by simp
  next
    case (Err e)
    then have "pick_key operation algorithm ms' = Err e"
      by (simp only: pick_key_Err_iff [OF assms(1) ne] pick_key_Err_iff [OF assms(2) ne'] len sets)
    with Err show ?thesis by simp
  next
    case (Panic s)
    then show ?thesis using pick_key_not_Panic by simp
  qed
qed

lemma sorted_ranked:
  "sorted_wrt (\<lambda>x y. key_priority y \<le> key_priority x) (ranked selector now operation keys a)"
  by (simp add: ranked_def sorted_SliceStable_desc)

lemma mset_ranked:
  "mset (ranked selector now operation keys a) = mset (filter (eligible selector now operation a) keys)"
  by (simp add: ranked_def)

lemma selectKey_Ok_iff:
  "selectKey (Some m) now ctx operation selector algorithms = Ok (k, a) \<longleftrightarrow>
     ctx 0 = None
     \<and> (\<exists>pre post. algorithms = pre @ a # post
          \<and> (\<forall>b\<in>set pre. \<forall>k'\<in>set (ks_keys (repository m)). \<not> eligible selector now operation b k'))
     \<and> filter (\<lambda>k'. eligible selector now operation a k' \<and> key_priority k \<le> key_priority k')
          (ks_keys (repository m)) = [k]"
  (is "?L \<longleftrightarrow> ?R")
proof -
  let ?keys = "ks_keys (repository m)"
  let ?E = "\<lambda>b. ranked selector now operation ?keys b = []"
  let ?top = "filter (\<lambda>k'. eligible selector now operation a k' \<and> key_priority k \<le> key_priority k') ?keys"
  have top: "filter (\<lambda>x. key_priority k \<le> key_priority x) (ranked selector now operation ?keys a) = [k]
      \<longleftrightarrow> ?top = [k]"
    by (simp add: ranked_def filter_stable_singleton conj_commute)
  have nonempty: "?top = [k] \<Longrightarrow> \<not> ?E a"
  proof -
    assume "?top = [k]"
    then have "k \<in> set ?top" by simp
    then show "\<not> ?E a" by (auto simp: ranked_empty_iff)
  qed
  have pick: "pick_key operation a' (ranked selector now operation ?keys a') = Ok (k, a) \<longleftrightarrow>
      a' = a \<and> ?top = [k]" if "\<not> ?E a'" for a'
    using pick_key_Ok_iff [OF sorted_ranked that] top by (cases "a' = a") simp_all
  have "?L \<longleftrightarrow> ctx 0 = None \<and> (\<exists>post. dropWhile ?E algorithms = a # post) \<and> ?top = [k]"
  proof (cases "dropWhile ?E algorithms")
    case Nil
    then show ?thesis unfolding selectKey_eq Nil by (simp split: option.split)
  next
    case (Cons a' post)
    note picked = pick [OF dropWhile_ConsD [OF Cons]]
    show ?thesis
      unfolding selectKey_eq Cons by (cases "ctx 0") (auto simp: picked)
  qed
  also have "\<dots> \<longleftrightarrow> ?R"
    using nonempty by (simp only: dropWhile_eq_split [symmetric]) (auto simp: ranked_empty_iff)
  finally show ?thesis .
qed

section \<open>A sample store\<close>

text \<open>Keys and stores for evaluating the operations on examples: symmetric keys without restrictions.\<close>

definition sample_parser :: certificate_parser where
  "sample_parser der = Inl (External 0)"

definition sample_candidate :: "string \<Rightarrow> KeyStatus \<Rightarrow> int \<Rightarrow> KeyCandidate" where
  "sample_candidate kid status priority = \<lparr>
     cand_ID = kid, cand_Owner = [], cand_Source = ''s'', cand_Restrictions = [], cand_Status = status,
     cand_Priority = priority, cand_NotBefore = 0, cand_NotAfter = 0,
     cand_Material = Some (SymmetricMaterial (Some (replicate 32 1)))\<rparr>"

definition sample_key :: "string \<Rightarrow> KeyStatus \<Rightarrow> int \<Rightarrow> Key" where
  "sample_key kid status priority =
     key_New sample_parser (sample_candidate kid status priority)
       (Some (symmetricBackend (sample_primitives False) (replicate 32 1)))"

definition sample_store :: "Key list \<Rightarrow> store" where
  "sample_store keys = \<lparr>
     repository = \<lparr>ks_keys = keys\<rparr>, sources = Map.empty, loading = Map.empty, bindWG = 0,
     closeOnce = False, closeErr = None, closed = False, runtimeOptions = []\<rparr>"

lemma sample_store_simps [simp]:
  "ks_keys (repository (sample_store keys)) = keys" "runtimeOptions (sample_store keys) = []"
  by (simp_all add: sample_store_def)

lemma sample_key_simps [simp]:
  "key_id (sample_key kid st p) = kid" "key_status (sample_key kid st p) = st"
  "key_priority (sample_key kid st p) = p" "key_restrictions (sample_key kid st p) = []"
  "key_backend (sample_key kid st p)
     = Some (symmetricBackend (sample_primitives False) (replicate 32 1))"
  by (simp_all add: sample_key_def sample_candidate_def)

lemma sample_eligible:
  "eligible selector now operation a (sample_key kid st p) \<longleftrightarrow>
     Matches selector (sample_key kid st p) \<and> st \<noteq> KeyStatusDisabled
     \<and> (operation \<in> {KeyOpSign, KeyOpEncrypt} \<longrightarrow> st \<noteq> KeyStatusPassive)
     \<and> ((operation \<in> {KeyOpSign, KeyOpVerify} \<and> a \<in> {HS256, HS384, HS512})
        \<or> (operation \<in> {KeyOpEncrypt, KeyOpDecrypt} \<and> a \<in> {A128GCM, A192GCM, A256GCM}))"
proof -
  have "key_notBefore (sample_key kid st p) = 0" "key_notAfter (sample_key kid st p) = 0"
    by (simp_all add: sample_key_def sample_candidate_def)
  then show ?thesis
    by (auto simp: eligible_def symmetricBackend_def sym_supports_iff operation_use_def op_defs use_defs)
qed

section \<open>Properties of the selection\<close>

text \<open>C1: The selection of a key is exact. It succeeds with a key and an algorithm if and only if the
  context is live, the algorithm is the first one in the caller's order for which the repository holds
  an eligible key, and the key is the only eligible one for it with the highest priority. A key is
  eligible when it matches the caller's selector, is not disabled (nor passive, for signing and
  encryption), is valid at the current time, and has a backend that supports the capability, which its
  restrictions, if any, must list.\<close>

theorem selectKey_exact:
  "selectKey (Some m) now ctx operation selector algorithms = Ok (k, a) \<longleftrightarrow>
     ctx 0 = None
     \<and> (\<exists>pre post. algorithms = pre @ a # post
          \<and> (\<forall>b\<in>set pre. \<forall>k'\<in>set (ks_keys (repository m)). \<not> eligible selector now operation b k'))
     \<and> filter (\<lambda>k'. eligible selector now operation a k' \<and> key_priority k \<le> key_priority k')
          (ks_keys (repository m)) = [k]"
  by (rule selectKey_Ok_iff)

theorem selectKey_exact_witness:
  "selectKey (Some (sample_store [sample_key ''a'' KeyStatusActive 1, sample_key ''b'' KeyStatusActive 2,
        sample_key ''c'' KeyStatusPassive 3]))
      0 background KeyOpSign zero_Selector [A256GCM, HS256] = Ok (sample_key ''b'' KeyStatusActive 2, HS256)"
proof -
  let ?keys = "[sample_key ''a'' KeyStatusActive 1, sample_key ''b'' KeyStatusActive 2,
        sample_key ''c'' KeyStatusPassive 3]"
  have none: "\<forall>k'\<in>set ?keys. \<not> eligible zero_Selector 0 KeyOpSign A256GCM k'"
    by (simp add: sample_eligible sym_algs op_defs)
  have "filter (\<lambda>k'. eligible zero_Selector 0 KeyOpSign HS256 k'
      \<and> key_priority (sample_key ''b'' KeyStatusActive 2) \<le> key_priority k') ?keys
      = [sample_key ''b'' KeyStatusActive 2]"
    by (simp add: sample_eligible status_defs op_defs)
  then show ?thesis
    unfolding selectKey_exact sample_store_simps
    using none by (intro conjI exI [of _ "[A256GCM]"] exI [of _ "[]"]) simp_all
qed

lemma selectKey_mset:
  assumes "mset (ks_keys (repository m)) = mset (ks_keys (repository m'))"
  shows "selectKey (Some m) now ctx operation selector algorithms
     = selectKey (Some m') now ctx operation selector algorithms"
proof -
  let ?r = "ranked selector now operation (ks_keys (repository m))"
  let ?r' = "ranked selector now operation (ks_keys (repository m'))"
  have m: "mset (?r a) = mset (?r' a)" for a
    using mset_filter_eq [OF assms] by (simp add: mset_ranked)
  then have empty: "?r a = [] \<longleftrightarrow> ?r' a = []" for a by (metis mset_zero_iff)
  have "pick_key operation a (?r a) = pick_key operation a (?r' a)" if "?r a \<noteq> []" for a
    by (rule pick_key_mset [OF sorted_ranked sorted_ranked m that])
  moreover have "dropWhile (\<lambda>a. ?r a = []) algorithms = a # post \<Longrightarrow> ?r a \<noteq> []" for a post
    by (rule dropWhile_ConsD)
  ultimately have "(case dropWhile (\<lambda>a. ?r a = []) algorithms of [] \<Rightarrow> none | a # _ \<Rightarrow> pick_key operation a (?r a))
      = (case dropWhile (\<lambda>a. ?r a = []) algorithms of [] \<Rightarrow> none | a # _ \<Rightarrow> pick_key operation a (?r' a))"
    for none
    by (cases "dropWhile (\<lambda>a. ?r a = []) algorithms") (simp_all del: dropWhile_eq_Nil_conv)
  then show ?thesis
    unfolding selectKey_eq empty [symmetric] by (cases "ctx 0") simp_all
qed

text \<open>The selection does not depend on the order in which keys were loaded: on two repositories
  holding the same keys in different orders it returns the same key and algorithm, or the same error.\<close>

theorem selectKey_order_independent:
  assumes "mset (ks_keys (repository m)) = mset (ks_keys (repository m'))"
  shows "selectKey (Some m) now ctx operation selector algorithms
     = selectKey (Some m') now ctx operation selector algorithms"
  using assms by (rule selectKey_mset)

theorem selectKey_order_independent_witness:
  "selectKey (Some (sample_store [sample_key ''a'' KeyStatusActive 1, sample_key ''b'' KeyStatusActive 2]))
      0 background KeyOpSign zero_Selector [HS256]
   = selectKey (Some (sample_store [sample_key ''b'' KeyStatusActive 2, sample_key ''a'' KeyStatusActive 1]))
      0 background KeyOpSign zero_Selector [HS256]"
  by (rule selectKey_order_independent) simp

lemma selectKey_Err_iff:
  assumes "ctx 0 = None"
  shows "selectKey (Some m) now ctx operation selector algorithms = Err e \<longleftrightarrow>
     ((\<forall>b\<in>set algorithms. \<forall>k\<in>set (ks_keys (repository m)). \<not> eligible selector now operation b k)
        \<and> e = Errorf ''keystore: no eligible key supports operation %q and algorithms %v''
               [StrArg operation, StrsArg algorithms])
     \<or> (\<exists>pre a post p. algorithms = pre @ a # post
          \<and> (\<forall>b\<in>set pre. \<forall>k\<in>set (ks_keys (repository m)). \<not> eligible selector now operation b k)
          \<and> (\<forall>k\<in>set (ks_keys (repository m)). eligible selector now operation a k \<longrightarrow> key_priority k \<le> p)
          \<and> 2 \<le> length (filter (\<lambda>k. eligible selector now operation a k \<and> key_priority k = p)
                  (ks_keys (repository m)))
          \<and> e = Errorf ''keystore: multiple keys with priority %d support operation %q and algorithm %q''
                 [IntArg p, StrArg operation, StrArg a])"
    (is "?L \<longleftrightarrow> ?none \<or> ?ambiguous")
proof -
  let ?keys = "ks_keys (repository m)"
  let ?r = "ranked selector now operation ?keys"
  have r_len: "length (filter P (?r a)) = length (filter (\<lambda>k. eligible selector now operation a k \<and> P k) ?keys)"
    for P a
  proof -
    have "filter P (?r a) = SliceStable_desc key_priority (filter (\<lambda>k. eligible selector now operation a k \<and> P k) ?keys)"
      by (simp add: ranked_def filter_SliceStable_desc)
    then show ?thesis by (metis mset_SliceStable_desc size_mset)
  qed
  have r_set: "set (?r a) = {k \<in> set ?keys. eligible selector now operation a k}" for a
    by (simp add: ranked_def)
  have r_empty: "?r a = [] \<longleftrightarrow> (\<forall>k\<in>set ?keys. \<not> eligible selector now operation a k)" for a
    by (rule ranked_empty_iff)
  show ?thesis
  proof (cases "dropWhile (\<lambda>a. ?r a = []) algorithms")
    case Nil
    then have "\<forall>b\<in>set algorithms. ?r b = []" by (simp add: dropWhile_eq_Nil_conv)
    then have none: "\<forall>b\<in>set algorithms. \<forall>k\<in>set ?keys. \<not> eligible selector now operation b k"
      by (simp add: r_empty)
    have "\<not> ?ambiguous"
    proof
      assume ?ambiguous
      then obtain pre a post p where "algorithms = pre @ a # post"
        "2 \<le> length (filter (\<lambda>k. eligible selector now operation a k \<and> key_priority k = p) ?keys)"
        by blast
      moreover from this none have "filter (\<lambda>k. eligible selector now operation a k \<and> key_priority k = p) ?keys = []"
        by (simp add: filter_empty_conv)
      ultimately show False by simp
    qed
    moreover have "?L \<longleftrightarrow> e = Errorf ''keystore: no eligible key supports operation %q and algorithms %v''
               [StrArg operation, StrsArg algorithms]"
      unfolding selectKey_eq Nil assms option.case list.case res.inject by (rule eq_commute)
    ultimately show ?thesis using none by blast
  next
    case (Cons a post)
    then obtain pre post' where pre: "algorithms = pre @ a # post'" "\<forall>b\<in>set pre. ?r b = []" "?r a \<noteq> []"
      using dropWhile_eq_split [of algorithms a "\<lambda>a. ?r a = []"] by blast
    have "a \<in> set algorithms" by (simp add: pre(1))
    moreover have "\<not> (\<forall>k\<in>set ?keys. \<not> eligible selector now operation a k)"
      using pre(3) by (simp only: r_empty not_False_eq_True)
    ultimately have "\<not> ?none" by blast
    moreover have "?L \<longleftrightarrow> pick_key operation a (?r a) = Err e"
      unfolding selectKey_eq Cons using assms by simp
    moreover have "\<dots> \<longleftrightarrow> ?ambiguous"
    proof
      assume "pick_key operation a (?r a) = Err e"
      then show ?ambiguous
        unfolding pick_key_Err_iff [OF sorted_ranked pre(3)] r_len r_set using pre r_empty by blast
    next
      assume ?ambiguous
      then obtain pre' a' post' p where split: "algorithms = pre' @ a' # post'" "\<forall>b\<in>set pre'. ?r b = []"
        and p: "\<forall>k\<in>set ?keys. eligible selector now operation a' k \<longrightarrow> key_priority k \<le> p"
          "2 \<le> length (filter (\<lambda>k. eligible selector now operation a' k \<and> key_priority k = p) ?keys)"
        and e: "e = Errorf ''keystore: multiple keys with priority %d support operation %q and algorithm %q''
                 [IntArg p, StrArg operation, StrArg a']"
        unfolding r_empty by blast
      have "filter (\<lambda>k. eligible selector now operation a' k \<and> key_priority k = p) ?keys \<noteq> []" using p(2) by auto
      then have "?r a' \<noteq> []" by (auto simp: r_empty filter_empty_conv)
      then have "\<exists>post. dropWhile (\<lambda>a. ?r a = []) algorithms = a' # post"
        using dropWhile_eq_split [of algorithms a' "\<lambda>a. ?r a = []"] split by blast
      then have "a' = a" using Cons by simp
      then show "pick_key operation a (?r a) = Err e"
        unfolding pick_key_Err_iff [OF sorted_ranked pre(3)] r_len r_set using p e by blast
    qed
    ultimately show ?thesis by blast
  qed
qed

text \<open>C6: The selection fails only for a stated reason. On a live context it returns the error "no
  eligible key" if and only if no key is eligible for any of the algorithms, and the error "multiple
  keys" if and only if, for the first algorithm that has eligible keys, the highest priority among
  them is shared by at least two; there is no other error.\<close>

theorem selectKey_error_exact:
  assumes "ctx 0 = None"
  shows "selectKey (Some m) now ctx operation selector algorithms = Err e \<longleftrightarrow>
     ((\<forall>b\<in>set algorithms. \<forall>k\<in>set (ks_keys (repository m)). \<not> eligible selector now operation b k)
        \<and> e = Errorf ''keystore: no eligible key supports operation %q and algorithms %v''
               [StrArg operation, StrsArg algorithms])
     \<or> (\<exists>pre a post p. algorithms = pre @ a # post
          \<and> (\<forall>b\<in>set pre. \<forall>k\<in>set (ks_keys (repository m)). \<not> eligible selector now operation b k)
          \<and> (\<forall>k\<in>set (ks_keys (repository m)). eligible selector now operation a k \<longrightarrow> key_priority k \<le> p)
          \<and> 2 \<le> length (filter (\<lambda>k. eligible selector now operation a k \<and> key_priority k = p)
                  (ks_keys (repository m)))
          \<and> e = Errorf ''keystore: multiple keys with priority %d support operation %q and algorithm %q''
                 [IntArg p, StrArg operation, StrArg a])"
  using assms by (rule selectKey_Err_iff)

theorem selectKey_error_exact_witness:
  "selectKey (Some (sample_store [sample_key ''a'' KeyStatusActive 1, sample_key ''b'' KeyStatusActive 1]))
      0 background KeyOpSign zero_Selector [HS256]
   = Err (Errorf ''keystore: multiple keys with priority %d support operation %q and algorithm %q''
            [IntArg 1, StrArg KeyOpSign, StrArg HS256])"
proof -
  let ?keys = "[sample_key ''a'' KeyStatusActive 1, sample_key ''b'' KeyStatusActive 1]"
  have "2 \<le> length (filter (\<lambda>k. eligible zero_Selector 0 KeyOpSign HS256 k \<and> key_priority k = 1) ?keys)"
    by (simp add: sample_eligible status_defs)
  then show ?thesis
    unfolding selectKey_error_exact [where ctx = background, OF background_apply] sample_store_simps
    by (intro disjI2 exI [of _ "[]"] exI [of _ HS256] exI [of _ 1]) simp
qed

end
