(* ===== verification/Store_Lifecycle.thy ===== *)
theory Store_Lifecycle
  imports Keystore
begin

text \<open>
  The life cycle of the store (\<^verbatim>\<open>keystore/keystore.go\<close>, the constructor and its options): adding
  sources, loading and replacing their keys, refresh callbacks, closing. Each critical section of the
  source code is one function here, and the methods compose them in the order of the source. This
  theory runs one method at a time; interleavings are in the theory \<open>Store_Concurrency\<close>.
\<close>

section \<open>Sources as the store sees them\<close>

text \<open>
  What the store changes in a source: whether it has been closed, and its refresh callback. The
  callback the store installs is a closure over the store and a source ID, so the ID represents it.
\<close>

record source_state =
  ss_closed :: bool
  ss_callback :: "string option"

type_synonym world = "source \<Rightarrow> source_state"

text \<open>
  The methods of the sources that are implemented elsewhere: \<^verbatim>\<open>ID()\<close>, whether the dynamic type is a
  \<^verbatim>\<open>SelfRefreshingSource\<close>, the result of \<^verbatim>\<open>Load\<close> and that of \<^verbatim>\<open>Close\<close>; and what the store builds keys
  with: the registry and the certificate parser.
\<close>

record environment =
  src_ID :: "source \<Rightarrow> string"
  src_self_refreshing :: "source \<Rightarrow> bool"
  src_Load :: "source \<Rightarrow> KeyCandidate list res"
  src_Close :: "source \<Rightarrow> error option"
  env_registry :: registry
  env_parse :: certificate_parser

definition close_source :: "source \<Rightarrow> world \<Rightarrow> world" where
  "close_source s w = w(s := (w s)\<lparr>ss_closed := True\<rparr>)"

definition SetRefreshCallback :: "source \<Rightarrow> string option \<Rightarrow> world \<Rightarrow> world" where
  "SetRefreshCallback s callback w = w(s := (w s)\<lparr>ss_callback := callback\<rparr>)"

definition ErrClosed :: error where
  "ErrClosed = ErrorNew ''keystore is closed''"

section \<open>Building and replacing keys\<close>

fun build_loop :: "environment \<Rightarrow> nat \<Rightarrow> KeyCandidate list \<Rightarrow> Key list \<Rightarrow> Key list res" where
  "build_loop env i [] keys = Ok keys"
| "build_loop env i (candidate # candidates) keys =
     bind_res (map_err (Wrapf ''candidate %d: %w'' [IntArg (int i + 1)])
                 (BackendFor (env_registry env) (cand_Material candidate)))
       (\<lambda>keyBackend. build_loop env (Suc i) candidates
                       (keys @ [key_New (env_parse env) candidate (Some keyBackend)]))"

definition buildCandidates :: "environment \<Rightarrow> KeyCandidate list \<Rightarrow> Key list res" where
  "buildCandidates env candidates = build_loop env 0 candidates []"

text \<open>Replacing the keys of a source in the repository, with the error text that all callers use.\<close>

definition store_keys :: "string \<Rightarrow> Key list \<Rightarrow> store \<Rightarrow> store \<times> unit res" where
  "store_keys sid keys m =
     (let (repo, result) = Replace background (repository m) keys (Select [Some (WithSource sid)])
      in (m\<lparr>repository := repo\<rparr>,
          map_err (Wrapf ''failed to store keys from source %s in keystore: %w'' [StrArg sid]) result))"

text \<open>Loading a source and building its keys, outside every lock.\<close>

definition load_keys :: "environment \<Rightarrow> string \<Rightarrow> KeyCandidate list res \<Rightarrow> Key list res" where
  "load_keys env sid loaded =
     bind_res (map_err (Wrapf ''failed to load keys from source %s: %w'' [StrArg sid]) loaded)
       (\<lambda>candidates. map_err (Wrapf ''failed to build keys from source %s: %w'' [StrArg sid])
                       (buildCandidates env candidates))"

section \<open>Binding a source\<close>

text \<open>The first critical section: check and reserve the ID.\<close>

definition bind_reserve :: "string \<Rightarrow> source \<Rightarrow> store \<Rightarrow> store \<times> unit res" where
  "bind_reserve sid s m =
     (if closed m then (m, Err ErrClosed)
      else
        (let bound = (sources m sid \<noteq> None); is_loading = (loading m sid \<noteq> None) in
         if bound \<or> is_loading then (m, Err (Errorf ''source %s already bound'' [StrArg sid]))
         else (m\<lparr>loading := (loading m)(sid \<mapsto> s), bindWG := bindWG m + 1\<rparr>, Ok ())))"

text \<open>The second critical section, with the outcome of the load: commit or give up.\<close>

definition bind_commit :: "string \<Rightarrow> source \<Rightarrow> Key list res \<Rightarrow> store \<Rightarrow> store \<times> unit res" where
  "bind_commit sid s outcome m =
     (let m = m\<lparr>loading := (loading m)(sid := None)\<rparr> in
      case outcome of
        Panic p \<Rightarrow> (m, Panic p)
      | Err err \<Rightarrow> (m, Err err)
      | Ok keys \<Rightarrow>
          if closed m then (m, Err ErrClosed)
          else (case store_keys sid keys m of
                  (m, Ok u) \<Rightarrow> (m\<lparr>sources := (sources m)(sid \<mapsto> s)\<rparr>, Ok ())
                | (m, failed) \<Rightarrow> (m, failed)))"

definition bindSelfRefreshing :: "environment \<Rightarrow> source \<Rightarrow> world \<Rightarrow> world" where
  "bindSelfRefreshing env s w =
     (let sid = src_ID env s in
      if src_self_refreshing env s then SetRefreshCallback s (Some sid) w else w)"

text \<open>The deferred \<^verbatim>\<open>m.bindWG.Done()\<close>.\<close>

definition bind_done :: "store \<Rightarrow> store" where
  "bind_done m = m\<lparr>bindWG := bindWG m - 1\<rparr>"

text \<open>
  A panic of \<^verbatim>\<open>Load\<close> or of the building leaves the method before the second critical section; only the
  deferred call runs.
\<close>

definition Bind :: "environment \<Rightarrow> source option \<Rightarrow> store \<Rightarrow> world \<Rightarrow> store \<times> world \<times> unit res" where
  "Bind env src m w =
     (case src of
        None \<Rightarrow> (m, w, Err (Errorf ''source is nil'' []))
      | Some s \<Rightarrow>
          (let sid = src_ID env s in
           if TrimSpace sid = [] then (m, w, Err (Errorf ''source ID is empty'' []))
           else
             (case bind_reserve sid s m of
                (m, Err err) \<Rightarrow> (m, w, Err err)
              | (m, Panic p) \<Rightarrow> (m, w, Panic p)
              | (m, Ok u) \<Rightarrow>
                  (case load_keys env sid (src_Load env s) of
                     Panic p \<Rightarrow> (bind_done m, w, Panic p)
                   | outcome \<Rightarrow>
                       (case bind_commit sid s outcome m of
                          (m, Ok u) \<Rightarrow> (bind_done m, bindSelfRefreshing env s w, Ok ())
                        | (m, failed) \<Rightarrow> (bind_done m, w, failed))))))"

section \<open>Refreshing\<close>

text \<open>The closure that \<^verbatim>\<open>bindSelfRefreshing\<close> installs, called by a source with its new candidates.\<close>

definition refresh_callback ::
    "environment \<Rightarrow> string \<Rightarrow> KeyCandidate list \<Rightarrow> store \<Rightarrow> store \<times> unit res" where
  "refresh_callback env sid candidates m =
     (if closed m then (m, Err ErrClosed)
      else
        (case map_err (Wrapf ''failed to build keys from source %s: %w'' [StrArg sid])
                (buildCandidates env candidates) of
           Ok keys \<Rightarrow> store_keys sid keys m
         | Err err \<Rightarrow> (m, Err err)
         | Panic p \<Rightarrow> (m, Panic p)))"

text \<open>One goroutine of \<^verbatim>\<open>loadSources\<close>.\<close>

definition load_one :: "environment \<Rightarrow> source \<Rightarrow> store \<Rightarrow> store \<times> unit res" where
  "load_one env s m =
     (case load_keys env (src_ID env s) (src_Load env s) of
        Ok keys \<Rightarrow> store_keys (src_ID env s) keys m
      | Err err \<Rightarrow> (m, Err err)
      | Panic p \<Rightarrow> (m, Panic p))"

text \<open>
  \<^verbatim>\<open>loadSources\<close>: the goroutines take effect in some order, which is the order of the list. A panic in a
  goroutine ends the process. The errors are joined in the order they were sent.
\<close>

fun load_loop :: "environment \<Rightarrow> source list \<Rightarrow> store \<Rightarrow> error list \<Rightarrow> store \<times> error list res" where
  "load_loop env [] m errs = (m, Ok errs)"
| "load_loop env (s # ss) m errs =
     (case load_one env s m of
        (m, Ok u) \<Rightarrow> load_loop env ss m errs
      | (m, Err err) \<Rightarrow> load_loop env ss m (errs @ [err])
      | (m, Panic p) \<Rightarrow> (m, Panic p))"

fun join_loop :: "error option \<Rightarrow> error list \<Rightarrow> error option" where
  "join_loop result [] = result"
| "join_loop result (err # errs) = join_loop (errors_Join [result, Some err]) errs"

definition loadSources :: "environment \<Rightarrow> source list \<Rightarrow> store \<Rightarrow> store \<times> unit res" where
  "loadSources env order m =
     (case load_loop env order m [] of
        (m, Ok errs) \<Rightarrow> (m, of_error (join_loop None errs))
      | (m, Err err) \<Rightarrow> (m, Err err)
      | (m, Panic p) \<Rightarrow> (m, Panic p))"

text \<open>
  \<^verbatim>\<open>RefreshAll\<close>: \<open>order\<close> is the order in which the bound sources are enumerated and their loads take
  effect; \<open>enumerates\<close> says what it ranges over.
\<close>

definition enumerates :: "source list \<Rightarrow> (string \<rightharpoonup> source) \<Rightarrow> bool" where
  "enumerates order ss \<longleftrightarrow> distinct order \<and> set order = ran ss"

definition RefreshAll :: "environment \<Rightarrow> source list \<Rightarrow> store \<Rightarrow> store \<times> unit res" where
  "RefreshAll env order m =
     (if closed m then (m, Err ErrClosed)
      else loadSources env (filter (\<lambda>s. \<not> src_self_refreshing env s) order) m)"

section \<open>Closing\<close>

definition close_begin :: "store \<Rightarrow> store" where
  "close_begin m = m\<lparr>closeOnce := True, closed := True\<rparr>"

text \<open>One turn of the loop over the sources being loaded, and of the loop over the bound ones.\<close>

definition close_loading_one :: "environment \<Rightarrow> source \<Rightarrow> store \<times> world \<Rightarrow> store \<times> world" where
  "close_loading_one env s mw =
     (case mw of (m, w) \<Rightarrow>
        (m\<lparr>closeErr := errors_Join [closeErr m, src_Close env s]\<rparr>, close_source s w))"

definition close_bound_one :: "environment \<Rightarrow> source \<Rightarrow> store \<times> world \<Rightarrow> store \<times> world" where
  "close_bound_one env s mw =
     (case mw of (m, w) \<Rightarrow>
        (let w = (if src_self_refreshing env s then SetRefreshCallback s None w else w)
         in (m\<lparr>closeErr := errors_Join [closeErr m, src_Close env s]\<rparr>, close_source s w)))"

text \<open>
  \<^verbatim>\<open>Close\<close> as one run, while no \<^verbatim>\<open>Bind\<close> is in progress, so that the wait does not block: \<open>order\<close> enumerates the sources being loaded at its start, \<open>order'\<close> the bound ones
  after the wait. A later call finds \<^verbatim>\<open>closeOnce\<close> done and returns the recorded error.
\<close>

definition Close :: "environment \<Rightarrow> source list \<Rightarrow> source list \<Rightarrow> store \<Rightarrow> world
    \<Rightarrow> store \<times> world \<times> error option" where
  "Close env order order' m w =
     (if closeOnce m then (m, w, closeErr m)
      else
        (let (m, w) = fold (close_loading_one env) order (close_begin m, w);
             (m, w) = fold (close_bound_one env) order' (m, w)
         in (m, w, closeErr m)))"

section \<open>Construction\<close>

text \<open>A constructor option changes the store being built, or reports an error.\<close>

type_synonym Option = "store \<Rightarrow> store \<times> unit res"

definition keystore_WithSource :: "environment \<Rightarrow> source option \<Rightarrow> error option \<Rightarrow> Option" where
  "keystore_WithSource env src sourceError = (\<lambda>m.
     case sourceError of
       Some err \<Rightarrow> (m, Err (Wrapf ''failed to initialize source: %w'' [] err))
     | None \<Rightarrow>
         (case src of
            None \<Rightarrow> (m, Err (Errorf ''source is nil'' []))
          | Some s \<Rightarrow>
              (let sid = src_ID env s in
               if TrimSpace sid = [] then (m, Err (Errorf ''source ID is empty'' []))
               else if sources m sid \<noteq> None
               then (m, Err (Errorf ''source %s already bound'' [StrArg sid]))
               else (m\<lparr>sources := (sources m)(sid \<mapsto> s)\<rparr>, Ok ()))))"

definition WithRuntimeOptions :: "KeystoreRuntimeOption option list \<Rightarrow> Option" where
  "WithRuntimeOptions options = (\<lambda>m.
     (m\<lparr>runtimeOptions := runtimeOptions m @ options\<rparr>, Ok ()))"

definition empty_store :: store where
  "empty_store = \<lparr>
     repository = keyset_New, sources = Map.empty, loading = Map.empty, bindWG = 0,
     closeOnce = False, closeErr = None, closed = False, runtimeOptions = []\<rparr>"

fun option_loop :: "Option option list \<Rightarrow> store \<Rightarrow> store \<times> unit res" where
  "option_loop [] m = (m, Ok ())"
| "option_loop (None # options) m = option_loop options m"
| "option_loop (Some opt # options) m =
     (case opt m of
        (m, Ok u) \<Rightarrow> option_loop options m
      | (m, failed) \<Rightarrow> (m, failed))"

text \<open>
  \<^verbatim>\<open>New\<close>. The sources are enumerated up to three times (to load them, to activate them, and to close
  them after a failure): \<open>enum\<close> gives an enumeration of a map of sources, and the loads take effect in
  the order \<open>schedule\<close> of the enumerated list. A joined error is never nil.
\<close>

definition fail_new ::
    "environment \<Rightarrow> ((string \<rightharpoonup> source) \<Rightarrow> source list) \<Rightarrow> error \<Rightarrow> store \<Rightarrow> world \<Rightarrow> world \<times> store res" where
  "fail_new env enum err m w =
     (case Close env (enum (loading m)) (enum (sources m)) m w of
        (m, w, close_err) \<Rightarrow> (w, Err (the (errors_Join [Some err, close_err]))))"

definition keystore_New ::
    "environment \<Rightarrow> ((string \<rightharpoonup> source) \<Rightarrow> source list) \<Rightarrow> (source list \<Rightarrow> source list)
       \<Rightarrow> Option option list \<Rightarrow> world \<Rightarrow> world \<times> store res" where
  "keystore_New env enum schedule options w =
     (case option_loop options empty_store of
        (m, Panic p) \<Rightarrow> (w, Panic p)
      | (m, Err err) \<Rightarrow> fail_new env enum err m w
      | (m, Ok u) \<Rightarrow>
          (let ss = enum (sources m) in
           case loadSources env (schedule ss) m of
             (m, Panic p) \<Rightarrow> (w, Panic p)
           | (m, Err err) \<Rightarrow> fail_new env enum err m w
           | (m, Ok u) \<Rightarrow> (fold (bindSelfRefreshing env) ss w, Ok m)))"

section \<open>Loading keys\<close>

abbreviation contents :: "store \<Rightarrow> Key list" where
  "contents m \<equiv> ks_keys (repository m)"

lemma store_keys_eq [store_simps]:
  "store_keys sid keys m =
     (m\<lparr>repository := (repository m)\<lparr>ks_keys :=
          filter (\<lambda>k. key_source k \<noteq> sid) (contents m) @ keys\<rparr>\<rparr>, Ok ())"
  by (simp add: store_keys_def Replace_eq WithSource_def)

text \<open>The keys that are built correspond to the candidates one by one.\<close>

lemma build_loop_pairs:
  "build_loop env i cs keys = Ok keys' \<Longrightarrow>
     \<exists>new. keys' = keys @ new
       \<and> list_all2 (\<lambda>c k. \<exists>b. BackendFor (env_registry env) (cand_Material c) = Ok b
            \<and> k = key_New (env_parse env) c (Some b)) cs new"
proof (induction cs arbitrary: i keys)
  case Nil
  then show ?case by simp
next
  case (Cons c cs)
  from Cons.prems obtain b where b: "BackendFor (env_registry env) (cand_Material c) = Ok b"
    and "build_loop env (Suc i) cs (keys @ [key_New (env_parse env) c (Some b)]) = Ok keys'"
    by auto
  from Cons.IH [OF this(2)] obtain new where
    "keys' = (keys @ [key_New (env_parse env) c (Some b)]) @ new"
    "list_all2 (\<lambda>c k. \<exists>b. BackendFor (env_registry env) (cand_Material c) = Ok b
       \<and> k = key_New (env_parse env) c (Some b)) cs new"
    by blast
  then show ?case
    using b by (intro exI [of _ "key_New (env_parse env) c (Some b) # new"]) auto
qed

lemma load_keys_pairs:
  assumes "load_keys env sid loaded = Ok keys"
  obtains cs where "loaded = Ok cs"
    "list_all2 (\<lambda>c k. \<exists>b. BackendFor (env_registry env) (cand_Material c) = Ok b
       \<and> k = key_New (env_parse env) c (Some b)) cs keys"
  using assms build_loop_pairs [of env 0 _ "[]" keys] that
  by (auto simp: load_keys_def buildCandidates_def)

lemma build_loop_Ok:
  assumes "build_loop env i cs keys = Ok keys'"
  shows "\<exists>new. keys' = keys @ new \<and> map key_source new = map cand_Source cs
       \<and> (\<forall>k\<in>set new. \<exists>c\<in>set cs. \<exists>b. BackendFor (env_registry env) (cand_Material c) = Ok b
            \<and> k = key_New (env_parse env) c (Some b))"
proof -
  obtain new where new: "keys' = keys @ new"
    "list_all2 (\<lambda>c k. \<exists>b. BackendFor (env_registry env) (cand_Material c) = Ok b
       \<and> k = key_New (env_parse env) c (Some b)) cs new"
    using build_loop_pairs [OF assms] by blast
  from this(2) have "map key_source new = map cand_Source cs
     \<and> (\<forall>k\<in>set new. \<exists>c\<in>set cs. \<exists>b. BackendFor (env_registry env) (cand_Material c) = Ok b
          \<and> k = key_New (env_parse env) c (Some b))"
    by (induction rule: list_all2_induct) auto
  then show ?thesis using new(1) by blast
qed

text \<open>Loaded keys carry the sources of their candidates and come from the registry.\<close>

lemma load_keys_Ok:
  assumes "load_keys env sid loaded = Ok keys"
  shows "\<exists>cs. loaded = Ok cs \<and> map key_source keys = map cand_Source cs
     \<and> (\<forall>k\<in>set keys. \<exists>c\<in>set cs. \<exists>b. BackendFor (env_registry env) (cand_Material c) = Ok b
          \<and> k = key_New (env_parse env) c (Some b))"
  using assms build_loop_Ok [of env 0 _ "[]" keys]
  by (auto simp: load_keys_def buildCandidates_def)

text \<open>A source that labels its candidates with its own ID, as the sources of the repository should.\<close>

definition labelled :: "environment \<Rightarrow> source \<Rightarrow> bool" where
  "labelled env s \<longleftrightarrow> (\<forall>cs. src_Load env s = Ok cs \<longrightarrow> (\<forall>c\<in>set cs. cand_Source c = src_ID env s))"

lemma labelled_keys:
  assumes "labelled env s" "load_keys env (src_ID env s) (src_Load env s) = Ok keys" "k \<in> set keys"
  shows "key_source k = src_ID env s"
proof -
  obtain cs where "src_Load env s = Ok cs" "map key_source keys = map cand_Source cs"
    using load_keys_Ok [OF assms(2)] by blast
  moreover from this have "key_source k \<in> set (map cand_Source cs)"
    using assms(3) by (metis image_eqI list.set_map)
  ultimately show ?thesis using assms(1) by (auto simp: labelled_def)
qed

definition loaded_keys :: "environment \<Rightarrow> source \<Rightarrow> Key list res" where
  "loaded_keys env s = load_keys env (src_ID env s) (src_Load env s)"

definition keys_of :: "environment \<Rightarrow> source \<Rightarrow> Key list" where
  "keys_of env s = (case loaded_keys env s of Ok keys \<Rightarrow> keys | _ \<Rightarrow> [])"

text \<open>The errors of the sources that fail to load, in order.\<close>

definition load_errors :: "environment \<Rightarrow> source list \<Rightarrow> error list" where
  "load_errors env order =
     List.map_filter (\<lambda>s. case loaded_keys env s of Err e \<Rightarrow> Some e | _ \<Rightarrow> None) order"

lemma load_one_eq [store_simps]:
  "load_one env s m =
     (case loaded_keys env s of
        Ok keys \<Rightarrow> (m\<lparr>repository := (repository m)\<lparr>ks_keys :=
            filter (\<lambda>k. key_source k \<noteq> src_ID env s) (contents m) @ keys\<rparr>\<rparr>, Ok ())
      | Err err \<Rightarrow> (m, Err err)
      | Panic p \<Rightarrow> (m, Panic p))"
  by (simp add: load_one_def loaded_keys_def store_keys_eq split: res.split)

text \<open>
  The result of loading several sources: the keys of those that load replace what the repository held
  under their IDs, and nothing else changes.
\<close>

lemma load_loop_result:
  assumes "\<forall>s\<in>set order. labelled env s \<and> (\<forall>p. loaded_keys env s \<noteq> Panic p)"
    and "distinct (map (src_ID env) order)"
  shows "\<exists>m'. load_loop env order m errs = (m', Ok (errs @ load_errors env order))
     \<and> m' = m\<lparr>repository := \<lparr>ks_keys = contents m'\<rparr>\<rparr>
     \<and> mset (contents m') = filter_mset
          (\<lambda>k. \<not> (\<exists>s\<in>set order. is_ok (loaded_keys env s) \<and> key_source k = src_ID env s)) (mset (contents m))
        + mset (concat (map (keys_of env) order))"
  using assms
proof (induction order arbitrary: m errs)
  case Nil
  then show ?case by (simp add: load_errors_def List.map_filter_simps)
next
  case (Cons s ss)
  let ?ok = "\<lambda>ss k. \<exists>s\<in>set ss. is_ok (loaded_keys env s) \<and> key_source k = src_ID env s"
  have IH: "\<exists>m'. load_loop env ss m errs = (m', Ok (errs @ load_errors env ss))
     \<and> m' = m\<lparr>repository := \<lparr>ks_keys = contents m'\<rparr>\<rparr>
     \<and> mset (contents m') = filter_mset (\<lambda>k. \<not> ?ok ss k) (mset (contents m))
        + mset (concat (map (keys_of env) ss))" for m errs
    using Cons by simp
  show ?case
  proof (cases "loaded_keys env s")
    case (Ok keys)
    define m1 where "m1 = m\<lparr>repository := (repository m)\<lparr>ks_keys :=
        filter (\<lambda>k. key_source k \<noteq> src_ID env s) (contents m) @ keys\<rparr>\<rparr>"
    have one: "load_one env s m = (m1, Ok ())" using Ok by (simp add: load_one_eq m1_def)
    obtain m' where m': "load_loop env ss m1 errs = (m', Ok (errs @ load_errors env ss))"
      "m' = m1\<lparr>repository := \<lparr>ks_keys = contents m'\<rparr>\<rparr>"
      "mset (contents m') = filter_mset (\<lambda>k. \<not> ?ok ss k) (mset (contents m1))
        + mset (concat (map (keys_of env) ss))"
      using IH by blast
    have own: "key_source k = src_ID env s" if "k \<in> set keys" for k
      using labelled_keys [of env s keys k] Cons.prems(1) Ok that by (simp add: loaded_keys_def)
    have "\<not> ?ok ss k" if "k \<in> set keys" for k
      using own [OF that] Cons.prems(2) by (auto simp: image_iff)
    then have keep: "filter_mset (\<lambda>k. \<not> ?ok ss k) (mset keys) = mset keys"
      by (simp add: filter_mset_eq_conv)
    have "filter_mset (\<lambda>k. \<not> ?ok ss k) (filter_mset (\<lambda>k. key_source k \<noteq> src_ID env s) (mset (contents m)))
        = filter_mset (\<lambda>k. \<not> ?ok (s # ss) k) (mset (contents m))"
      using Ok by (auto simp: filter_filter_mset intro!: filter_mset_cong)
    then have "mset (contents m') = filter_mset (\<lambda>k. \<not> ?ok (s # ss) k) (mset (contents m))
        + mset (concat (map (keys_of env) (s # ss)))"
      using m'(3) keep Ok by (simp add: m1_def keys_of_def mset_filter)
    moreover have "m' = m\<lparr>repository := \<lparr>ks_keys = contents m'\<rparr>\<rparr>"
      using m'(2) by (simp add: m1_def)
    moreover have "load_loop env (s # ss) m errs = (m', Ok (errs @ load_errors env (s # ss)))"
      using one m'(1) Ok by (simp add: load_errors_def List.map_filter_simps)
    ultimately show ?thesis by blast
  next
    case (Err e)
    obtain m' where m': "load_loop env ss m (errs @ [e]) = (m', Ok ((errs @ [e]) @ load_errors env ss))"
      "m' = m\<lparr>repository := \<lparr>ks_keys = contents m'\<rparr>\<rparr>"
      "mset (contents m') = filter_mset (\<lambda>k. \<not> ?ok ss k) (mset (contents m))
        + mset (concat (map (keys_of env) ss))"
      using IH by blast
    moreover have "load_loop env (s # ss) m errs = (m', Ok (errs @ load_errors env (s # ss)))"
      using m'(1) Err by (simp add: load_one_eq load_errors_def List.map_filter_simps)
    moreover have "keys_of env s = []" using Err by (simp add: keys_of_def)
    ultimately show ?thesis using Err by (intro exI [of _ m']) simp
  next
    case (Panic p)
    then show ?thesis using Cons.prems(1) by simp
  qed
qed

lemma join_loop_None_iff: "join_loop r errs = None \<longleftrightarrow> r = None \<and> errs = []"
proof (induction errs arbitrary: r)
  case Nil
  then show ?case by simp
next
  case (Cons e es)
  have "errors_Join [r, Some e] \<noteq> None" by (simp add: errors_Join_None_iff)
  then show ?case using Cons by simp
qed

lemma loadSources_result:
  assumes "\<forall>s\<in>set order. labelled env s \<and> (\<forall>p. loaded_keys env s \<noteq> Panic p)"
    and "distinct (map (src_ID env) order)"
  shows "\<exists>m'. loadSources env order m = (m', of_error (join_loop None (load_errors env order)))
     \<and> m' = m\<lparr>repository := \<lparr>ks_keys = contents m'\<rparr>\<rparr>
     \<and> mset (contents m') = filter_mset
          (\<lambda>k. \<not> (\<exists>s\<in>set order. is_ok (loaded_keys env s) \<and> key_source k = src_ID env s)) (mset (contents m))
        + mset (concat (map (keys_of env) order))"
proof -
  obtain m' where m': "load_loop env order m [] = (m', Ok (load_errors env order))"
    "m' = m\<lparr>repository := \<lparr>ks_keys = contents m'\<rparr>\<rparr>"
    "mset (contents m') = filter_mset
          (\<lambda>k. \<not> (\<exists>s\<in>set order. is_ok (loaded_keys env s) \<and> key_source k = src_ID env s)) (mset (contents m))
        + mset (concat (map (keys_of env) order))"
    using load_loop_result [OF assms, of m "[]"] by auto
  then show ?thesis by (intro exI [of _ m']) (simp add: loadSources_def)
qed

section \<open>A sample environment\<close>

text \<open>Two sources, of which the first refreshes itself; they label their keys with their ID or not.\<close>

definition sample_source_candidate :: "bool \<Rightarrow> source \<Rightarrow> KeyCandidate" where
  "sample_source_candidate label s =
     (sample_candidate (if s = 0 then ''a'' else ''b'') KeyStatusActive 1)
       \<lparr>cand_Source := (if label then (if s = 0 then ''a'' else ''b'') else ''other'')\<rparr>"

definition sample_env :: "bool \<Rightarrow> environment" where
  "sample_env label = \<lparr>
     src_ID = (\<lambda>s. if s = 0 then ''a'' else ''b''), src_self_refreshing = (\<lambda>s. s = 0),
     src_Load = (\<lambda>s. Ok [sample_source_candidate label s]), src_Close = (\<lambda>s. None),
     env_registry = builtin_registry (sample_primitives False) sample_parser,
     env_parse = sample_parser\<rparr>"

definition sample_world :: world where
  "sample_world = (\<lambda>_. \<lparr>ss_closed = False, ss_callback = None\<rparr>)"

definition sample_source_key :: "bool \<Rightarrow> source \<Rightarrow> Key" where
  "sample_source_key label s = key_New sample_parser (sample_source_candidate label s)
     (Some (symmetricBackend (sample_primitives False) (replicate 32 1)))"

lemma sample_env_simps [simp]:
  "src_ID (sample_env l) s = (if s = 0 then ''a'' else ''b'')"
  "src_self_refreshing (sample_env l) s \<longleftrightarrow> s = 0" "src_Close (sample_env l) s = None"
  by (simp_all add: sample_env_def)

lemma sample_backend [simp]:
  "BackendFor (builtin_registry (sample_primitives False) sample_parser)
     (Some (SymmetricMaterial (Some (replicate 32 1))))
   = Ok (symmetricBackend (sample_primitives False) (replicate 32 1))"
  unfolding BackendFor_any_order [OF builtin_factories]
  by (simp add: sym_factory_Supports_def sym_factory_New_def)

lemma sample_build:
  "buildCandidates (sample_env l) [sample_source_candidate l s] = Ok [sample_source_key l s]"
  by (simp add: buildCandidates_def sample_env_def sample_source_candidate_def sample_candidate_def
      sample_source_key_def)

lemma sample_loaded [simp]: "loaded_keys (sample_env l) s = Ok [sample_source_key l s]"
  using sample_build [of l s] by (simp add: loaded_keys_def load_keys_def sample_env_def)

lemma sample_source_key_source [simp]:
  "key_source (sample_source_key l s) = (if l then (if s = 0 then ''a'' else ''b'') else ''other'')"
  by (simp add: sample_source_key_def sample_source_candidate_def)

lemma sample_labelled [simp]: "labelled (sample_env True) s"
  by (simp add: labelled_def sample_env_def sample_source_candidate_def)

lemma sample_IDs: "TrimSpace ''a'' \<noteq> []" "TrimSpace ''b'' \<noteq> []"
  by code_simp+

lemma empty_store_simps [simp]:
  "contents empty_store = []" "sources empty_store = Map.empty" "loading empty_store = Map.empty"
  "closed empty_store = False" "closeOnce empty_store = False"
  by (simp_all add: empty_store_def keyset_New_def)

section \<open>Properties of loading and binding\<close>

lemma loadSources_permuted:
  assumes "\<forall>s\<in>set order. labelled env s \<and> (\<forall>p. loaded_keys env s \<noteq> Panic p)"
    and "distinct (map (src_ID env) order)" and perm: "mset order = mset order'"
  shows "mset (contents (fst (loadSources env order m))) = mset (contents (fst (loadSources env order' m)))
     \<and> (snd (loadSources env order m) = Ok () \<longleftrightarrow> snd (loadSources env order' m) = Ok ())"
proof -
  have sets: "set order = set order'" using perm by (metis set_mset_mset)
  have "distinct (map (src_ID env) order')"
    using assms(2) perm by (metis mset_eq_imp_distinct_iff mset_map)
  moreover have "\<forall>s\<in>set order'. labelled env s \<and> (\<forall>p. loaded_keys env s \<noteq> Panic p)"
    using assms(1) sets by simp
  ultimately obtain m2 where m2:
    "loadSources env order' m = (m2, of_error (join_loop None (load_errors env order')))"
    "mset (contents m2) = filter_mset
          (\<lambda>k. \<not> (\<exists>s\<in>set order'. is_ok (loaded_keys env s) \<and> key_source k = src_ID env s)) (mset (contents m))
        + mset (concat (map (keys_of env) order'))"
    using loadSources_result by blast
  obtain m1 where m1:
    "loadSources env order m = (m1, of_error (join_loop None (load_errors env order)))"
    "mset (contents m1) = filter_mset
          (\<lambda>k. \<not> (\<exists>s\<in>set order. is_ok (loaded_keys env s) \<and> key_source k = src_ID env s)) (mset (contents m))
        + mset (concat (map (keys_of env) order))"
    using loadSources_result [OF assms(1,2)] by blast
  have "mset (concat (map (keys_of env) order)) = (\<Sum>s\<in>#mset order. mset (keys_of env s))"
    for order by (induction order) simp_all
  then have "mset (concat (map (keys_of env) order)) = mset (concat (map (keys_of env) order'))"
    using perm by simp
  then have "mset (contents m1) = mset (contents m2)" using m1(2) m2(2) sets by simp
  moreover have none: "load_errors env order = [] \<longleftrightarrow>
      (\<forall>s\<in>set order. \<forall>e. loaded_keys env s \<noteq> Err e)" for order
    by (induction order) (auto simp: load_errors_def List.map_filter_simps split: res.splits option.splits)
  have "load_errors env order = [] \<longleftrightarrow> load_errors env order' = []" unfolding none sets by (rule refl)
  ultimately show ?thesis using m1(1) m2(1) by (simp add: join_loop_None_iff)
qed

text \<open>Loading sources concurrently does not depend on the order in which the loads complete: for
  sources with distinct IDs that label their candidates with their own ID, any two orders leave the
  same keys in the repository, and succeed or fail alike. (Together with the order independence of
  the selection, a refresh has no visible race.)\<close>

theorem loadSources_order_independent:
  assumes "\<forall>s\<in>set order. labelled env s \<and> (\<forall>p. loaded_keys env s \<noteq> Panic p)"
    and "distinct (map (src_ID env) order)" and "mset order = mset order'"
  shows "mset (contents (fst (loadSources env order m))) = mset (contents (fst (loadSources env order' m)))
     \<and> (snd (loadSources env order m) = Ok () \<longleftrightarrow> snd (loadSources env order' m) = Ok ())"
  using assms by (rule loadSources_permuted)

theorem loadSources_order_independent_witness:
  "mset (contents (fst (loadSources (sample_env True) [0, 1] empty_store)))
     = mset (contents (fst (loadSources (sample_env True) [1, 0] empty_store)))"
  using loadSources_order_independent [of "[0, 1]" "sample_env True" "[1, 0]" empty_store] by simp

text \<open>What refreshing does when a source mislabels its candidates: the old keys stay.\<close>

lemma load_one_mislabelled:
  assumes "loaded_keys env s = Ok keys" "\<forall>k\<in>set (contents m). key_source k \<noteq> src_ID env s"
  shows "load_one env s m = (m\<lparr>repository := (repository m)\<lparr>ks_keys := contents m @ keys\<rparr>\<rparr>, Ok ())"
proof -
  have "filter (\<lambda>k. key_source k \<noteq> src_ID env s) (contents m) = contents m"
    using assms(2) by (simp add: filter_id_conv)
  then show ?thesis using assms(1) by (simp add: load_one_eq)
qed

text \<open>A source whose candidates name another source is never replaced: loading it into a store that
  holds no key under its ID, and then refreshing it, leaves every one of its keys twice in the
  repository. (The selection then fails with "multiple keys" for each of them.)\<close>

theorem mislabelled_refresh_duplicates:
  assumes "loaded_keys env s = Ok keys" "\<forall>k\<in>set keys. key_source k \<noteq> src_ID env s"
    and "\<forall>k\<in>set (contents m). key_source k \<noteq> src_ID env s"
  shows "contents (fst (load_one env s (fst (load_one env s m)))) = contents m @ keys @ keys"
proof -
  note first = load_one_mislabelled [OF assms(1,3)]
  have "\<forall>k\<in>set (contents (fst (load_one env s m))). key_source k \<noteq> src_ID env s"
    using assms(2,3) by (auto simp: first)
  note second = load_one_mislabelled [OF assms(1) this]
  show ?thesis by (simp only: second) (simp add: first)
qed

theorem mislabelled_refresh_duplicates_witness:
  "contents (fst (load_one (sample_env False) 0 (fst (load_one (sample_env False) 0 empty_store))))
     = [sample_source_key False 0, sample_source_key False 0]"
  using mislabelled_refresh_duplicates [of "sample_env False" 0 "[sample_source_key False 0]" empty_store]
  by simp

lemma bind_restore: "m\<lparr>loading := (loading m)(sid := None), bindWG := bindWG m\<rparr> = m"
  if "loading m sid = None"
  using that by (simp add: fun_upd_idem)

lemma Bind_cases:
  assumes load: "\<forall>s. src = Some s \<longrightarrow> (\<forall>p. loaded_keys env s \<noteq> Panic p)"
  shows "(\<exists>s keys. src = Some s \<and> TrimSpace (src_ID env s) \<noteq> [] \<and> \<not> closed m
        \<and> sources m (src_ID env s) = None \<and> loading m (src_ID env s) = None
        \<and> loaded_keys env s = Ok keys
        \<and> Bind env src m w =
            (m\<lparr>repository := (repository m)\<lparr>ks_keys :=
                  filter (\<lambda>k. key_source k \<noteq> src_ID env s) (contents m) @ keys\<rparr>,
               sources := (sources m)(src_ID env s \<mapsto> s)\<rparr>,
             bindSelfRefreshing env s w, Ok ()))
     \<or> (\<exists>e. Bind env src m w = (m, w, Err e)
        \<and> (\<forall>s. src = Some s \<longrightarrow> TrimSpace (src_ID env s) = [] \<or> closed m
            \<or> sources m (src_ID env s) \<noteq> None \<or> loading m (src_ID env s) \<noteq> None
            \<or> (\<exists>e. loaded_keys env s = Err e)))"
proof (cases src)
  case None
  then show ?thesis by (simp add: Bind_def)
next
  case (Some s)
  let ?id = "src_ID env s"
  consider (bad) "TrimSpace ?id = [] \<or> closed m \<or> sources m ?id \<noteq> None \<or> loading m ?id \<noteq> None"
    | (good) "TrimSpace ?id \<noteq> []" "\<not> closed m" "sources m ?id = None" "loading m ?id = None" by blast
  then show ?thesis
  proof cases
    case bad
    then have "\<exists>e. Bind env src m w = (m, w, Err e)"
      using Some by (auto simp: Bind_def bind_reserve_def Let_def)
    then show ?thesis using bad Some by blast
  next
    case good
    show ?thesis
    proof (cases "loaded_keys env s")
      case (Ok keys)
      then show ?thesis
        using good Some
        by (simp add: Bind_def bind_reserve_def bind_commit_def loaded_keys_def store_keys_eq bind_done_def
            fun_upd_idem Let_def)
    next
      case (Err e)
      then show ?thesis
        using good Some
        by (simp add: Bind_def bind_reserve_def bind_commit_def loaded_keys_def bind_done_def
            fun_upd_idem Let_def)
    next
      case (Panic p)
      then show ?thesis using load Some by simp
    qed
  qed
qed

text \<open>C22: Binding a source is all or nothing. Either it succeeds, and then the store was open, the ID was
  not blank and free, the source loaded, its keys are the only ones under its ID, the source is bound,
  and its refresh callback is installed if it refreshes itself; or it returns an error, and then the
  store and the source are exactly as before: no key, no reservation and no callback is left behind.\<close>

theorem bind_atomic:
  assumes "\<forall>p. loaded_keys env s \<noteq> Panic p"
  shows "(\<exists>keys. TrimSpace (src_ID env s) \<noteq> [] \<and> \<not> closed m
        \<and> sources m (src_ID env s) = None \<and> loading m (src_ID env s) = None
        \<and> loaded_keys env s = Ok keys
        \<and> Bind env (Some s) m w =
            (m\<lparr>repository := (repository m)\<lparr>ks_keys :=
                  filter (\<lambda>k. key_source k \<noteq> src_ID env s) (contents m) @ keys\<rparr>,
               sources := (sources m)(src_ID env s \<mapsto> s)\<rparr>,
             bindSelfRefreshing env s w, Ok ()))
     \<or> (\<exists>e. Bind env (Some s) m w = (m, w, Err e)
        \<and> (TrimSpace (src_ID env s) = [] \<or> closed m
            \<or> sources m (src_ID env s) \<noteq> None \<or> loading m (src_ID env s) \<noteq> None
            \<or> (\<exists>e. loaded_keys env s = Err e)))"
  using Bind_cases [of "Some s" env m w] assms by simp

theorem bind_atomic_witness:
  "snd (snd (Bind (sample_env True) (Some 0) empty_store sample_world)) = Ok ()"
proof -
  have "\<forall>p. loaded_keys (sample_env True) 0 \<noteq> Panic p" by simp
  from bind_atomic [OF this, of empty_store sample_world] show ?thesis by (auto simp: sample_IDs)
qed

section \<open>Refreshing\<close>

lemma refresh_callback_replaces:
  assumes "refresh_callback env sid candidates m = (m', Ok ())"
  shows "\<exists>keys. buildCandidates env candidates = Ok keys \<and> \<not> closed m
     \<and> repository m' = fst (Replace background (repository m) keys (Select [Some (WithSource sid)]))
     \<and> m' = m\<lparr>repository := repository m'\<rparr>"
  using assms
  by (auto simp: refresh_callback_def store_keys_def split: if_splits res.splits prod.splits)

text \<open>C23: A successful refresh callback of a source replaces exactly that source's keys: when the new
  candidates name the source, the repository afterwards holds under its ID the keys built from them,
  in their order, and under every other ID what it held before; a callback that reports an error, or
  arrives after the store was closed, changes nothing.\<close>

theorem refresh_isolated:
  assumes "\<forall>c\<in>set candidates. cand_Source c = sid" "t \<noteq> sid"
  shows "(snd (refresh_callback env sid candidates m) = Ok () \<longrightarrow>
        map key_id (filter (WithSource sid) (contents (fst (refresh_callback env sid candidates m))))
          = map cand_ID candidates
        \<and> filter (WithSource t) (contents (fst (refresh_callback env sid candidates m)))
            = filter (WithSource t) (contents m))
     \<and> (snd (refresh_callback env sid candidates m) \<noteq> Ok () \<longrightarrow>
          fst (refresh_callback env sid candidates m) = m)
     \<and> (closed m \<longrightarrow> refresh_callback env sid candidates m = (m, Err ErrClosed))"
proof -
  have ids: "map key_id new = map cand_ID cs"
    if "build_loop env i cs keys = Ok (keys @ new)" for i cs keys new
    using that
  proof (induction cs arbitrary: i keys new)
    case Nil
    then show ?case by simp
  next
    case (Cons c cs)
    then obtain b where step: "build_loop env (Suc i) cs (keys @ [key_New (env_parse env) c (Some b)])
        = Ok (keys @ new)" by auto
    from build_loop_Ok [OF this] obtain new' where "new = key_New (env_parse env) c (Some b) # new'" by auto
    then show ?case using Cons.IH [of "Suc i" "keys @ [key_New (env_parse env) c (Some b)]" new'] step by simp
  qed
  have "map key_id (filter (WithSource sid) (contents m')) = map cand_ID candidates
      \<and> filter (WithSource t) (contents m') = filter (WithSource t) (contents m)"
    if ok: "refresh_callback env sid candidates m = (m', Ok ())" for m'
  proof -
    obtain keys where keys: "buildCandidates env candidates = Ok keys"
      and repo: "repository m' = fst (Replace background (repository m) keys (Select [Some (WithSource sid)]))"
      using refresh_callback_replaces [OF ok] by blast
    have "map key_source keys = map cand_Source candidates"
      using build_loop_Ok [of env 0 candidates "[]" keys] keys by (auto simp: buildCandidates_def)
    then have own: "\<forall>k\<in>set keys. key_source k = sid"
      using assms(1) by (metis (no_types, lifting) imageE image_eqI list.set_map)
    show ?thesis
      using ks.replace_own_source [where ctx = background and r = "repository m", OF background_apply own]
        ks.replace_other_source [where ctx = background and r = "repository m",
          OF assms(2) [symmetric] background_apply own]
        ids [of 0 candidates "[]" keys] keys
      by (simp add: repo buildCandidates_def)
  qed
  moreover have "fst (refresh_callback env sid candidates m) = m"
    if "snd (refresh_callback env sid candidates m) \<noteq> Ok ()"
    using that by (auto simp: refresh_callback_def store_keys_eq split: res.splits)
  moreover have "refresh_callback env sid candidates m = (m, Err ErrClosed)" if "closed m"
    using that by (simp add: refresh_callback_def)
  ultimately show ?thesis by (cases "refresh_callback env sid candidates m") auto
qed

theorem refresh_isolated_witness:
  "map key_id (filter (WithSource ''a'')
      (contents (fst (refresh_callback (sample_env True) ''a'' [sample_source_candidate True 0] empty_store))))
    = [''a'']"
proof -
  let ?c = "sample_source_candidate True 0"
  have "snd (refresh_callback (sample_env True) ''a'' [?c] empty_store) = Ok ()"
    by (simp add: refresh_callback_def sample_build store_keys_eq)
  moreover have "\<forall>c\<in>set [?c]. cand_Source c = ''a''" "''b'' \<noteq> ''a''" "cand_ID ?c = ''a''"
    by (simp_all add: sample_source_candidate_def sample_candidate_def)
  ultimately show ?thesis
    using refresh_isolated [of "[?c]" "''a''" "''b''" "sample_env True" empty_store] by simp
qed

section \<open>Closing\<close>

lemma fold_close_loading:
  "\<exists>err. fold (close_loading_one env) order (m, w) =
     (m\<lparr>closeErr := err\<rparr>, \<lambda>s. if s \<in> set order then (w s)\<lparr>ss_closed := True\<rparr> else w s)"
proof (induction order arbitrary: m w)
  case Nil
  then show ?case by (intro exI [of _ "closeErr m"]) simp
next
  case (Cons s ss)
  let ?m = "m\<lparr>closeErr := errors_Join [closeErr m, src_Close env s]\<rparr>" and ?w = "close_source s w"
  obtain err where "fold (close_loading_one env) ss (?m, ?w) =
      (?m\<lparr>closeErr := err\<rparr>, \<lambda>x. if x \<in> set ss then (?w x)\<lparr>ss_closed := True\<rparr> else ?w x)"
    using Cons.IH by blast
  moreover have "(\<lambda>x. if x \<in> set ss then (?w x)\<lparr>ss_closed := True\<rparr> else ?w x)
      = (\<lambda>x. if x \<in> set (s # ss) then (w x)\<lparr>ss_closed := True\<rparr> else w x)"
    by (auto simp: close_source_def fun_eq_iff)
  moreover have "close_loading_one env s (m, w) = (?m, ?w)" by (simp add: close_loading_one_def)
  ultimately show ?case by (intro exI [of _ err]) simp
qed

definition after_close :: "environment \<Rightarrow> source \<Rightarrow> source_state \<Rightarrow> source_state" where
  "after_close env s st =
     st\<lparr>ss_closed := True, ss_callback := (if src_self_refreshing env s then None else ss_callback st)\<rparr>"

lemma fold_close_bound:
  "\<exists>err. fold (close_bound_one env) order (m, w) =
     (m\<lparr>closeErr := err\<rparr>, \<lambda>s. if s \<in> set order then after_close env s (w s) else w s)"
proof (induction order arbitrary: m w)
  case Nil
  then show ?case by (intro exI [of _ "closeErr m"]) simp
next
  case (Cons s ss)
  let ?m = "m\<lparr>closeErr := errors_Join [closeErr m, src_Close env s]\<rparr>"
  let ?w = "close_source s (if src_self_refreshing env s then SetRefreshCallback s None w else w)"
  obtain err where "fold (close_bound_one env) ss (?m, ?w) =
      (?m\<lparr>closeErr := err\<rparr>, \<lambda>x. if x \<in> set ss then after_close env x (?w x) else ?w x)"
    using Cons.IH by blast
  moreover have "(\<lambda>x. if x \<in> set ss then after_close env x (?w x) else ?w x)
      = (\<lambda>x. if x \<in> set (s # ss) then after_close env x (w x) else w x)"
    by (auto simp: close_source_def SetRefreshCallback_def after_close_def fun_eq_iff)
  moreover have "close_bound_one env s (m, w) = (?m, ?w)" by (simp add: close_bound_one_def)
  ultimately show ?case by (intro exI [of _ err]) (simp del: if_split)
qed

lemma Close_result:
  assumes "\<not> closeOnce m"
  shows "\<exists>err. Close env order order' m w =
     (m\<lparr>closeOnce := True, closed := True, closeErr := err\<rparr>,
      \<lambda>s. if s \<in> set order' then after_close env s (w s)
          else if s \<in> set order then (w s)\<lparr>ss_closed := True\<rparr> else w s,
      err)"
proof -
  let ?w1 = "\<lambda>s. if s \<in> set order then (w s)\<lparr>ss_closed := True\<rparr> else w s"
  obtain e1 where one: "fold (close_loading_one env) order (close_begin m, w)
      = ((close_begin m)\<lparr>closeErr := e1\<rparr>, ?w1)"
    using fold_close_loading by blast
  obtain e2 where two: "fold (close_bound_one env) order' ((close_begin m)\<lparr>closeErr := e1\<rparr>, ?w1)
      = ((close_begin m)\<lparr>closeErr := e1\<rparr>\<lparr>closeErr := e2\<rparr>,
         \<lambda>s. if s \<in> set order' then after_close env s (?w1 s) else ?w1 s)"
    using fold_close_bound by blast
  have "(\<lambda>s. if s \<in> set order' then after_close env s (?w1 s) else ?w1 s)
      = (\<lambda>s. if s \<in> set order' then after_close env s (w s)
             else if s \<in> set order then (w s)\<lparr>ss_closed := True\<rparr> else w s)"
    by (auto simp: after_close_def)
  then show ?thesis
    using assms one two by (intro exI [of _ e2]) (simp add: Close_def close_begin_def)
qed

text \<open>After \<^verbatim>\<open>Close\<close>, every source the store owned is closed and no self-refreshing one keeps a callback
  into the store; other sources are untouched. From then on the store is inert: binding a source,
  refreshing, and a late refresh callback all return \<^verbatim>\<open>ErrClosed\<close> and change nothing, and closing again
  does nothing and returns the same error.\<close>

theorem closed_store_inert:
  assumes "\<not> closeOnce m" "enumerates order (loading m)" "enumerates order' (sources m)"
    and "Close env order order' m w = (m', w', err)"
  shows "(\<forall>s. s \<in> ran (sources m) \<longrightarrow> ss_closed (w' s)
            \<and> (src_self_refreshing env s \<longrightarrow> ss_callback (w' s) = None))
     \<and> (\<forall>s. s \<notin> ran (sources m) \<and> s \<notin> ran (loading m) \<longrightarrow> w' s = w s)
     \<and> (TrimSpace (src_ID env t) \<noteq> [] \<longrightarrow> Bind env (Some t) m' w' = (m', w', Err ErrClosed))
     \<and> RefreshAll env order'' m' = (m', Err ErrClosed)
     \<and> refresh_callback env sid candidates m' = (m', Err ErrClosed)
     \<and> Close env order order' m' w' = (m', w', err)"
proof -
  from Close_result [OF assms(1), of env order order' w] assms(4)
  have m': "m' = m\<lparr>closeOnce := True, closed := True, closeErr := err\<rparr>"
    and w': "w' = (\<lambda>s. if s \<in> set order' then after_close env s (w s)
          else if s \<in> set order then (w s)\<lparr>ss_closed := True\<rparr> else w s)"
    by auto
  have sets: "set order = ran (loading m)" "set order' = ran (sources m)"
    using assms(2,3) by (simp_all add: enumerates_def)
  have "\<forall>s. s \<in> ran (sources m) \<longrightarrow> ss_closed (w' s)
      \<and> (src_self_refreshing env s \<longrightarrow> ss_callback (w' s) = None)"
    by (simp add: w' sets after_close_def)
  moreover have "\<forall>s. s \<notin> ran (sources m) \<and> s \<notin> ran (loading m) \<longrightarrow> w' s = w s"
    by (simp add: w' sets)
  ultimately show ?thesis
    by (simp add: m' Bind_def bind_reserve_def RefreshAll_def refresh_callback_def Close_def Let_def)
qed

theorem closed_store_inert_witness:
  "case Close (sample_env True) [] [0] (empty_store\<lparr>sources := [''a'' \<mapsto> 0]\<rparr>) sample_world of
     (m', w', err) \<Rightarrow> ss_closed (w' 0) \<and> Bind (sample_env True) (Some 1) m' w' = (m', w', Err ErrClosed)"
proof -
  let ?m = "empty_store\<lparr>sources := [''a'' \<mapsto> 0]\<rparr>"
  obtain m' w' err where c: "Close (sample_env True) [] [0] ?m sample_world = (m', w', err)"
    by (metis prod_cases3)
  have "enumerates [] (loading ?m)" "enumerates [0] (sources ?m)" "\<not> closeOnce ?m"
    by (simp_all add: enumerates_def)
  from closed_store_inert [OF this(3,1,2) c, of 1] show ?thesis by (simp add: c sample_IDs)
qed

section \<open>Construction\<close>

text \<open>The options that the package offers, the only ones a client can make.\<close>

definition package_option :: "environment \<Rightarrow> Option option \<Rightarrow> bool" where
  "package_option env opt \<longleftrightarrow>
     opt = None \<or> (\<exists>src err. opt = Some (keystore_WithSource env src err))
     \<or> (\<exists>os. opt = Some (WithRuntimeOptions os))"

text \<open>Sources are stored under their own, non-blank IDs.\<close>

definition sources_keyed :: "environment \<Rightarrow> (string \<rightharpoonup> source) \<Rightarrow> bool" where
  "sources_keyed env ss \<longleftrightarrow> (\<forall>sid s. ss sid = Some s \<longrightarrow> src_ID env s = sid \<and> TrimSpace sid \<noteq> [])"

lemma package_option_step:
  assumes "package_option env (Some opt)" "sources_keyed env (sources m)" "finite (dom (sources m))"
  shows "\<exists>ss ro. fst (opt m) = m\<lparr>sources := ss, runtimeOptions := ro\<rparr> \<and> sources_keyed env ss \<and> finite (dom ss)"
    and "snd (opt m) \<noteq> Panic p"
proof -
  from assms(1) consider (src) so err where "opt = keystore_WithSource env so err"
    | (ro) os where "opt = WithRuntimeOptions os" by (auto simp: package_option_def)
  then have "(\<exists>ss ro. fst (opt m) = m\<lparr>sources := ss, runtimeOptions := ro\<rparr>
      \<and> sources_keyed env ss \<and> finite (dom ss)) \<and> snd (opt m) \<noteq> Panic p"
  proof cases
    case src
    consider (bad) e where "opt m = (m, Err e)"
      | (good) s where "opt m = (m\<lparr>sources := (sources m)(src_ID env s \<mapsto> s)\<rparr>, Ok ())"
          "TrimSpace (src_ID env s) \<noteq> []"
    proof -
      have "(\<exists>e. opt m = (m, Err e)) \<or> (\<exists>s. opt m = (m\<lparr>sources := (sources m)(src_ID env s \<mapsto> s)\<rparr>, Ok ())
          \<and> TrimSpace (src_ID env s) \<noteq> [])"
        by (cases err; cases so) (auto simp: src keystore_WithSource_def Let_def)
      then show thesis using bad good by blast
    qed
    then show ?thesis
    proof cases
      case bad
      then show ?thesis
        using assms(2,3) by (intro conjI exI [of _ "sources m"] exI [of _ "runtimeOptions m"]) simp_all
    next
      case good
      then show ?thesis
        using assms(2,3)
        by (intro conjI exI [of _ "(sources m)(src_ID env s \<mapsto> s)"] exI [of _ "runtimeOptions m"])
          (auto simp: sources_keyed_def)
    qed
  next
    case ro
    then show ?thesis
      using assms(2,3) by (auto simp: WithRuntimeOptions_def intro!: exI [of _ "sources m"])
  qed
  then show "\<exists>ss ro. fst (opt m) = m\<lparr>sources := ss, runtimeOptions := ro\<rparr> \<and> sources_keyed env ss \<and> finite (dom ss)"
    "snd (opt m) \<noteq> Panic p" by blast+
qed

lemma option_loop_result:
  assumes "\<forall>opt\<in>set options. package_option env opt" "sources_keyed env (sources m)"
    and "finite (dom (sources m))"
  shows "\<exists>ss ro. fst (option_loop options m) = m\<lparr>sources := ss, runtimeOptions := ro\<rparr>
     \<and> sources_keyed env ss \<and> finite (dom ss) \<and> (\<forall>p. snd (option_loop options m) \<noteq> Panic p)"
  using assms
proof (induction options m rule: option_loop.induct)
  case (1 m)
  then show ?case by (intro exI [of _ "sources m"] exI [of _ "runtimeOptions m"]) simp
next
  case (2 options m)
  then show ?case by simp
next
  case (3 opt options m)
  obtain m1 r where opt: "opt m = (m1, r)" by fastforce
  have "package_option env (Some opt)" using "3.prems"(1) by simp
  from package_option_step [OF this "3.prems"(2,3)] opt obtain ss ro where
    m1: "m1 = m\<lparr>sources := ss, runtimeOptions := ro\<rparr>" "sources_keyed env ss" "finite (dom ss)"
    and r: "\<And>p. r \<noteq> Panic p" by auto
  show ?case
  proof (cases r)
    case (Ok u)
    then have "\<exists>ss ro. fst (option_loop options m1) = m1\<lparr>sources := ss, runtimeOptions := ro\<rparr>
       \<and> sources_keyed env ss \<and> finite (dom ss) \<and> (\<forall>p. snd (option_loop options m1) \<noteq> Panic p)"
      using "3.IH" [OF opt [symmetric] Ok] "3.prems"(1) m1 by simp
    then show ?thesis using opt Ok m1(1) by simp
  next
    case (Err e)
    then show ?thesis using opt m1 by auto
  next
    case (Panic p)
    then show ?thesis using r by simp
  qed
qed

definition good_enumeration :: "((string \<rightharpoonup> source) \<Rightarrow> source list) \<Rightarrow> bool" where
  "good_enumeration enum \<longleftrightarrow> (\<forall>ss. finite (dom ss) \<longrightarrow> enumerates (enum ss) ss)"

lemma keyed_distinct:
  assumes "sources_keyed env ss" "enumerates order ss"
  shows "distinct (map (src_ID env) order)"
proof -
  have "inj_on (src_ID env) (ran ss)"
  proof (rule inj_onI)
    fix s t
    assume st: "s \<in> ran ss" "t \<in> ran ss" and eq: "src_ID env s = src_ID env t"
    then obtain i j where "ss i = Some s" "ss j = Some t" by (auto simp: ran_def)
    moreover from this have "src_ID env s = i" "src_ID env t = j"
      using assms(1) by (auto simp: sources_keyed_def)
    ultimately show "s = t" using eq by simp
  qed
  then show ?thesis using assms(2) by (simp add: enumerates_def distinct_map)
qed

lemma fold_bindSelfRefreshing:
  "fold (bindSelfRefreshing env) ss w =
     (\<lambda>s. if s \<in> set ss \<and> src_self_refreshing env s
          then (w s)\<lparr>ss_callback := Some (src_ID env s)\<rparr> else w s)"
  by (induction ss arbitrary: w)
    (auto simp: bindSelfRefreshing_def SetRefreshCallback_def fun_eq_iff)

text \<open>The store that the options build, before its sources are loaded.\<close>

definition configured :: "Option option list \<Rightarrow> store" where
  "configured options = fst (option_loop options empty_store)"

lemma configured_result:
  assumes "\<forall>opt\<in>set options. package_option env opt"
  shows "configured options = empty_store\<lparr>sources := sources (configured options),
       runtimeOptions := runtimeOptions (configured options)\<rparr>
     \<and> sources_keyed env (sources (configured options)) \<and> finite (dom (sources (configured options)))
     \<and> (\<forall>p. snd (option_loop options empty_store) \<noteq> Panic p)"
proof -
  have "sources_keyed env (sources empty_store)" "finite (dom (sources empty_store))"
    by (simp_all add: empty_store_def sources_keyed_def)
  from option_loop_result [OF assms this] show ?thesis by (auto simp: configured_def)
qed

lemma fail_new_result:
  assumes "good_enumeration enum" "closeOnce m = False" "loading m = Map.empty" "finite (dom (sources m))"
  shows "\<exists>e. fail_new env enum err m w =
     ((\<lambda>s. if s \<in> ran (sources m) then after_close env s (w s) else w s), Err e)"
proof -
  have en: "set (enum (loading m)) = {}" "set (enum (sources m)) = ran (sources m)"
    using assms by (simp_all add: good_enumeration_def enumerates_def)
  from Close_result [of m env "enum (loading m)" "enum (sources m)" w] assms(2)
  obtain e where "Close env (enum (loading m)) (enum (sources m)) m w =
     (m\<lparr>closeOnce := True, closed := True, closeErr := e\<rparr>,
      (\<lambda>s. if s \<in> set (enum (sources m)) then after_close env s (w s)
          else if s \<in> set (enum (loading m)) then (w s)\<lparr>ss_closed := True\<rparr> else w s), e)"
    by blast
  then show ?thesis unfolding en by (auto simp: fail_new_def)
qed

lemma keystore_New_result:
  assumes enum: "good_enumeration enum" and sched: "\<forall>xs. mset (schedule xs) = mset xs"
    and opts: "\<forall>opt\<in>set options. package_option env opt"
    and srcs: "\<forall>s\<in>ran (sources (configured options)). labelled env s \<and> (\<forall>p. loaded_keys env s \<noteq> Panic p)"
  shows "(snd (option_loop options empty_store) = Ok ()
        \<and> (\<forall>s\<in>ran (sources (configured options)). is_ok (loaded_keys env s))
        \<and> (\<exists>m. keystore_New env enum schedule options w =
             ((\<lambda>s. if s \<in> ran (sources (configured options)) \<and> src_self_refreshing env s
                   then (w s)\<lparr>ss_callback := Some (src_ID env s)\<rparr> else w s), Ok m)
           \<and> m = (configured options)\<lparr>repository := \<lparr>ks_keys = contents m\<rparr>\<rparr>
           \<and> mset (contents m) = mset (concat (map (keys_of env) (enum (sources (configured options)))))))
     \<or> (\<not> (snd (option_loop options empty_store) = Ok ()
          \<and> (\<forall>s\<in>ran (sources (configured options)). is_ok (loaded_keys env s)))
        \<and> (\<exists>e. keystore_New env enum schedule options w =
             ((\<lambda>s. if s \<in> ran (sources (configured options)) then after_close env s (w s) else w s), Err e)))"
proof -
  let ?c = "configured options" and ?ss = "enum (sources (configured options))"
  have c: "?c = empty_store\<lparr>sources := sources ?c, runtimeOptions := runtimeOptions ?c\<rparr>"
    "sources_keyed env (sources ?c)" "finite (dom (sources ?c))"
    and np: "\<And>p. snd (option_loop options empty_store) \<noteq> Panic p"
    using configured_result [OF opts] by blast+
  have c0: "closeOnce ?c = False" "loading ?c = Map.empty" "contents ?c = []"
    by (subst c(1), simp add: empty_store_def keyset_New_def)+
  have en: "enumerates ?ss (sources ?c)" using enum c(3) by (simp add: good_enumeration_def)
  then have ss: "set ?ss = ran (sources ?c)" by (simp add: enumerates_def)
  have sset: "set (schedule ?ss) = set ?ss" using sched by (metis set_mset_mset)
  have d: "distinct (map (src_ID env) (schedule ?ss))"
    using keyed_distinct [OF c(2) en] sched by (metis mset_eq_imp_distinct_iff mset_map)
  have fail: "\<exists>e. fail_new env enum err m w =
      ((\<lambda>s. if s \<in> ran (sources ?c) then after_close env s (w s) else w s), Err e)"
    if "m = ?c\<lparr>repository := r\<rparr>" for m r err
    using fail_new_result [OF enum, of m env err w] that c0 c(3) by simp
  show ?thesis
  proof (cases "snd (option_loop options empty_store)")
    case (Ok u)
    then have loop: "option_loop options empty_store = (?c, Ok ())"
      by (simp add: configured_def prod_eq_iff)
    have "\<forall>s\<in>set (schedule ?ss). labelled env s \<and> (\<forall>p. loaded_keys env s \<noteq> Panic p)"
      using srcs ss sset by simp
    from loadSources_result [OF this d, of ?c] obtain m where m:
      "loadSources env (schedule ?ss) ?c = (m, of_error (join_loop None (load_errors env (schedule ?ss))))"
      "m = ?c\<lparr>repository := \<lparr>ks_keys = contents m\<rparr>\<rparr>"
      "mset (contents m) = mset (concat (map (keys_of env) (schedule ?ss)))"
      using c0(3) by auto
    have sum: "mset (concat (map (keys_of env) xs)) = (\<Sum>s\<in>#mset xs. mset (keys_of env s))" for xs
      by (induction xs) simp_all
    have keys: "mset (contents m) = mset (concat (map (keys_of env) ?ss))"
      using m(3) sched by (simp add: sum)
    have noerr: "load_errors env xs = [] \<longleftrightarrow> (\<forall>s\<in>set xs. \<forall>e. loaded_keys env s \<noteq> Err e)" for xs
      by (induction xs) (auto simp: load_errors_def List.map_filter_simps split: res.splits option.splits)
    have oks: "is_ok (loaded_keys env s) \<longleftrightarrow> (\<forall>e. loaded_keys env s \<noteq> Err e)"
      if "s \<in> ran (sources ?c)" for s
      using srcs that by (cases "loaded_keys env s") auto
    have all: "load_errors env (schedule ?ss) = [] \<longleftrightarrow> (\<forall>s\<in>ran (sources ?c). is_ok (loaded_keys env s))"
      unfolding noerr sset ss using oks by blast
    show ?thesis
    proof (cases "load_errors env (schedule ?ss) = []")
      case True
      then have "keystore_New env enum schedule options w = (fold (bindSelfRefreshing env) ?ss w, Ok m)"
        using loop m(1) by (simp add: keystore_New_def Let_def)
      then show ?thesis
        using True all Ok m(2) keys ss by (auto simp: fold_bindSelfRefreshing)
    next
      case False
      then obtain err where "join_loop None (load_errors env (schedule ?ss)) = Some err"
        using join_loop_None_iff by (metis not_None_eq)
      then have "keystore_New env enum schedule options w = fail_new env enum err m w"
        using loop m(1) by (simp add: keystore_New_def Let_def)
      then show ?thesis using False all fail [OF m(2), of err] by auto
    qed
  next
    case (Err err)
    then have "option_loop options empty_store = (?c, Err err)"
      by (simp add: configured_def prod_eq_iff)
    then have "keystore_New env enum schedule options w = fail_new env enum err ?c w"
      by (simp add: keystore_New_def)
    then show ?thesis using Err fail [of ?c "repository ?c" err] by auto
  next
    case (Panic p)
    then show ?thesis using np by simp
  qed
qed

text \<open>C21: Constructing a store succeeds exactly when every option is accepted and every source loads. Then
  the repository holds exactly the keys of the sources, and exactly the self-refreshing sources have a
  callback. Otherwise every source that was accepted is closed, and no self-refreshing one keeps a
  callback to the discarded store. This holds for every order of enumeration and of completion of the
  loads, for sources that label their candidates with their own ID.\<close>

theorem keystore_New_exact:
  assumes "good_enumeration enum" "\<forall>xs. mset (schedule xs) = mset xs"
    and "\<forall>opt\<in>set options. package_option env opt"
    and "\<forall>s\<in>ran (sources (configured options)). labelled env s \<and> (\<forall>p. loaded_keys env s \<noteq> Panic p)"
  shows "(snd (option_loop options empty_store) = Ok ()
        \<and> (\<forall>s\<in>ran (sources (configured options)). is_ok (loaded_keys env s))
        \<and> (\<exists>m. keystore_New env enum schedule options w =
             ((\<lambda>s. if s \<in> ran (sources (configured options)) \<and> src_self_refreshing env s
                   then (w s)\<lparr>ss_callback := Some (src_ID env s)\<rparr> else w s), Ok m)
           \<and> m = (configured options)\<lparr>repository := \<lparr>ks_keys = contents m\<rparr>\<rparr>
           \<and> mset (contents m) = mset (concat (map (keys_of env) (enum (sources (configured options)))))))
     \<or> (\<not> (snd (option_loop options empty_store) = Ok ()
          \<and> (\<forall>s\<in>ran (sources (configured options)). is_ok (loaded_keys env s)))
        \<and> (\<exists>e. keystore_New env enum schedule options w =
             ((\<lambda>s. if s \<in> ran (sources (configured options)) then after_close env s (w s) else w s), Err e)))"
  using assms by (rule keystore_New_result)

theorem keystore_New_exact_witness:
  "\<exists>m w'. keystore_New (sample_env True) (\<lambda>ss. sorted_list_of_set (ran ss)) (\<lambda>xs. xs)
       [Some (keystore_WithSource (sample_env True) (Some 0) None), None] sample_world = (w', Ok m)
     \<and> contents m = [sample_source_key True 0] \<and> ss_callback (w' 0) = Some ''a''"
proof -
  let ?env = "sample_env True" and ?enum = "\<lambda>ss :: string \<rightharpoonup> source. sorted_list_of_set (ran ss)"
  let ?opts = "[Some (keystore_WithSource ?env (Some 0) None), None]"
  have enum: "good_enumeration ?enum"
    by (simp add: good_enumeration_def enumerates_def finite_ran)
  have loop: "option_loop ?opts empty_store = (empty_store\<lparr>sources := [''a'' \<mapsto> 0]\<rparr>, Ok ())"
    by (simp add: keystore_WithSource_def sample_IDs)
  then have c: "configured ?opts = empty_store\<lparr>sources := [''a'' \<mapsto> 0]\<rparr>" by (simp add: configured_def)
  have opts: "\<forall>opt\<in>set ?opts. package_option ?env opt" by (auto simp: package_option_def)
  have srcs: "\<forall>s\<in>ran (sources (configured ?opts)). labelled ?env s \<and> (\<forall>p. loaded_keys ?env s \<noteq> Panic p)"
    by simp
  have sched: "\<forall>xs. mset ((\<lambda>xs. xs) xs) = mset xs" by simp
  have ok: "snd (option_loop ?opts empty_store) = Ok ()
      \<and> (\<forall>s\<in>ran (sources (configured ?opts)). is_ok (loaded_keys ?env s))"
    unfolding loop by simp
  obtain m where m: "keystore_New ?env ?enum (\<lambda>xs. xs) ?opts sample_world =
      ((\<lambda>s. if s \<in> ran (sources (configured ?opts)) \<and> src_self_refreshing ?env s
            then (sample_world s)\<lparr>ss_callback := Some (src_ID ?env s)\<rparr> else sample_world s), Ok m)"
    "mset (contents m) = mset (concat (map (keys_of ?env) (?enum (sources (configured ?opts)))))"
    using keystore_New_exact [OF enum sched opts srcs, of sample_world] ok by blast
  then have "contents m = [sample_source_key True 0]" by (simp add: c keys_of_def)
  then show ?thesis using m(1) by (simp add: c)
qed

end
