(* ===== verification/Store_Concurrency.thy ===== *)
theory Store_Concurrency
  imports Store_Lifecycle
begin

text \<open>
  The store under concurrent use: any number of \<^verbatim>\<open>Bind\<close> calls, \<^verbatim>\<open>RefreshAll\<close> loads, refresh callbacks
  (also late ones, that a source fetched before it was told to forget them) and one running \<^verbatim>\<open>Close\<close>
  interleave between the critical sections of the source code, which are the functions of
  \<open>Store_Lifecycle\<close>. What \<^verbatim>\<open>Load\<close> returns is arbitrary at every call.
\<close>

section \<open>The system\<close>

text \<open>The program counter of a \<^verbatim>\<open>Bind\<close> call past its first critical section, and that of \<^verbatim>\<open>Close\<close>.\<close>

datatype bind_pc = Loading | Loaded "Key list res" | Committed | Finished

record bind_task =
  bt_id :: string
  bt_source :: source
  bt_pc :: bind_pc

datatype close_pc =
    Idle
  | ClosingLoading "source list"
  | Waiting
  | ClosingBound "source list"
  | ClosedDone

text \<open>
  \<open>sys_issued\<close> are the IDs of the callbacks ever handed to a source, \<open>sys_refresh\<close> the sources that
  calls of \<^verbatim>\<open>RefreshAll\<close> are still loading.
\<close>

record system =
  sys_store :: store
  sys_world :: world
  sys_binds :: "nat \<rightharpoonup> bind_task"
  sys_close :: close_pc
  sys_issued :: "string list"
  sys_refresh :: "source list"

text \<open>The steps of the calls in progress: the rest of every \<^verbatim>\<open>Bind\<close>, and \<^verbatim>\<open>Close\<close>.\<close>

inductive worker_step :: "environment \<Rightarrow> system \<Rightarrow> system \<Rightarrow> bool" for env where
  bind_loaded: "sys_binds S t = Some \<lparr>bt_id = sid, bt_source = s, bt_pc = Loading\<rparr> \<Longrightarrow>
     load_keys env sid loaded = outcome \<Longrightarrow> (\<And>p. outcome \<noteq> Panic p) \<Longrightarrow>
     worker_step env S (S\<lparr>sys_binds := (sys_binds S)
       (t \<mapsto> \<lparr>bt_id = sid, bt_source = s, bt_pc = Loaded outcome\<rparr>)\<rparr>)"
| bind_committed: "sys_binds S t = Some \<lparr>bt_id = sid, bt_source = s, bt_pc = Loaded outcome\<rparr> \<Longrightarrow>
     bind_commit sid s outcome (sys_store S) = (m', Ok u) \<Longrightarrow>
     worker_step env S (S\<lparr>sys_store := m', sys_binds := (sys_binds S)
       (t \<mapsto> \<lparr>bt_id = sid, bt_source = s, bt_pc = Committed\<rparr>)\<rparr>)"
| bind_failed: "sys_binds S t = Some \<lparr>bt_id = sid, bt_source = s, bt_pc = Loaded outcome\<rparr> \<Longrightarrow>
     bind_commit sid s outcome (sys_store S) = (m', Err e) \<Longrightarrow>
     worker_step env S (S\<lparr>sys_store := m', sys_binds := (sys_binds S)
       (t \<mapsto> \<lparr>bt_id = sid, bt_source = s, bt_pc = Finished\<rparr>)\<rparr>)"
| bind_activated: "sys_binds S t = Some \<lparr>bt_id = sid, bt_source = s, bt_pc = Committed\<rparr> \<Longrightarrow>
     worker_step env S (S\<lparr>sys_world := bindSelfRefreshing env s (sys_world S),
       sys_issued := (if src_self_refreshing env s then [src_ID env s] else []) @ sys_issued S,
       sys_binds := (sys_binds S)(t \<mapsto> \<lparr>bt_id = sid, bt_source = s, bt_pc = Finished\<rparr>)\<rparr>)"
| bind_finished: "sys_binds S t = Some \<lparr>bt_id = sid, bt_source = s, bt_pc = Finished\<rparr> \<Longrightarrow>
     worker_step env S (S\<lparr>sys_store := bind_done (sys_store S), sys_binds := (sys_binds S)(t := None)\<rparr>)"
| close_loading: "sys_close S = ClosingLoading (s # ss) \<Longrightarrow>
     close_loading_one env s (sys_store S, sys_world S) = (m', w') \<Longrightarrow>
     worker_step env S (S\<lparr>sys_store := m', sys_world := w', sys_close := ClosingLoading ss\<rparr>)"
| close_wait: "sys_close S = ClosingLoading [] \<Longrightarrow> worker_step env S (S\<lparr>sys_close := Waiting\<rparr>)"
| close_waited: "sys_close S = Waiting \<Longrightarrow> bindWG (sys_store S) = 0 \<Longrightarrow>
     enumerates order (sources (sys_store S)) \<Longrightarrow>
     worker_step env S (S\<lparr>sys_close := ClosingBound order\<rparr>)"
| close_bound: "sys_close S = ClosingBound (s # ss) \<Longrightarrow>
     close_bound_one env s (sys_store S, sys_world S) = (m', w') \<Longrightarrow>
     worker_step env S (S\<lparr>sys_store := m', sys_world := w', sys_close := ClosingBound ss\<rparr>)"
| close_end: "sys_close S = ClosingBound [] \<Longrightarrow> worker_step env S (S\<lparr>sys_close := ClosedDone\<rparr>)"

text \<open>
  What clients and sources start: a \<^verbatim>\<open>Bind\<close>, a refresh callback, \<^verbatim>\<open>RefreshAll\<close> and its loads (which do
  not look at \<^verbatim>\<open>closed\<close> again), and the first \<^verbatim>\<open>Close\<close>.
\<close>

inductive external_step :: "environment \<Rightarrow> system \<Rightarrow> system \<Rightarrow> bool" for env where
  bind_start: "TrimSpace (src_ID env s) \<noteq> [] \<Longrightarrow> sys_binds S t = None \<Longrightarrow>
     bind_reserve (src_ID env s) s (sys_store S) = (m', Ok u) \<Longrightarrow>
     external_step env S (S\<lparr>sys_store := m', sys_binds := (sys_binds S)
       (t \<mapsto> \<lparr>bt_id = src_ID env s, bt_source = s, bt_pc = Loading\<rparr>)\<rparr>)"
| callback: "sid \<in> set (sys_issued S) \<Longrightarrow>
     refresh_callback env sid candidates (sys_store S) = (m', r) \<Longrightarrow>
     external_step env S (S\<lparr>sys_store := m'\<rparr>)"
| refresh_start: "\<not> closed (sys_store S) \<Longrightarrow> enumerates order (sources (sys_store S)) \<Longrightarrow>
     external_step env S (S\<lparr>sys_refresh :=
       filter (\<lambda>s. \<not> src_self_refreshing env s) order @ sys_refresh S\<rparr>)"
| refresh_stored: "s \<in> set (sys_refresh S) \<Longrightarrow> load_keys env (src_ID env s) loaded = Ok keys \<Longrightarrow>
     store_keys (src_ID env s) keys (sys_store S) = (m', r) \<Longrightarrow>
     external_step env S (S\<lparr>sys_store := m', sys_refresh := remove1 s (sys_refresh S)\<rparr>)"
| refresh_failed: "s \<in> set (sys_refresh S) \<Longrightarrow> load_keys env (src_ID env s) loaded = Err e \<Longrightarrow>
     external_step env S (S\<lparr>sys_refresh := remove1 s (sys_refresh S)\<rparr>)"
| close_start: "sys_close S = Idle \<Longrightarrow> \<not> closeOnce (sys_store S) \<Longrightarrow>
     enumerates order (loading (sys_store S)) \<Longrightarrow>
     external_step env S (S\<lparr>sys_store := close_begin (sys_store S), sys_close := ClosingLoading order\<rparr>)"

definition step :: "environment \<Rightarrow> system \<Rightarrow> system \<Rightarrow> bool" where
  "step env S S' \<longleftrightarrow> worker_step env S S' \<or> external_step env S S'"

section \<open>The invariant\<close>

text \<open>A \<^verbatim>\<open>Bind\<close> holds its reservation until its second critical section.\<close>

fun reserving :: "bind_pc \<Rightarrow> bool" where
  "reserving Loading = True"
| "reserving (Loaded outcome) = True"
| "reserving Committed = False"
| "reserving Finished = False"

text \<open>What holds of one \<^verbatim>\<open>Bind\<close> in progress, and of all of them together.\<close>

definition task_ok :: "environment \<Rightarrow> store \<Rightarrow> bind_task \<Rightarrow> bool" where
  "task_ok env m b \<longleftrightarrow>
     bt_id b = src_ID env (bt_source b) \<and> TrimSpace (bt_id b) \<noteq> []
     \<and> (reserving (bt_pc b) \<longrightarrow> loading m (bt_id b) = Some (bt_source b))
     \<and> (bt_pc b = Committed \<longrightarrow> sources m (bt_id b) = Some (bt_source b))
     \<and> (\<forall>p. bt_pc b \<noteq> Loaded (Panic p))"

definition holds_ID :: "(nat \<rightharpoonup> bind_task) \<Rightarrow> nat \<Rightarrow> string \<Rightarrow> bool" where
  "holds_ID binds t sid \<longleftrightarrow> (\<exists>b. binds t = Some b \<and> reserving (bt_pc b) \<and> bt_id b = sid)"

definition reservations_ok :: "store \<Rightarrow> (nat \<rightharpoonup> bind_task) \<Rightarrow> bool" where
  "reservations_ok m binds \<longleftrightarrow>
     (\<forall>sid. loading m sid \<noteq> None \<longrightarrow> (\<exists>t. holds_ID binds t sid))
     \<and> (\<forall>t u sid. holds_ID binds t sid \<and> holds_ID binds u sid \<longrightarrow> t = u)"

definition sources_ok :: "environment \<Rightarrow> store \<Rightarrow> bool" where
  "sources_ok env m \<longleftrightarrow>
     sources_keyed env (sources m) \<and> finite (dom (sources m))
     \<and> (\<forall>sid. sources m sid = None \<or> loading m sid = None)"

definition counted :: "store \<Rightarrow> (nat \<rightharpoonup> bind_task) \<Rightarrow> bool" where
  "counted m binds \<longleftrightarrow> finite (dom binds) \<and> bindWG m = card (dom binds)"

definition bindings_ok :: "environment \<Rightarrow> store \<Rightarrow> (nat \<rightharpoonup> bind_task) \<Rightarrow> bool" where
  "bindings_ok env m binds \<longleftrightarrow>
     sources_ok env m \<and> counted m binds \<and> reservations_ok m binds
     \<and> (\<forall>t b. binds t = Some b \<longrightarrow> task_ok env m b)"

definition callbacks_ok :: "environment \<Rightarrow> store \<Rightarrow> world \<Rightarrow> string list \<Rightarrow> bool" where
  "callbacks_ok env m w issued \<longleftrightarrow>
     (\<forall>s sid. ss_callback (w s) = Some sid \<longrightarrow> sources m sid = Some s \<and> src_self_refreshing env s)
     \<and> (\<forall>sid\<in>set issued. sources m sid \<noteq> None)"

text \<open>What the phases of \<^verbatim>\<open>Close\<close> have established.\<close>

definition released :: "world \<Rightarrow> source \<Rightarrow> bool" where
  "released w s \<longleftrightarrow> ss_closed (w s) \<and> ss_callback (w s) = None"

fun closing_ok :: "close_pc \<Rightarrow> store \<Rightarrow> world \<Rightarrow> (nat \<rightharpoonup> bind_task) \<Rightarrow> bool" where
  "closing_ok Idle m w binds = (\<not> closed m \<and> \<not> closeOnce m)"
| "closing_ok (ClosingLoading ss) m w binds = (closed m \<and> closeOnce m)"
| "closing_ok Waiting m w binds = (closed m \<and> closeOnce m)"
| "closing_ok (ClosingBound ss) m w binds =
     (closed m \<and> closeOnce m \<and> binds = Map.empty \<and> (\<forall>s\<in>ran (sources m). s \<in> set ss \<or> released w s))"
| "closing_ok ClosedDone m w binds =
     (closed m \<and> closeOnce m \<and> binds = Map.empty \<and> (\<forall>s\<in>ran (sources m). released w s))"

definition system_inv :: "environment \<Rightarrow> system \<Rightarrow> bool" where
  "system_inv env S \<longleftrightarrow>
     bindings_ok env (sys_store S) (sys_binds S)
     \<and> callbacks_ok env (sys_store S) (sys_world S) (sys_issued S)
     \<and> closing_ok (sys_close S) (sys_store S) (sys_world S) (sys_binds S)"

text \<open>A store just constructed, with the callbacks its construction handed out.\<close>

definition initial_system :: "environment \<Rightarrow> system \<Rightarrow> bool" where
  "initial_system env S \<longleftrightarrow>
     sources_keyed env (sources (sys_store S)) \<and> finite (dom (sources (sys_store S)))
     \<and> loading (sys_store S) = Map.empty \<and> bindWG (sys_store S) = 0
     \<and> \<not> closed (sys_store S) \<and> \<not> closeOnce (sys_store S)
     \<and> sys_binds S = Map.empty \<and> sys_close S = Idle
     \<and> callbacks_ok env (sys_store S) (sys_world S) (sys_issued S)"

section \<open>Preservation\<close>

lemma bind_reserve_OkD:
  "bind_reserve sid s m = (m', Ok u) \<Longrightarrow>
     \<not> closed m \<and> sources m sid = None \<and> loading m sid = None
     \<and> m' = m\<lparr>loading := (loading m)(sid \<mapsto> s), bindWG := bindWG m + 1\<rparr>"
  by (auto simp: bind_reserve_def Let_def split: if_splits)

lemma bind_commit_OkD:
  "bind_commit sid s outcome m = (m', Ok u) \<Longrightarrow>
     \<not> closed m \<and> m' = m\<lparr>repository := repository m', sources := (sources m)(sid \<mapsto> s),
                                loading := (loading m)(sid := None)\<rparr>"
  by (auto simp: bind_commit_def Let_def store_keys_eq split: res.splits if_splits)

lemma bind_commit_ErrD:
  "bind_commit sid s outcome m = (m', Err e) \<Longrightarrow> m' = m\<lparr>loading := (loading m)(sid := None)\<rparr>"
  by (auto simp: bind_commit_def Let_def store_keys_eq split: res.splits if_splits)

lemma refresh_callback_frame:
  "refresh_callback env sid cs m = (m', r) \<Longrightarrow> \<exists>repo. m' = m\<lparr>repository := repo\<rparr> \<and> (closed m \<longrightarrow> m' = m)"
  by (auto simp: refresh_callback_def store_keys_eq split: res.splits if_splits
      intro: exI [of _ "repository m"])

lemma store_keys_frame: "store_keys sid keys m = (m', r) \<Longrightarrow> \<exists>repo. m' = m\<lparr>repository := repo\<rparr>"
  by (auto simp: store_keys_eq)

lemma close_one_frame:
  "close_loading_one env s (m, w) = (m', w') \<Longrightarrow> \<exists>e. m' = m\<lparr>closeErr := e\<rparr> \<and> w' = close_source s w"
  "close_bound_one env s (m, w) = (m', w') \<Longrightarrow> \<exists>e. m' = m\<lparr>closeErr := e\<rparr>
     \<and> w' = w(s := after_close env s (w s))"
  by (auto simp: close_loading_one_def close_bound_one_def Let_def close_source_def
      SetRefreshCallback_def after_close_def)

text \<open>Updates that the parts of the invariant do not see.\<close>

lemma bindings_frame [simp]:
  "bindings_ok env (m\<lparr>repository := r\<rparr>) binds = bindings_ok env m binds"
  "bindings_ok env (m\<lparr>closeErr := e\<rparr>) binds = bindings_ok env m binds"
  "bindings_ok env (close_begin m) binds = bindings_ok env m binds"
  "callbacks_ok env (m\<lparr>repository := r\<rparr>) w issued = callbacks_ok env m w issued"
  "callbacks_ok env (m\<lparr>closeErr := e\<rparr>) w issued = callbacks_ok env m w issued"
  "callbacks_ok env (close_begin m) w issued = callbacks_ok env m w issued"
  "closing_ok pc (m\<lparr>repository := r\<rparr>) w binds = closing_ok pc m w binds"
  "closing_ok pc (m\<lparr>closeErr := e\<rparr>) w binds = closing_ok pc m w binds"
  by (simp_all add: bindings_ok_def sources_ok_def counted_def reservations_ok_def task_ok_def
      callbacks_ok_def close_begin_def) (cases pc; simp)+

text \<open>Moving one task on.\<close>

lemma task_okD:
  "task_ok env m b \<Longrightarrow> reserving (bt_pc b) \<Longrightarrow> loading m (bt_id b) = Some (bt_source b)"
  "task_ok env m b \<Longrightarrow> bt_pc b = Committed \<Longrightarrow> sources m (bt_id b) = Some (bt_source b)"
  "task_ok env m b \<Longrightarrow> bt_id b = src_ID env (bt_source b) \<and> TrimSpace (bt_id b) \<noteq> []
     \<and> (\<forall>p. bt_pc b \<noteq> Loaded (Panic p))"
  unfolding task_ok_def by blast+

lemma bindings_okD:
  "bindings_ok env m binds \<Longrightarrow> binds t = Some b \<Longrightarrow> task_ok env m b"
  "bindings_ok env m binds \<Longrightarrow> sources_ok env m"
  "bindings_ok env m binds \<Longrightarrow> counted m binds"
  "bindings_ok env m binds \<Longrightarrow> reservations_ok m binds"
  by (simp_all add: bindings_ok_def)

lemma holds_ID_update:
  "holds_ID (binds(t \<mapsto> b)) u sid \<longleftrightarrow>
     (if u = t then reserving (bt_pc b) \<and> bt_id b = sid else holds_ID binds u sid)"
  by (simp add: holds_ID_def)

lemma holds_ID_remove: "holds_ID (binds(t := None)) u sid \<longleftrightarrow> u \<noteq> t \<and> holds_ID binds u sid"
  by (simp add: holds_ID_def)

lemma reservations_drop:
  assumes "reservations_ok m binds" "\<And>u sid. holds_ID binds' u sid \<longleftrightarrow> u \<noteq> t \<and> holds_ID binds u sid"
    and "\<And>sid. loading m' sid \<noteq> None \<Longrightarrow> loading m sid \<noteq> None \<and> \<not> holds_ID binds t sid"
  shows "reservations_ok m' binds'"
  using assms unfolding reservations_ok_def by metis

lemma reservations_add:
  assumes "reservations_ok m binds"
    and "\<And>u sid. holds_ID binds' u sid \<longleftrightarrow> (u = t \<and> sid = i) \<or> (u \<noteq> t \<and> holds_ID binds u sid)"
    and "\<And>u. \<not> holds_ID binds u i" "\<And>sid. \<not> holds_ID binds t sid"
    and "\<And>sid. loading m' sid \<noteq> None \<Longrightarrow> sid = i \<or> loading m sid \<noteq> None"
  shows "reservations_ok m' binds'"
  using assms unfolding reservations_ok_def by metis

lemma counted_update: "counted m binds \<Longrightarrow> binds t = Some b \<Longrightarrow> counted m (binds(t \<mapsto> b'))"
  by (simp add: counted_def insert_absorb domI)

lemma counted_frame [simp]:
  "counted (m\<lparr>loading := l\<rparr>) binds = counted m binds"
  "counted (m\<lparr>repository := r, sources := ss, loading := l\<rparr>) binds = counted m binds"
  by (simp_all add: counted_def)

lemma step_bind_start:
  assumes inv: "bindings_ok env m binds" and "binds t = None" "TrimSpace (src_ID env s) \<noteq> []"
    and free: "sources m (src_ID env s) = None" "loading m (src_ID env s) = None"
  shows "bindings_ok env (m\<lparr>loading := (loading m)(src_ID env s \<mapsto> s), bindWG := bindWG m + 1\<rparr>)
     (binds(t \<mapsto> \<lparr>bt_id = src_ID env s, bt_source = s, bt_pc = Loading\<rparr>))"
proof -
  let ?id = "src_ID env s"
  have none: "\<not> holds_ID binds u ?id" for u
  proof
    assume "holds_ID binds u ?id"
    then obtain b where "binds u = Some b" "reserving (bt_pc b)" "bt_id b = ?id"
      by (auto simp: holds_ID_def)
    then have "loading m ?id \<noteq> None" using task_okD(1) [OF bindings_okD(1) [OF inv]] by fastforce
    then show False using free by simp
  qed
  have "task_ok env (m\<lparr>loading := (loading m)(?id \<mapsto> s), bindWG := bindWG m + 1\<rparr>) c"
    if "binds u = Some c" for u c
  proof -
    note c = bindings_okD(1) [OF inv that]
    let ?m = "m\<lparr>loading := (loading m)(?id \<mapsto> s), bindWG := bindWG m + 1\<rparr>"
    have "loading ?m (bt_id c) = Some (bt_source c)" if r: "reserving (bt_pc c)"
    proof -
      have "bt_id c \<noteq> ?id" using none [of u] \<open>binds u = Some c\<close> r by (auto simp: holds_ID_def)
      then show ?thesis using task_okD(1) [OF c r] by simp
    qed
    moreover have "sources ?m (bt_id c) = Some (bt_source c)" if "bt_pc c = Committed"
      using task_okD(2) [OF c that] by simp
    ultimately show ?thesis using task_okD(3) [OF c] unfolding task_ok_def by blast
  qed
  moreover have "task_ok env (m\<lparr>loading := (loading m)(?id \<mapsto> s), bindWG := bindWG m + 1\<rparr>)
      \<lparr>bt_id = ?id, bt_source = s, bt_pc = Loading\<rparr>"
    using assms(3) by (simp add: task_ok_def)
  ultimately have "\<forall>u c. (binds(t \<mapsto> \<lparr>bt_id = ?id, bt_source = s, bt_pc = Loading\<rparr>)) u = Some c \<longrightarrow>
      task_ok env (m\<lparr>loading := (loading m)(?id \<mapsto> s), bindWG := bindWG m + 1\<rparr>) c"
    by auto
  moreover have "reservations_ok (m\<lparr>loading := (loading m)(?id \<mapsto> s), bindWG := bindWG m + 1\<rparr>)
      (binds(t \<mapsto> \<lparr>bt_id = ?id, bt_source = s, bt_pc = Loading\<rparr>))"
    by (rule reservations_add [OF bindings_okD(4) [OF inv], of _ t ?id])
      (auto simp: holds_ID_update none, auto simp: holds_ID_def assms(2) split: if_splits)
  moreover have "sources_ok env (m\<lparr>loading := (loading m)(?id \<mapsto> s), bindWG := bindWG m + 1\<rparr>)"
    using inv free by (auto simp: bindings_ok_def sources_ok_def)
  moreover have "counted (m\<lparr>loading := (loading m)(?id \<mapsto> s), bindWG := bindWG m + 1\<rparr>)
      (binds(t \<mapsto> \<lparr>bt_id = ?id, bt_source = s, bt_pc = Loading\<rparr>))"
    using inv assms(2) by (simp add: bindings_ok_def counted_def domIff)
  ultimately show ?thesis unfolding bindings_ok_def by blast
qed

text \<open>A task that keeps its reservation or needs none.\<close>

lemma step_same_reservation:
  assumes inv: "bindings_ok env m binds" and b: "binds t = Some b"
    and same: "bt_id b' = bt_id b" "bt_source b' = bt_source b"
      "reserving (bt_pc b') = reserving (bt_pc b)" "bt_pc b' = Committed \<Longrightarrow> bt_pc b = Committed"
      "\<And>p. bt_pc b' \<noteq> Loaded (Panic p)"
  shows "bindings_ok env m (binds(t \<mapsto> b'))"
proof -
  have "task_ok env m b'"
    using bindings_okD(1) [OF inv b] same unfolding task_ok_def by metis
  moreover have "holds_ID (binds(t \<mapsto> b')) u sid = holds_ID binds u sid" for u sid
    using b same by (auto simp: holds_ID_def)
  ultimately show ?thesis
    using inv counted_update [where b = b] b by (auto simp: bindings_ok_def reservations_ok_def)
qed

text \<open>The second critical section: the task gives its reservation up, and may bind its source.\<close>

lemma step_release:
  assumes inv: "bindings_ok env m binds" and b: "binds t = Some b" "reserving (bt_pc b)"
    and b': "bt_id b' = bt_id b" "bt_source b' = bt_source b" "\<not> reserving (bt_pc b')"
    and m': "loading m' = (loading m)(bt_id b := None)" "bindWG m' = bindWG m"
      "sources m' = sources m \<and> bt_pc b' \<noteq> Committed \<or> sources m' = (sources m)(bt_id b \<mapsto> bt_source b)"
  shows "bindings_ok env m' (binds(t \<mapsto> b'))"
proof -
  have task: "task_ok env m b" using inv b by (simp add: bindings_ok_def)
  have other: "bt_id c \<noteq> bt_id b" if "binds u = Some c" "reserving (bt_pc c)" "u \<noteq> t" for u c
    using inv b that unfolding bindings_ok_def reservations_ok_def holds_ID_def by metis
  have hold: "holds_ID binds t sid \<longleftrightarrow> bt_id b = sid" for sid
    using b by (simp add: holds_ID_def)
  have unbound: "sources m (bt_id b) = None"
    using bindings_okD(2) [OF inv] task_okD(1) [OF task b(2)] unfolding sources_ok_def by (metis option.distinct(1))
  have "task_ok env m' c" if c: "binds u = Some c" "u \<noteq> t" for u c
  proof -
    have ok: "task_ok env m c" using inv c by (simp add: bindings_ok_def)
    have "loading m' (bt_id c) = Some (bt_source c)" if r: "reserving (bt_pc c)"
      using other [OF c(1) r c(2)] task_okD(1) [OF ok r] by (simp add: m')
    moreover have "sources m' (bt_id c) = Some (bt_source c)" if "bt_pc c = Committed"
      using m'(3) task_okD(2) [OF ok that] unbound by auto
    ultimately show ?thesis using task_okD(3) [OF ok] unfolding task_ok_def by blast
  qed
  moreover have "task_ok env m' b'"
    using task_okD(3) [OF task] b' m'(3) unfolding task_ok_def by (metis fun_upd_same reserving.simps(2))
  ultimately have "\<forall>u c. (binds(t \<mapsto> b')) u = Some c \<longrightarrow> task_ok env m' c" by auto
  moreover have "reservations_ok m' (binds(t \<mapsto> b'))"
    by (rule reservations_drop [OF bindings_okD(4) [OF inv], of _ t])
      (auto simp: holds_ID_update b'(3) m' hold split: if_splits)
  moreover have "sources_ok env m'"
    using bindings_okD(2) [OF inv] task_okD(3) [OF task] m'(1,3)
    by (elim disjE conjE) (simp_all add: sources_ok_def sources_keyed_def)
  moreover have "counted m' (binds(t \<mapsto> b'))"
    using inv counted_update [where b = b] b(1) m'(2) by (simp add: bindings_ok_def counted_def)
  ultimately show ?thesis unfolding bindings_ok_def by blast
qed

lemma step_bind_finished:
  assumes inv: "bindings_ok env m binds" and b: "binds t = Some b" "\<not> reserving (bt_pc b)"
  shows "bindings_ok env (bind_done m) (binds(t := None))"
proof -
  have hold: "\<not> holds_ID binds t sid" for sid
    using b by (simp add: holds_ID_def)
  have "card (dom binds - {t}) = card (dom binds) - 1"
    using inv b by (simp add: bindings_ok_def counted_def domI)
  then have "counted (bind_done m) (binds(t := None))"
    using inv by (simp add: bindings_ok_def counted_def bind_done_def)
  moreover have "reservations_ok (bind_done m) (binds(t := None))"
    by (rule reservations_drop [OF bindings_okD(4) [OF inv], of _ t])
      (auto simp: holds_ID_remove bind_done_def hold b(2))
  moreover have "sources_ok env (bind_done m) = sources_ok env m" "task_ok env (bind_done m) = task_ok env m"
    by (simp_all add: fun_eq_iff sources_ok_def task_ok_def bind_done_def)
  ultimately show ?thesis
    using inv by (simp add: bindings_ok_def)
qed

text \<open>Frames for the other two parts.\<close>

lemma closing_ok_live:
  assumes "closing_ok pc m w binds" "binds t = Some b"
  shows "closing_ok pc m w' binds'"
  using assms by (cases pc) auto

lemma closing_ok_store:
  assumes "closing_ok pc m w binds" "binds t = Some b" "closed m' = closed m" "closeOnce m' = closeOnce m"
  shows "closing_ok pc m' w' binds'"
  using assms by (cases pc) auto

lemma callbacks_ok_mono:
  assumes "callbacks_ok env m w issued" "\<And>sid s. sources m sid = Some s \<Longrightarrow> sources m' sid = Some s"
  shows "callbacks_ok env m' w issued"
  using assms unfolding callbacks_ok_def by (metis not_None_eq)

lemma worker_step_inv:
  assumes "worker_step env S S'" "system_inv env S"
  shows "system_inv env S'"
  using assms
proof (induction rule: worker_step.induct)
  case (bind_loaded S t sid s loaded outcome)
  then have inv: "bindings_ok env (sys_store S) (sys_binds S)"
    "callbacks_ok env (sys_store S) (sys_world S) (sys_issued S)"
    "closing_ok (sys_close S) (sys_store S) (sys_world S) (sys_binds S)"
    unfolding system_inv_def by blast+
  have "bindings_ok env (sys_store S)
      ((sys_binds S)(t \<mapsto> \<lparr>bt_id = sid, bt_source = s, bt_pc = Loaded outcome\<rparr>))"
    by (rule step_same_reservation [OF inv(1) bind_loaded.hyps(1)]) (simp_all add: bind_loaded.hyps(3))
  then show ?case
    using inv(2) closing_ok_live [OF inv(3) bind_loaded.hyps(1)] by (simp add: system_inv_def)
next
  case (bind_committed S t sid s outcome m' u)
  let ?b = "\<lparr>bt_id = sid, bt_source = s, bt_pc = Loaded outcome\<rparr>"
  note D = bind_commit_OkD [OF bind_committed.hyps(2)]
  from bind_committed have inv: "bindings_ok env (sys_store S) (sys_binds S)"
    "callbacks_ok env (sys_store S) (sys_world S) (sys_issued S)"
    "closing_ok (sys_close S) (sys_store S) (sys_world S) (sys_binds S)"
    unfolding system_inv_def by blast+
  have m': "loading m' = (loading (sys_store S))(sid := None)" "bindWG m' = bindWG (sys_store S)"
    "sources m' = (sources (sys_store S))(sid \<mapsto> s)" "closed m' = closed (sys_store S)"
    "closeOnce m' = closeOnce (sys_store S)"
    by (subst conjunct2 [OF D], simp)+
  have b: "bindings_ok env m' ((sys_binds S)(t \<mapsto> \<lparr>bt_id = sid, bt_source = s, bt_pc = Committed\<rparr>))"
    by (rule step_release [OF inv(1) bind_committed.hyps(1)]) (simp_all add: m')
  have "sources (sys_store S) sid = None"
    using bindings_okD(2) [OF inv(1)] task_okD(1) [OF bindings_okD(1) [OF inv(1) bind_committed.hyps(1)]]
    unfolding sources_ok_def by (metis bind_task.select_convs(1,3) option.distinct(1) reserving.simps(2))
  then have "callbacks_ok env m' (sys_world S) (sys_issued S)"
    by (intro callbacks_ok_mono [OF inv(2)]) (auto simp: m')
  then show ?case
    using b closing_ok_store [OF inv(3) bind_committed.hyps(1) m'(4,5)] by (simp add: system_inv_def)
next
  case (bind_failed S t sid s outcome m' e)
  note D = bind_commit_ErrD [OF bind_failed.hyps(2)]
  from bind_failed have inv: "bindings_ok env (sys_store S) (sys_binds S)"
    "callbacks_ok env (sys_store S) (sys_world S) (sys_issued S)"
    "closing_ok (sys_close S) (sys_store S) (sys_world S) (sys_binds S)"
    unfolding system_inv_def by blast+
  have b: "bindings_ok env m' ((sys_binds S)(t \<mapsto> \<lparr>bt_id = sid, bt_source = s, bt_pc = Finished\<rparr>))"
    by (rule step_release [OF inv(1) bind_failed.hyps(1)]) (simp_all add: D)
  have "callbacks_ok env m' (sys_world S) (sys_issued S)"
    by (rule callbacks_ok_mono [OF inv(2)]) (simp add: D)
  then show ?case
    using b closing_ok_store [OF inv(3) bind_failed.hyps(1), of m'] by (simp add: system_inv_def D)
next
  case (bind_activated S t sid s)
  from bind_activated have inv: "bindings_ok env (sys_store S) (sys_binds S)"
    "callbacks_ok env (sys_store S) (sys_world S) (sys_issued S)"
    "closing_ok (sys_close S) (sys_store S) (sys_world S) (sys_binds S)"
    unfolding system_inv_def by blast+
  note task = bindings_okD(1) [OF inv(1) bind_activated.hyps(1)]
  have bound: "sources (sys_store S) (src_ID env s) = Some s"
    using task_okD(2,3) [OF task] by simp
  have b: "bindings_ok env (sys_store S)
      ((sys_binds S)(t \<mapsto> \<lparr>bt_id = sid, bt_source = s, bt_pc = Finished\<rparr>))"
    by (rule step_same_reservation [OF inv(1) bind_activated.hyps(1)]) simp_all
  have "callbacks_ok env (sys_store S) (bindSelfRefreshing env s (sys_world S))
      ((if src_self_refreshing env s then [src_ID env s] else []) @ sys_issued S)"
    using inv(2) bound
    by (auto simp: callbacks_ok_def bindSelfRefreshing_def SetRefreshCallback_def Let_def)
  then show ?case
    using b closing_ok_live [OF inv(3) bind_activated.hyps(1)] by (simp add: system_inv_def)
next
  case (bind_finished S t sid s)
  from bind_finished have inv: "bindings_ok env (sys_store S) (sys_binds S)"
    "callbacks_ok env (sys_store S) (sys_world S) (sys_issued S)"
    "closing_ok (sys_close S) (sys_store S) (sys_world S) (sys_binds S)"
    unfolding system_inv_def by blast+
  have b: "bindings_ok env (bind_done (sys_store S)) ((sys_binds S)(t := None))"
    by (rule step_bind_finished [OF inv(1) bind_finished.hyps(1)]) simp
  have "callbacks_ok env (bind_done (sys_store S)) (sys_world S) (sys_issued S)"
    by (rule callbacks_ok_mono [OF inv(2)]) (simp add: bind_done_def)
  then show ?case
    using b closing_ok_store [OF inv(3) bind_finished.hyps(1), of "bind_done (sys_store S)"]
    by (simp add: system_inv_def bind_done_def)
next
  case (close_loading S s ss m' w')
  obtain e where "m' = (sys_store S)\<lparr>closeErr := e\<rparr>" "w' = close_source s (sys_world S)"
    using close_one_frame(1) [OF close_loading.hyps(2)] by blast
  then show ?case
    using close_loading by (auto simp: system_inv_def callbacks_ok_def close_source_def)
next
  case (close_wait S)
  then show ?case by (simp add: system_inv_def)
next
  case (close_waited S order)
  then have "sys_binds S = Map.empty"
    by (auto simp: system_inv_def bindings_ok_def counted_def)
  then show ?case using close_waited by (simp add: system_inv_def enumerates_def)
next
  case (close_bound S s ss m' w')
  obtain e where m': "m' = (sys_store S)\<lparr>closeErr := e\<rparr>"
    and w': "w' = (sys_world S)(s := after_close env s (sys_world S s))"
    using close_one_frame(2) [OF close_bound.hyps(2)] by blast
  from close_bound have inv: "bindings_ok env (sys_store S) (sys_binds S)"
    "callbacks_ok env (sys_store S) (sys_world S) (sys_issued S)"
    "closing_ok (sys_close S) (sys_store S) (sys_world S) (sys_binds S)"
    unfolding system_inv_def by blast+
  have cb: "callbacks_ok env (sys_store S) w' (sys_issued S)"
  proof -
    have "ss_callback (w' t) = Some sid \<Longrightarrow> ss_callback (sys_world S t) = Some sid" for t sid
      by (simp add: w' after_close_def split: if_splits)
    then show ?thesis using inv(2) unfolding callbacks_ok_def by blast
  qed
  have "released w' s"
  proof -
    have "\<not> src_self_refreshing env s \<Longrightarrow> ss_callback (sys_world S s) = None"
      using inv(2) unfolding callbacks_ok_def by (meson not_None_eq)
    then show ?thesis by (simp add: released_def w' after_close_def)
  qed
  moreover have "released (sys_world S) t \<Longrightarrow> released w' t" for t
    by (auto simp: released_def w' after_close_def)
  ultimately have "closing_ok (ClosingBound ss) (sys_store S) w' (sys_binds S)"
    using inv(3) close_bound.hyps(1) by auto
  then show ?case using inv(1) cb by (simp add: system_inv_def m')
next
  case (close_end S)
  then show ?case by (cases S) (auto simp: system_inv_def)
qed

lemma external_step_inv:
  assumes "external_step env S S'" "system_inv env S"
  shows "system_inv env S'"
  using assms
proof (induction rule: external_step.induct)
  case (bind_start s S t m' u)
  note D = bind_reserve_OkD [OF bind_start.hyps(3)]
  from bind_start have inv: "bindings_ok env (sys_store S) (sys_binds S)"
    "callbacks_ok env (sys_store S) (sys_world S) (sys_issued S)"
    "closing_ok (sys_close S) (sys_store S) (sys_world S) (sys_binds S)"
    unfolding system_inv_def by blast+
  have idle: "sys_close S = Idle" "\<not> closeOnce (sys_store S)" using D inv(3) by (cases "sys_close S"; simp)+
  have "bindings_ok env m' ((sys_binds S)(t \<mapsto> \<lparr>bt_id = src_ID env s, bt_source = s, bt_pc = Loading\<rparr>))"
    using step_bind_start [OF inv(1) bind_start.hyps(2,1)] D by simp
  moreover have "callbacks_ok env m' (sys_world S) (sys_issued S)"
    by (rule callbacks_ok_mono [OF inv(2)]) (simp add: D)
  ultimately show ?case using idle D by (simp add: system_inv_def)
next
  case (callback sid S candidates m' r)
  obtain repo where "m' = (sys_store S)\<lparr>repository := repo\<rparr>"
    using refresh_callback_frame [OF callback.hyps(2)] by blast
  then show ?case using callback by (simp add: system_inv_def)
next
  case (refresh_start S order)
  then show ?case by (simp add: system_inv_def)
next
  case (refresh_stored s S loaded keys m' r)
  obtain repo where "m' = (sys_store S)\<lparr>repository := repo\<rparr>"
    using store_keys_frame [OF refresh_stored.hyps(3)] by blast
  then show ?case using refresh_stored by (simp add: system_inv_def)
next
  case (refresh_failed s S loaded e)
  then show ?case by (simp add: system_inv_def)
next
  case (close_start S order)
  then show ?case by (simp add: system_inv_def) (simp add: close_begin_def)
qed

lemma initial_system_inv: "initial_system env S \<Longrightarrow> system_inv env S"
  by (auto simp: initial_system_def system_inv_def bindings_ok_def sources_ok_def counted_def
      reservations_ok_def holds_ID_def)

definition reachable :: "environment \<Rightarrow> system \<Rightarrow> bool" where
  "reachable env S \<longleftrightarrow> (\<exists>S0. initial_system env S0 \<and> (step env)\<^sup>*\<^sup>* S0 S)"

lemma reachable_inv:
  assumes "reachable env S"
  shows "system_inv env S"
proof -
  from assms obtain S0 where "initial_system env S0" "(step env)\<^sup>*\<^sup>* S0 S" by (auto simp: reachable_def)
  from this(2,1) show ?thesis
    by (induction rule: rtranclp_induct)
      (auto simp: step_def intro: initial_system_inv worker_step_inv external_step_inv)
qed

section \<open>A sample run\<close>

text \<open>A store with one bound, self-refreshing source, and the states it goes through when it is closed.\<close>

definition sample_system :: system where
  "sample_system = \<lparr>
     sys_store = empty_store\<lparr>sources := [''a'' \<mapsto> 0]\<rparr>,
     sys_world = sample_world(0 := \<lparr>ss_closed = False, ss_callback = Some ''a''\<rparr>),
     sys_binds = Map.empty, sys_close = Idle, sys_issued = [''a''], sys_refresh = []\<rparr>"

definition sample_closing :: system where
  "sample_closing = sample_system\<lparr>sys_store := close_begin (sys_store sample_system),
     sys_close := ClosingLoading []\<rparr>"

lemma sample_initial: "initial_system (sample_env True) sample_system"
  by (auto simp: initial_system_def sample_system_def sources_keyed_def callbacks_ok_def sample_IDs
      sample_world_def empty_store_def split: if_splits)

lemma sample_reachable: "reachable (sample_env True) sample_system"
  using sample_initial by (auto simp: reachable_def)

lemma reachable_step: "reachable env S \<Longrightarrow> step env S S' \<Longrightarrow> reachable env S'"
  unfolding reachable_def by (meson rtranclp.rtrancl_into_rtrancl)

lemma sample_closing_reachable: "reachable (sample_env True) sample_closing"
proof (rule reachable_step [OF sample_reachable])
  show "step (sample_env True) sample_system sample_closing"
    unfolding step_def sample_closing_def
    by (intro disjI2 external_step.close_start) (simp_all add: sample_system_def enumerates_def)
qed

lemma sample_closed_reachable:
  "\<exists>S. reachable (sample_env True) S \<and> sys_close S = ClosedDone \<and> sources (sys_store S) = [''a'' \<mapsto> 0]"
proof -
  let ?env = "sample_env True"
  let ?S2 = "sample_closing\<lparr>sys_close := Waiting\<rparr>"
  let ?S3 = "?S2\<lparr>sys_close := ClosingBound [0]\<rparr>"
  have "reachable ?env ?S2"
    by (rule reachable_step [OF sample_closing_reachable])
      (simp add: step_def, intro disjI1 worker_step.close_wait, simp add: sample_closing_def)
  then have "reachable ?env ?S3"
    by (rule reachable_step)
      (simp only: step_def, intro disjI1 worker_step.close_waited,
        simp_all add: sample_closing_def sample_system_def close_begin_def enumerates_def empty_store_def)
  moreover obtain m' w' where one: "close_bound_one ?env 0 (sys_store ?S3, sys_world ?S3) = (m', w')"
    by fastforce
  ultimately have "reachable ?env (?S3\<lparr>sys_store := m', sys_world := w', sys_close := ClosingBound []\<rparr>)"
    using worker_step.close_bound [of ?S3 0 "[]" ?env m' w'] reachable_step
    by (simp add: step_def)
  then have "reachable ?env (?S3\<lparr>sys_store := m', sys_world := w', sys_close := ClosedDone\<rparr>)"
    using worker_step.close_end [of "?S3\<lparr>sys_store := m', sys_world := w', sys_close := ClosingBound []\<rparr>" ?env]
      reachable_step [of ?env "?S3\<lparr>sys_store := m', sys_world := w', sys_close := ClosingBound []\<rparr>"]
    by (simp add: step_def)
  moreover have "sources m' = [''a'' \<mapsto> 0]"
    using close_one_frame(2) [OF one] by (auto simp: sample_closing_def sample_system_def close_begin_def)
  ultimately show ?thesis
    by (intro exI [of _ "?S3\<lparr>sys_store := m', sys_world := w', sys_close := ClosedDone\<rparr>"]) simp
qed

section \<open>Safety\<close>

text \<open>C24: However calls interleave, an ID is never both bound and being loaded, every source is registered
  under its own ID, every reservation belongs to exactly one \<^verbatim>\<open>Bind\<close> in progress, the wait group counts
  the \<^verbatim>\<open>Bind\<close> calls in progress, and only bound, self-refreshing sources have a callback, the one for
  their own ID.\<close>

theorem concurrent_invariant:
  assumes "reachable env S"
  shows "(sources (sys_store S) sid = None \<or> loading (sys_store S) sid = None)
     \<and> (\<forall>s. sources (sys_store S) sid = Some s \<longrightarrow> src_ID env s = sid)
     \<and> (\<forall>s. loading (sys_store S) sid = Some s \<longrightarrow>
          (\<exists>!t. holds_ID (sys_binds S) t sid) \<and> src_ID env s = sid)
     \<and> bindWG (sys_store S) = card (dom (sys_binds S))
     \<and> (\<forall>s. ss_callback (sys_world S s) = Some sid \<longrightarrow>
          sources (sys_store S) sid = Some s \<and> src_self_refreshing env s)"
proof -
  let ?m = "sys_store S"
  have inv: "bindings_ok env ?m (sys_binds S)" "callbacks_ok env ?m (sys_world S) (sys_issued S)"
    using reachable_inv [OF assms] by (simp_all add: system_inv_def)
  have "(\<exists>!t. holds_ID (sys_binds S) t sid) \<and> src_ID env s = sid" if l: "loading ?m sid = Some s" for s
  proof -
    obtain t where t: "holds_ID (sys_binds S) t sid"
      using bindings_okD(4) [OF inv(1)] l unfolding reservations_ok_def by blast
    then obtain b where b: "sys_binds S t = Some b" "reserving (bt_pc b)" "bt_id b = sid"
      unfolding holds_ID_def by blast
    note task = bindings_okD(1) [OF inv(1) b(1)]
    have "bt_source b = s" using task_okD(1) [OF task b(2)] b(3) l by simp
    then have "src_ID env s = sid" using task_okD(3) [OF task] b(3) by simp
    moreover have "\<exists>!t. holds_ID (sys_binds S) t sid"
      using t bindings_okD(4) [OF inv(1)] unfolding reservations_ok_def by blast
    ultimately show ?thesis by blast
  qed
  moreover have "sources ?m sid = None \<or> loading ?m sid = None"
    "\<forall>s. sources ?m sid = Some s \<longrightarrow> src_ID env s = sid"
    using bindings_okD(2) [OF inv(1)] by (auto simp: sources_ok_def sources_keyed_def)
  moreover have "bindWG ?m = card (dom (sys_binds S))"
    using bindings_okD(3) [OF inv(1)] by (simp add: counted_def)
  ultimately show ?thesis using inv(2) unfolding callbacks_ok_def by blast
qed

theorem concurrent_invariant_witness:
  "bindWG (sys_store sample_system) = card (dom (sys_binds sample_system))
   \<and> ss_callback (sys_world sample_system 0) = Some ''a''"
  using concurrent_invariant [OF sample_reachable, of "''a''"] by (simp add: sample_system_def)

text \<open>C25: When \<^verbatim>\<open>Close\<close> has returned, no \<^verbatim>\<open>Bind\<close> is in progress and nothing is reserved, every source that was
  ever bound is closed, and no source has a callback into the store, whatever ran concurrently. In
  particular a \<^verbatim>\<open>Bind\<close> that committed just before \<^verbatim>\<open>Close\<close> began and installed its callback only after
  is not missed.\<close>

theorem close_complete:
  assumes "reachable env S" "sys_close S = ClosedDone"
  shows "closed (sys_store S) \<and> sys_binds S = Map.empty \<and> loading (sys_store S) = Map.empty
     \<and> (\<forall>s\<in>ran (sources (sys_store S)). ss_closed (sys_world S s))
     \<and> (\<forall>s. ss_callback (sys_world S s) = None)"
proof -
  let ?m = "sys_store S"
  have inv: "bindings_ok env ?m (sys_binds S)" "callbacks_ok env ?m (sys_world S) (sys_issued S)"
    "closing_ok (sys_close S) ?m (sys_world S) (sys_binds S)"
    using reachable_inv [OF assms(1)] unfolding system_inv_def by blast+
  have fin: "closed ?m" "sys_binds S = Map.empty" "\<forall>s\<in>ran (sources ?m). released (sys_world S) s"
    using inv(3) assms(2) by simp_all
  have "loading ?m sid = None" for sid
    using bindings_okD(4) [OF inv(1)] fin(2) unfolding reservations_ok_def holds_ID_def
    by (metis option.distinct(1))
  then have "loading ?m = Map.empty" by (simp add: fun_eq_iff)
  moreover have "ss_callback (sys_world S s) = None" for s
  proof (cases "ss_callback (sys_world S s)")
    case (Some sid)
    then have "s \<in> ran (sources ?m)" using inv(2) unfolding callbacks_ok_def by (auto intro: ranI)
    then show ?thesis using fin(3) by (simp add: released_def)
  qed simp
  ultimately show ?thesis using fin by (simp add: released_def)
qed

theorem close_complete_witness:
  "\<exists>S. reachable (sample_env True) S \<and> sources (sys_store S) = [''a'' \<mapsto> 0]
     \<and> ss_closed (sys_world S 0) \<and> ss_callback (sys_world S 0) = None"
proof -
  obtain S where S: "reachable (sample_env True) S" "sys_close S = ClosedDone"
    "sources (sys_store S) = [''a'' \<mapsto> 0]"
    using sample_closed_reachable by blast
  from close_complete [OF S(1,2)] S show ?thesis by auto
qed

text \<open>C26: From the moment \<^verbatim>\<open>Close\<close> has begun the store stays closed, no source gets in, and no \<^verbatim>\<open>Bind\<close> and no
  \<^verbatim>\<open>RefreshAll\<close> starts, whatever step is taken: a \<^verbatim>\<open>Bind\<close> already in progress cannot commit any more, and a
  late refresh callback is refused. The keys can still change in one way only, because the loads of a
  \<^verbatim>\<open>RefreshAll\<close> that had started before do not look at \<^verbatim>\<open>closed\<close> again: each of these loads, of which no new
  ones come, replaces the keys of its own source by the ones it loaded, and is then over.\<close>

theorem closed_store_frozen:
  assumes "reachable env S" "closed (sys_store S)" "step env S S'"
  shows "closed (sys_store S') \<and> sources (sys_store S') = sources (sys_store S)
     \<and> dom (sys_binds S') \<subseteq> dom (sys_binds S)
     \<and> mset (sys_refresh S') \<subseteq># mset (sys_refresh S)
     \<and> (repository (sys_store S') = repository (sys_store S)
        \<or> (\<exists>s\<in>set (sys_refresh S). \<exists>loaded keys. load_keys env (src_ID env s) loaded = Ok keys
             \<and> contents (sys_store S') = filter (\<lambda>k. key_source k \<noteq> src_ID env s) (contents (sys_store S)) @ keys
             \<and> sys_refresh S' = remove1 s (sys_refresh S)))"
proof -
  from assms(3) consider (w) "worker_step env S S'" | (e) "external_step env S S'"
    by (auto simp: step_def)
  then show ?thesis
  proof cases
    case w
    then show ?thesis
      using assms(2)
    proof (induction rule: worker_step.induct)
      case (bind_committed S t sid s outcome m' u)
      then show ?case using bind_commit_OkD by blast
    next
      case (bind_failed S t sid s outcome m' e)
      then show ?case using bind_commit_ErrD [OF bind_failed.hyps(2)] by (auto split: if_splits)
    next
      case (close_loading S s ss m' w')
      then show ?case using close_one_frame(1) [OF close_loading.hyps(2)] by auto
    next
      case (close_bound S s ss m' w')
      then show ?case using close_one_frame(2) [OF close_bound.hyps(2)] by auto
    qed (auto simp: bind_done_def)
  next
    case e
    then show ?thesis
      using assms(2)
    proof (induction rule: external_step.induct)
      case (bind_start s S t m' u)
      then show ?case using bind_reserve_OkD by blast
    next
      case (callback sid S candidates m' r)
      then show ?case using refresh_callback_frame [OF callback.hyps(2)] by auto
    next
      case (refresh_stored s S loaded keys m' r)
      then have "m' = (sys_store S)\<lparr>repository := (repository (sys_store S))\<lparr>ks_keys :=
          filter (\<lambda>k. key_source k \<noteq> src_ID env s) (contents (sys_store S)) @ keys\<rparr>\<rparr>"
        by (simp add: store_keys_eq)
      then show ?case using refresh_stored.hyps(1,2) refresh_stored.prems
        by (intro conjI disjI2 bexI [of _ s] exI [of _ loaded] exI [of _ keys])
          (simp_all add: diff_subset_eq_self)
    next
      case (refresh_failed s S loaded e)
      then show ?case by (simp add: diff_subset_eq_self)
    qed (auto simp: close_begin_def)
  qed
qed

theorem closed_store_frozen_witness:
  "external_step (sample_env True) sample_closing (sample_closing\<lparr>sys_store := sys_store sample_closing\<rparr>)
   \<and> sources (sys_store (sample_closing\<lparr>sys_store := sys_store sample_closing\<rparr>)) = [''a'' \<mapsto> 0]"
proof -
  have closed: "closed (sys_store sample_closing)" "''a'' \<in> set (sys_issued sample_closing)"
    by (simp_all add: sample_closing_def sample_system_def close_begin_def)
  then have late: "external_step (sample_env True) sample_closing
      (sample_closing\<lparr>sys_store := sys_store sample_closing\<rparr>)"
    by (intro external_step.callback [of "''a''" _ _ "[]"]) (simp_all add: refresh_callback_def)
  then have "step (sample_env True) sample_closing (sample_closing\<lparr>sys_store := sys_store sample_closing\<rparr>)"
    unfolding step_def by blast
  from closed_store_frozen [OF sample_closing_reachable closed(1) this] late show ?thesis
    by (simp add: sample_closing_def sample_system_def close_begin_def)
qed

section \<open>Closing terminates\<close>

text \<open>The steps that the calls in progress can still take once the store is closed.\<close>

fun bind_weight :: "bind_pc \<Rightarrow> nat" where
  "bind_weight Loading = 4"
| "bind_weight (Loaded outcome) = 3"
| "bind_weight Committed = 2"
| "bind_weight Finished = 1"

fun close_weight :: "nat \<Rightarrow> close_pc \<Rightarrow> nat" where
  "close_weight n Idle = 0"
| "close_weight n (ClosingLoading ss) = n + 3 + length ss"
| "close_weight n Waiting = n + 2"
| "close_weight n (ClosingBound ss) = 1 + length ss"
| "close_weight n ClosedDone = 0"

definition remaining_work :: "system \<Rightarrow> nat" where
  "remaining_work S =
     (\<Sum>t\<in>dom (sys_binds S). bind_weight (bt_pc (the (sys_binds S t))))
     + close_weight (card (ran (sources (sys_store S)))) (sys_close S)"

lemma work_update:
  assumes "finite (dom binds)" "binds t = Some b" "bind_weight (bt_pc b') < bind_weight (bt_pc b)"
  shows "(\<Sum>u\<in>dom (binds(t \<mapsto> b')). bind_weight (bt_pc (the ((binds(t \<mapsto> b')) u))))
     < (\<Sum>u\<in>dom binds. bind_weight (bt_pc (the (binds u))))"
proof -
  have dom: "dom (binds(t \<mapsto> b')) = dom binds" using assms(2) by auto
  have t: "t \<in> dom binds" using assms(2) by auto
  have "(\<Sum>u\<in>dom binds - {t}. bind_weight (bt_pc (the ((binds(t \<mapsto> b')) u))))
      = (\<Sum>u\<in>dom binds - {t}. bind_weight (bt_pc (the (binds u))))"
    by (rule sum.cong) auto
  then show ?thesis
    unfolding dom sum.remove [OF assms(1) t] using assms(2,3) by simp
qed

lemma work_remove:
  assumes "finite (dom binds)" "binds t = Some b"
  shows "(\<Sum>u\<in>dom (binds(t := None)). bind_weight (bt_pc (the ((binds(t := None)) u))))
     < (\<Sum>u\<in>dom binds. bind_weight (bt_pc (the (binds u))))"
proof -
  have t: "t \<in> dom binds" using assms(2) by auto
  have "(\<Sum>u\<in>dom (binds(t := None)). bind_weight (bt_pc (the ((binds(t := None)) u))))
      = (\<Sum>u\<in>dom binds - {t}. bind_weight (bt_pc (the (binds u))))"
    by (rule sum.cong) auto
  moreover have "0 < bind_weight (bt_pc b)" by (cases "bt_pc b") simp_all
  ultimately show ?thesis unfolding sum.remove [OF assms(1) t] using assms(2) by simp
qed

lemma worker_step_work:
  assumes "worker_step env S S'" "system_inv env S" "closed (sys_store S)"
  shows "remaining_work S' < remaining_work S"
  using assms
proof (induction rule: worker_step.induct)
  case (bind_loaded S t sid s loaded outcome)
  then have "finite (dom (sys_binds S))" by (simp add: system_inv_def bindings_ok_def counted_def)
  from work_update [OF this bind_loaded.hyps(1)] show ?case by (simp add: remaining_work_def)
next
  case (bind_committed S t sid s outcome m' u)
  then show ?case using bind_commit_OkD by blast
next
  case (bind_failed S t sid s outcome m' e)
  then have "finite (dom (sys_binds S))" by (simp add: system_inv_def bindings_ok_def counted_def)
  from work_update [OF this bind_failed.hyps(1)] show ?case
    using bind_commit_ErrD [OF bind_failed.hyps(2)] by (simp add: remaining_work_def)
next
  case (bind_activated S t sid s)
  then have "finite (dom (sys_binds S))" by (simp add: system_inv_def bindings_ok_def counted_def)
  from work_update [OF this bind_activated.hyps(1)] show ?case by (simp add: remaining_work_def)
next
  case (bind_finished S t sid s)
  then have "finite (dom (sys_binds S))" by (simp add: system_inv_def bindings_ok_def counted_def)
  from work_remove [OF this bind_finished.hyps(1)] show ?case
    by (simp add: remaining_work_def bind_done_def)
next
  case (close_loading S s ss m' w')
  then show ?case using close_one_frame(1) [OF close_loading.hyps(2)] by (auto simp: remaining_work_def)
next
  case (close_wait S)
  then show ?case by (simp add: remaining_work_def)
next
  case (close_waited S order)
  then have "length order = card (ran (sources (sys_store S)))"
    by (metis distinct_card enumerates_def)
  then show ?case using close_waited by (simp add: remaining_work_def)
next
  case (close_bound S s ss m' w')
  then show ?case using close_one_frame(2) [OF close_bound.hyps(2)] by (auto simp: remaining_work_def)
next
  case (close_end S)
  then show ?case by (simp add: remaining_work_def)
qed

lemma external_step_work:
  assumes "external_step env S S'" "system_inv env S" "closed (sys_store S)"
  shows "remaining_work S' = remaining_work S"
  using assms
proof (induction rule: external_step.induct)
  case (bind_start s S t m' u)
  then show ?case using bind_reserve_OkD by blast
next
  case (callback sid S candidates m' r)
  then show ?case using refresh_callback_frame [OF callback.hyps(2)] by (auto simp: remaining_work_def)
next
  case (refresh_start S order)
  then show ?case by (simp add: remaining_work_def)
next
  case (refresh_stored s S loaded keys m' r)
  then show ?case using store_keys_frame [OF refresh_stored.hyps(3)] by (auto simp: remaining_work_def)
next
  case (refresh_failed s S loaded e)
  then show ?case by (simp add: remaining_work_def)
next
  case (close_start S order)
  then show ?case by (simp add: system_inv_def)
qed

lemma finite_enumerates: "finite (dom ss) \<Longrightarrow> \<exists>order. enumerates order ss"
  unfolding enumerates_def by (metis finite_distinct_list finite_ran)

text \<open>Every \<^verbatim>\<open>Bind\<close> in progress can take a step (its load returns, for instance with an error).\<close>

lemma bind_commit_not_Panic: "(\<And>p. outcome \<noteq> Panic p) \<Longrightarrow> snd (bind_commit sid s outcome m) \<noteq> Panic p"
  by (cases outcome) (simp_all add: bind_commit_def Let_def store_keys_eq)

lemma bind_progress:
  assumes "sys_binds S t = Some b" "task_ok env m b"
  shows "\<exists>S'. worker_step env S S'"
proof -
  obtain sid s pc where b: "b = \<lparr>bt_id = sid, bt_source = s, bt_pc = pc\<rparr>" by (cases b) simp
  show ?thesis
  proof (cases pc)
    case Loading
    have "load_keys env sid (Err (External 0)) \<noteq> Panic p" for p by (simp add: load_keys_def)
    then show ?thesis using worker_step.bind_loaded [of S t sid s env "Err (External 0)"] assms b Loading by blast
  next
    case (Loaded outcome)
    have "outcome \<noteq> Panic p" for p using task_okD(3) [OF assms(2)] b Loaded by simp
    note np = bind_commit_not_Panic [OF this]
    obtain m' r where c: "bind_commit sid s outcome (sys_store S) = (m', r)" by fastforce
    have loaded: "sys_binds S t = Some \<lparr>bt_id = sid, bt_source = s, bt_pc = Loaded outcome\<rparr>"
      using assms b Loaded by simp
    show ?thesis
      using worker_step.bind_committed [OF loaded] worker_step.bind_failed [OF loaded] c np [of sid s "sys_store S"]
      by (cases r) auto
  next
    case Committed
    then show ?thesis using worker_step.bind_activated assms b by blast
  next
    case Finished
    then show ?thesis using worker_step.bind_finished assms b by blast
  qed
qed

lemma close_progress:
  assumes inv: "system_inv env S" and "closed (sys_store S)" "sys_close S \<noteq> ClosedDone"
  shows "\<exists>S'. worker_step env S S'"
proof (cases "sys_close S")
  case Idle
  then show ?thesis using inv assms(2) by (simp add: system_inv_def)
next
  case (ClosingLoading ss)
  then show ?thesis
    by (cases ss; cases "close_loading_one env (hd ss) (sys_store S, sys_world S)")
      (auto intro: worker_step.close_wait worker_step.close_loading)
next
  case Waiting
  have b: "bindings_ok env (sys_store S) (sys_binds S)" using inv by (simp add: system_inv_def)
  show ?thesis
  proof (cases "sys_binds S = Map.empty")
    case True
    have "finite (dom (sources (sys_store S)))" using bindings_okD(2) [OF b] by (simp add: sources_ok_def)
    then obtain order where "enumerates order (sources (sys_store S))" using finite_enumerates by blast
    moreover have "bindWG (sys_store S) = 0" using bindings_okD(3) [OF b] True by (simp add: counted_def)
    ultimately show ?thesis using worker_step.close_waited Waiting by blast
  next
    case False
    then obtain t c where "sys_binds S t = Some c" by (meson not_None_eq ext)
    then show ?thesis using bind_progress bindings_okD(1) [OF b] by blast
  qed
next
  case (ClosingBound ss)
  then show ?thesis
    by (cases ss; cases "close_bound_one env (hd ss) (sys_store S, sys_world S)")
      (auto intro: worker_step.close_end worker_step.close_bound)
next
  case ClosedDone
  then show ?thesis using assms(3) by simp
qed

text \<open>C27: \<^verbatim>\<open>Close\<close> terminates, and cannot deadlock with the \<^verbatim>\<open>Bind\<close> calls it waits for. Once it has begun,
  and until it is done, some step of it or of a \<^verbatim>\<open>Bind\<close> in progress is always possible; every such step
  strictly decreases a natural number, which no other activity (late callbacks, loads of a refresh,
  attempts to bind or close again) can increase.\<close>

theorem close_terminates:
  assumes "reachable env S" "closed (sys_store S)"
  shows "(sys_close S \<noteq> ClosedDone \<longrightarrow> (\<exists>S'. worker_step env S S'))
     \<and> (\<forall>S'. worker_step env S S' \<longrightarrow> remaining_work S' < remaining_work S)
     \<and> (\<forall>S'. external_step env S S' \<longrightarrow> remaining_work S' = remaining_work S)"
  using close_progress worker_step_work external_step_work reachable_inv [OF assms(1)] assms(2) by blast

theorem close_terminates_witness:
  "\<exists>S'. worker_step (sample_env True) sample_closing S'
     \<and> remaining_work S' < remaining_work sample_closing"
proof -
  have "closed (sys_store sample_closing)" "sys_close sample_closing \<noteq> ClosedDone"
    by (simp_all add: sample_closing_def close_begin_def)
  then show ?thesis using close_terminates [OF sample_closing_reachable] by blast
qed

section \<open>Refinement of an atomic store\<close>

text \<open>
  What the store promises its users, without reservations, wait group and callbacks of sources: it is open
  or not, has some bound sources, holds keys, and owes the loads of the calls of \<^verbatim>\<open>RefreshAll\<close> in
  progress. Each operation takes effect at one instant, or has no effect.
\<close>

record abstract_store =
  ab_open :: bool
  ab_bound :: "string \<rightharpoonup> source"
  ab_keys :: "Key list"
  ab_pending :: "source list"

definition replace_keys :: "string \<Rightarrow> Key list \<Rightarrow> abstract_store \<Rightarrow> abstract_store" where
  "replace_keys sid keys A = A\<lparr>ab_keys := filter (\<lambda>k. key_source k \<noteq> sid) (ab_keys A) @ keys\<rparr>"

text \<open>
  A source is bound together with its first keys, while the store is open and its ID free; a callback
  replaces the keys of a bound source while the store is open; a refresh that starts while the store is
  open loads the sources bound then that do not refresh themselves, each at its own time; the store is
  closed once. In every case the new keys are the ones built from what some load returned.
\<close>

inductive abstract_step :: "environment \<Rightarrow> abstract_store \<Rightarrow> abstract_store \<Rightarrow> bool" for env where
  abs_bind: "ab_open A \<Longrightarrow> TrimSpace (src_ID env s) \<noteq> [] \<Longrightarrow> ab_bound A (src_ID env s) = None \<Longrightarrow>
     load_keys env (src_ID env s) loaded = Ok keys \<Longrightarrow>
     abstract_step env A (replace_keys (src_ID env s) keys (A\<lparr>ab_bound := (ab_bound A)(src_ID env s \<mapsto> s)\<rparr>))"
| abs_callback: "ab_open A \<Longrightarrow> ab_bound A sid \<noteq> None \<Longrightarrow> buildCandidates env candidates = Ok keys \<Longrightarrow>
     abstract_step env A (replace_keys sid keys A)"
| abs_refresh: "ab_open A \<Longrightarrow> enumerates order (ab_bound A) \<Longrightarrow>
     abstract_step env A (A\<lparr>ab_pending := filter (\<lambda>s. \<not> src_self_refreshing env s) order @ ab_pending A\<rparr>)"
| abs_loaded: "s \<in> set (ab_pending A) \<Longrightarrow> load_keys env (src_ID env s) loaded = Ok keys \<Longrightarrow>
     abstract_step env A (replace_keys (src_ID env s) keys (A\<lparr>ab_pending := remove1 s (ab_pending A)\<rparr>))"
| abs_not_loaded: "s \<in> set (ab_pending A) \<Longrightarrow> load_keys env (src_ID env s) loaded = Err e \<Longrightarrow>
     abstract_step env A (A\<lparr>ab_pending := remove1 s (ab_pending A)\<rparr>)"
| abs_close: "ab_open A \<Longrightarrow> abstract_step env A (A\<lparr>ab_open := False\<rparr>)"

definition abstraction :: "system \<Rightarrow> abstract_store" where
  "abstraction S = \<lparr>ab_open = \<not> closed (sys_store S), ab_bound = sources (sys_store S),
     ab_keys = contents (sys_store S), ab_pending = sys_refresh S\<rparr>"

text \<open>What a \<^verbatim>\<open>Bind\<close> is about to commit is what a load of its own source gave.\<close>

definition outcomes_ok :: "environment \<Rightarrow> (nat \<rightharpoonup> bind_task) \<Rightarrow> bool" where
  "outcomes_ok env binds \<longleftrightarrow> (\<forall>t b outcome. binds t = Some b \<and> bt_pc b = Loaded outcome
     \<longrightarrow> (\<exists>loaded. outcome = load_keys env (bt_id b) loaded))"

lemma step_outcomes:
  assumes "step env S S'" "outcomes_ok env (sys_binds S)"
  shows "outcomes_ok env (sys_binds S')"
proof -
  from assms(1) consider "worker_step env S S'" | "external_step env S S'" by (auto simp: step_def)
  then show ?thesis
  proof cases
    case 1
    then show ?thesis using assms(2)
      by (induction rule: worker_step.induct) (fastforce simp: outcomes_ok_def)+
  next
    case 2
    then show ?thesis using assms(2)
      by (induction rule: external_step.induct) (auto simp: outcomes_ok_def)
  qed
qed

lemma reachable_outcomes:
  assumes "reachable env S"
  shows "outcomes_ok env (sys_binds S)"
proof -
  from assms obtain S0 where "initial_system env S0" "(step env)\<^sup>*\<^sup>* S0 S" by (auto simp: reachable_def)
  from this(2,1) show ?thesis
    by (induction rule: rtranclp_induct) (auto simp: initial_system_def outcomes_ok_def [of _ Map.empty] intro: step_outcomes)
qed

lemma commit_refines:
  assumes "reachable env S" "sys_binds S t = Some \<lparr>bt_id = sid, bt_source = s, bt_pc = Loaded outcome\<rparr>"
    and run: "bind_commit sid s outcome (sys_store S) = (m', Ok u)"
  shows "abstract_step env (abstraction S) (abstraction (S\<lparr>sys_store := m', sys_binds := binds\<rparr>))"
proof -
  let ?m = "sys_store S"
  have inv: "bindings_ok env ?m (sys_binds S)" using reachable_inv [OF assms(1)] by (simp add: system_inv_def)
  note task = bindings_okD(1) [OF inv assms(2)]
  have id: "sid = src_ID env s" "TrimSpace (src_ID env s) \<noteq> []" using task_okD(3) [OF task] by auto
  have free: "sources ?m sid = None"
    using bindings_okD(2) [OF inv] task_okD(1) [OF task] unfolding sources_ok_def by fastforce
  obtain loaded where loaded: "outcome = load_keys env sid loaded"
    using reachable_outcomes [OF assms(1)] assms(2) by (force simp: outcomes_ok_def)
  obtain keys where keys: "outcome = Ok keys" "\<not> closed ?m" "sources m' = (sources ?m)(sid \<mapsto> s)"
      "contents m' = filter (\<lambda>k. key_source k \<noteq> sid) (contents ?m) @ keys" "\<not> closed m'"
    using run by (auto simp: bind_commit_def Let_def store_keys_eq split: res.splits if_splits)
  show ?thesis
    using abstract_step.abs_bind [of "abstraction S" env s loaded keys] id free loaded keys
    by (simp add: abstraction_def replace_keys_def)
qed

lemma step_refines:
  assumes reach: "reachable env S" and "step env S S'"
  shows "abstraction S' = abstraction S \<or> abstract_step env (abstraction S) (abstraction S')"
proof -
  from assms(2) consider "worker_step env S S'" | "external_step env S S'" by (auto simp: step_def)
  then show ?thesis
  proof cases
    case 1
    then show ?thesis using reach
    proof (induction rule: worker_step.induct)
      case (bind_committed S t sid s outcome m' u)
      then show ?case using commit_refines by blast
    next
      case (bind_failed S t sid s outcome m' e)
      then show ?case using bind_commit_ErrD [OF bind_failed.hyps(2)] by (simp add: abstraction_def)
    next
      case (close_loading S s ss m' w')
      then show ?case using close_one_frame(1) [OF close_loading.hyps(2)] by (auto simp: abstraction_def)
    next
      case (close_bound S s ss m' w')
      then show ?case using close_one_frame(2) [OF close_bound.hyps(2)] by (auto simp: abstraction_def)
    qed (simp_all add: abstraction_def bind_done_def)
  next
    case 2
    then show ?thesis using reach
    proof (induction rule: external_step.induct)
      case (bind_start s S t m' u)
      then show ?case using bind_reserve_OkD [OF bind_start.hyps(3)] by (simp add: abstraction_def)
    next
      case (callback sid S candidates m' r)
      then have bound: "sources (sys_store S) sid \<noteq> None"
        using reachable_inv unfolding system_inv_def callbacks_ok_def by blast
      show ?case
      proof (cases "closed (sys_store S) \<or> \<not> is_ok (buildCandidates env candidates)")
        case True
        then have "m' = sys_store S"
          using callback.hyps(2) by (auto simp: refresh_callback_def store_keys_eq split: res.splits if_splits)
        then show ?thesis by (simp add: abstraction_def)
      next
        case False
        then obtain keys where "\<not> closed (sys_store S)" "buildCandidates env candidates = Ok keys"
          by (auto simp: is_ok_iff)
        then show ?thesis
          using callback.hyps(2) bound abstract_step.abs_callback [of "abstraction S" sid env candidates keys]
          by (auto simp: refresh_callback_def store_keys_eq abstraction_def replace_keys_def)
      qed
    next
      case (refresh_start S order)
      then show ?case using abstract_step.abs_refresh [of "abstraction S" order env] by (simp add: abstraction_def)
    next
      case (refresh_stored s S loaded keys m' r)
      then show ?case using abstract_step.abs_loaded [of s "abstraction S" env loaded keys]
        by (auto simp: abstraction_def replace_keys_def store_keys_eq)
    next
      case (refresh_failed s S loaded e)
      then show ?case using abstract_step.abs_not_loaded [of s "abstraction S" env loaded e]
        by (simp add: abstraction_def)
    next
      case (close_start S order)
      then have "\<not> closed (sys_store S)"
        using reachable_inv [OF close_start.prems] by (simp add: system_inv_def)
      then show ?case using abstract_step.abs_close [of "abstraction S" env]
        by (simp add: abstraction_def close_begin_def)
    qed
  qed
qed

lemma steps_refine:
  assumes "reachable env S" "(step env)\<^sup>*\<^sup>* S S'"
  shows "(abstract_step env)\<^sup>*\<^sup>* (abstraction S) (abstraction S')"
  using assms(2)
proof (induction rule: rtranclp_induct)
  case (step S1 S2)
  have "reachable env S1" using assms(1) step.hyps(1) unfolding reachable_def by (meson rtranclp_trans)
  then show ?case using step_refines [OF _ step.hyps(2)] step.IH by (metis rtranclp.rtrancl_into_rtrancl)
qed simp

section \<open>The sequential methods as executions\<close>

lemma sequential_Bind:
  assumes free: "sys_binds S t = None" and np: "\<forall>p. loaded_keys env s \<noteq> Panic p"
    and run: "Bind env (Some s) (sys_store S) (sys_world S) = (m', w', r)"
  shows "\<exists>issued. (step env)\<^sup>*\<^sup>* S (S\<lparr>sys_store := m', sys_world := w', sys_issued := issued\<rparr>)"
proof -
  let ?m = "sys_store S" and ?id = "src_ID env s"
  have "\<forall>s'. Some s = Some s' \<longrightarrow> (\<forall>p. loaded_keys env s' \<noteq> Panic p)" using np by simp
  from Bind_cases [OF this, of ?m "sys_world S"] run
  consider (ok) keys where "TrimSpace ?id \<noteq> []" "\<not> closed ?m" "sources ?m ?id = None" "loading ?m ?id = None"
      "loaded_keys env s = Ok keys"
      "m' = ?m\<lparr>repository := (repository ?m)\<lparr>ks_keys :=
                  filter (\<lambda>k. key_source k \<noteq> ?id) (contents ?m) @ keys\<rparr>,
               sources := (sources ?m)(?id \<mapsto> s)\<rparr>"
      "w' = bindSelfRefreshing env s (sys_world S)"
    | (failed) "m' = ?m" "w' = sys_world S" by auto
  then show ?thesis
  proof cases
    case failed
    then show ?thesis by (intro exI [of _ "sys_issued S"]) simp
  next
    case ok
    let ?task = "\<lambda>pc. \<lparr>bt_id = ?id, bt_source = s, bt_pc = pc\<rparr>"
    let ?m1 = "?m\<lparr>loading := (loading ?m)(?id \<mapsto> s), bindWG := bindWG ?m + 1\<rparr>"
    let ?m2 = "m'\<lparr>bindWG := bindWG ?m + 1\<rparr>"
    let ?iss = "(if src_self_refreshing env s then [?id] else []) @ sys_issued S"
    let ?S1 = "S\<lparr>sys_store := ?m1, sys_binds := (sys_binds S)(t \<mapsto> ?task Loading)\<rparr>"
    let ?S2 = "S\<lparr>sys_store := ?m1, sys_binds := (sys_binds S)(t \<mapsto> ?task (Loaded (Ok keys)))\<rparr>"
    let ?S3 = "S\<lparr>sys_store := ?m2, sys_binds := (sys_binds S)(t \<mapsto> ?task Committed)\<rparr>"
    let ?S4 = "S\<lparr>sys_store := ?m2, sys_world := w', sys_issued := ?iss,
                 sys_binds := (sys_binds S)(t \<mapsto> ?task Finished)\<rparr>"
    have "bind_reserve ?id s ?m = (?m1, Ok ())" using ok by (simp add: bind_reserve_def)
    then have s1: "step env S ?S1" using external_step.bind_start [OF ok(1) free] by (simp add: step_def)
    have "load_keys env ?id (src_Load env s) = Ok keys" using ok(5) by (simp add: loaded_keys_def)
    then have s2: "step env ?S1 ?S2"
      using worker_step.bind_loaded [of ?S1 t ?id s env "src_Load env s" "Ok keys"] by (simp add: step_def)
    have "bind_commit ?id s (Ok keys) ?m1 = (?m2, Ok ())"
      using ok by (simp add: bind_commit_def store_keys_eq Let_def fun_upd_idem)
    then have s3: "step env ?S2 ?S3"
      using worker_step.bind_committed [of ?S2 t ?id s "Ok keys" ?m2 "()" env] by (simp add: step_def)
    have s4: "step env ?S3 ?S4"
      using worker_step.bind_activated [of ?S3 t ?id s env] ok(7) by (simp add: step_def split del: if_split)
    have "bind_done ?m2 = m'" using ok(6) by (simp add: bind_done_def)
    moreover have "(sys_binds S)(t := None) = sys_binds S" using free by (simp add: fun_upd_idem)
    ultimately have last: "?S4\<lparr>sys_store := bind_done (sys_store ?S4), sys_binds := (sys_binds ?S4)(t := None)\<rparr>
        = S\<lparr>sys_store := m', sys_world := w', sys_issued := ?iss\<rparr>" by (cases S) simp
    have "worker_step env ?S4 (?S4\<lparr>sys_store := bind_done (sys_store ?S4), sys_binds := (sys_binds ?S4)(t := None)\<rparr>)"
      by (rule worker_step.bind_finished [of _ _ ?id s]) simp
    then have s5: "step env ?S4 (S\<lparr>sys_store := m', sys_world := w', sys_issued := ?iss\<rparr>)"
      unfolding last step_def by blast
    show ?thesis using s1 s2 s3 s4 s5 by (meson converse_rtranclp_into_rtranclp rtranclp.rtrancl_refl)
  qed
qed

text \<open>
  The system when \<^verbatim>\<open>New\<close> has returned: it has handed a callback to each self-refreshing source it bound.
\<close>

definition new_system ::
    "environment \<Rightarrow> ((string \<rightharpoonup> source) \<Rightarrow> source list) \<Rightarrow> store \<Rightarrow> world \<Rightarrow> system" where
  "new_system env enum m w = \<lparr>sys_store = m, sys_world = w, sys_binds = Map.empty, sys_close = Idle,
     sys_issued = map (src_ID env) (filter (src_self_refreshing env) (enum (sources m))), sys_refresh = []\<rparr>"

lemma New_is_initial:
  assumes new: "good_enumeration enum" "\<forall>xs. mset (schedule xs) = mset xs"
      "\<forall>opt\<in>set options. package_option env opt"
      "\<forall>s\<in>ran (sources (configured options)). labelled env s \<and> (\<forall>p. loaded_keys env s \<noteq> Panic p)"
      "\<forall>s. ss_callback (w s) = None"
      "keystore_New env enum schedule options w = (w1, Ok m1)"
  shows "initial_system env (new_system env enum m1 w1)"
    and "sources m1 = sources (configured options) \<and> \<not> closed m1
      \<and> mset (contents m1) = mset (concat (map (keys_of env) (enum (sources (configured options)))))"
proof -
  let ?c = "configured options"
  have c: "?c = empty_store\<lparr>sources := sources ?c, runtimeOptions := runtimeOptions ?c\<rparr>"
    "sources_keyed env (sources ?c)" "finite (dom (sources ?c))"
    using configured_result [OF new(3)] by blast+
  from keystore_New_result [OF new(1-4), of w] new(6) have
    w1: "w1 = (\<lambda>s. if s \<in> ran (sources ?c) \<and> src_self_refreshing env s
                   then (w s)\<lparr>ss_callback := Some (src_ID env s)\<rparr> else w s)"
    and m1: "m1 = ?c\<lparr>repository := \<lparr>ks_keys = contents m1\<rparr>\<rparr>"
    and keys: "mset (contents m1) = mset (concat (map (keys_of env) (enum (sources ?c))))" by auto
  have store: "sources m1 = sources ?c" "loading m1 = Map.empty" "bindWG m1 = 0" "\<not> closed m1" "\<not> closeOnce m1"
    by (subst m1, subst c(1), simp add: empty_store_def)+
  have "set (enum (sources ?c)) = ran (sources ?c)"
    using new(1) c(3) by (simp add: good_enumeration_def enumerates_def)
  then have "callbacks_ok env m1 w1 (sys_issued (new_system env enum m1 w1))"
    using c(2) new(5)
    by (auto simp: callbacks_ok_def w1 store sources_keyed_def ran_def new_system_def split: if_splits)
  then show "initial_system env (new_system env enum m1 w1)"
    using c(2,3) by (simp add: initial_system_def store new_system_def)
  show "sources m1 = sources ?c \<and> \<not> closed m1
      \<and> mset (contents m1) = mset (concat (map (keys_of env) (enum (sources ?c))))"
    using store keys by simp
qed

text \<open>C28: The store refines an atomic one. After \<^verbatim>\<open>New\<close> has returned a store, which is open, with the sources it was
  given bound and their keys, let any calls interleave in any way. What users can then see, which sources
  are bound, which keys there are and whether the store is open, has changed only as in a sequence of
  atomic operations: a source bound together with its first keys, under a free ID and only while the store
  is open; the keys of a bound source replaced by those of a callback, only while it is open; a load of
  a refresh that began while it was open; closing. Every single step is one of these or invisible; the
  reservation, the failure of a \<^verbatim>\<open>Bind\<close>, the handing out of callbacks and the work of \<^verbatim>\<open>Close\<close> are invisible.\<close>

theorem store_refines_abstract:
  assumes "good_enumeration enum" "\<forall>xs. mset (schedule xs) = mset xs"
    and "\<forall>opt\<in>set options. package_option env opt"
    and "\<forall>s\<in>ran (sources (configured options)). labelled env s \<and> (\<forall>p. loaded_keys env s \<noteq> Panic p)"
    and "\<forall>s. ss_callback (w s) = None"
    and "keystore_New env enum schedule options w = (w1, Ok m1)"
    and "(step env)\<^sup>*\<^sup>* (new_system env enum m1 w1) S"
  shows "(\<exists>A. ab_open A \<and> ab_bound A = sources (configured options) \<and> ab_pending A = []
        \<and> mset (ab_keys A) = mset (concat (map (keys_of env) (enum (sources (configured options)))))
        \<and> (abstract_step env)\<^sup>*\<^sup>* A (abstraction S))
     \<and> (\<forall>S'. step env S S' \<longrightarrow>
          abstraction S' = abstraction S \<or> abstract_step env (abstraction S) (abstraction S'))"
proof
  let ?S0 = "new_system env enum m1 w1"
  have "reachable env ?S0" using New_is_initial(1) [OF assms(1-6)] by (auto simp: reachable_def)
  from steps_refine [OF this assms(7)] New_is_initial(2) [OF assms(1-6)]
  show "\<exists>A. ab_open A \<and> ab_bound A = sources (configured options) \<and> ab_pending A = []
      \<and> mset (ab_keys A) = mset (concat (map (keys_of env) (enum (sources (configured options)))))
      \<and> (abstract_step env)\<^sup>*\<^sup>* A (abstraction S)"
    by (intro exI [of _ "abstraction ?S0"]) (simp add: abstraction_def new_system_def)
  have "reachable env S" using New_is_initial(1) [OF assms(1-6)] assms(7) by (auto simp: reachable_def)
  then show "\<forall>S'. step env S S' \<longrightarrow>
      abstraction S' = abstraction S \<or> abstract_step env (abstraction S) (abstraction S')"
    using step_refines by blast
qed

text \<open>A store made for one source, to which a second one is bound before it is closed.\<close>

theorem store_refines_abstract_witness:
  "\<exists>A S. ab_open A \<and> ab_bound A = [''a'' \<mapsto> 0] \<and> (abstract_step (sample_env True))\<^sup>*\<^sup>* A (abstraction S)
     \<and> \<not> ab_open (abstraction S) \<and> ab_bound (abstraction S) = [''a'' \<mapsto> 0, ''b'' \<mapsto> 1]"
proof -
  let ?env = "sample_env True" and ?enum = "\<lambda>ss :: string \<rightharpoonup> source. sorted_list_of_set (ran ss)"
  let ?opts = "[Some (keystore_WithSource ?env (Some 0) None)]"
  have enum: "good_enumeration ?enum" by (simp add: good_enumeration_def enumerates_def finite_ran)
  have loop: "option_loop ?opts empty_store = (empty_store\<lparr>sources := [''a'' \<mapsto> 0]\<rparr>, Ok ())"
    by (simp add: keystore_WithSource_def sample_IDs)
  then have c: "configured ?opts = empty_store\<lparr>sources := [''a'' \<mapsto> 0]\<rparr>" by (simp add: configured_def)
  have opts: "\<forall>opt\<in>set ?opts. package_option ?env opt" by (auto simp: package_option_def)
  have srcs: "\<forall>s\<in>ran (sources (configured ?opts)). labelled ?env s \<and> (\<forall>p. loaded_keys ?env s \<noteq> Panic p)"
    by simp
  have sched: "\<forall>xs :: source list. mset ((\<lambda>xs. xs) xs) = mset xs" by simp
  have w: "\<forall>s. ss_callback (sample_world s) = None" by (simp add: sample_world_def)
  have ok: "snd (option_loop ?opts empty_store) = Ok ()
      \<and> (\<forall>s\<in>ran (sources (configured ?opts)). is_ok (loaded_keys ?env s))"
    unfolding loop by simp
  obtain w1 m1 where new: "keystore_New ?env ?enum (\<lambda>xs. xs) ?opts sample_world = (w1, Ok m1)"
      "m1 = (configured ?opts)\<lparr>repository := \<lparr>ks_keys = contents m1\<rparr>\<rparr>"
    using keystore_New_result [OF enum sched opts srcs, of sample_world] ok by blast
  have m1: "sources m1 = [''a'' \<mapsto> 0]" "loading m1 = Map.empty" "\<not> closed m1" "\<not> closeOnce m1"
    by (subst new(2), simp add: c)+
  let ?S0 = "new_system ?env ?enum m1 w1"
  obtain m2 w2 r where b: "Bind ?env (Some 1) m1 w1 = (m2, w2, r)" by (metis prod_cases3)
  have m2: "sources m2 = [''a'' \<mapsto> 0, ''b'' \<mapsto> 1]" "loading m2 = Map.empty" "\<not> closeOnce m2"
    using Bind_cases [of "Some 1" ?env m1 w1] b by (auto simp: m1 sample_IDs)
  obtain issued where run: "(step ?env)\<^sup>*\<^sup>* ?S0 (?S0\<lparr>sys_store := m2, sys_world := w2, sys_issued := issued\<rparr>)"
    using sequential_Bind [of ?S0 0 ?env 1 m2 w2 r] b by (auto simp: new_system_def)
  let ?S1 = "?S0\<lparr>sys_store := m2, sys_world := w2, sys_issued := issued\<rparr>"
  let ?S2 = "?S1\<lparr>sys_store := close_begin m2, sys_close := ClosingLoading []\<rparr>"
  have "step ?env ?S1 ?S2"
    using external_step.close_start [of ?S1 "[]" ?env] m2 by (simp add: step_def new_system_def enumerates_def)
  with run have "(step ?env)\<^sup>*\<^sup>* ?S0 ?S2" by (rule rtranclp.rtrancl_into_rtrancl)
  from store_refines_abstract [OF enum sched opts srcs w new(1) this]
  obtain A where "ab_open A" "ab_bound A = [''a'' \<mapsto> 0]" "(abstract_step ?env)\<^sup>*\<^sup>* A (abstraction ?S2)"
    using c by auto
  moreover have "\<not> ab_open (abstraction ?S2)" "ab_bound (abstraction ?S2) = [''a'' \<mapsto> 0, ''b'' \<mapsto> 1]"
    using m2(1) by (simp_all add: abstraction_def close_begin_def)
  ultimately show ?thesis by blast
qed

end
