(* ===== verification/Source_Contract.thy ===== *)
theory Source_Contract
  imports Store_Lifecycle
begin

text \<open>
  What the keystore relies on when it owns a key source (\<^verbatim>\<open>keysource/source.go\<close>): a source keeps its
  identifier, labels its candidates with it, and returns an error from \<^verbatim>\<open>Load\<close> once it is closed;
  closing it twice is harmless. The concrete sources interpret the locale with their own states.
\<close>

locale candidate_source =
  fixes name :: "'s \<Rightarrow> string"
    and load :: "'x \<Rightarrow> 's \<Rightarrow> 's \<times> KeyCandidate list res"
    and shut :: "'s \<Rightarrow> 's \<times> error option"
    and is_shut :: "'s \<Rightarrow> bool"
    and good :: "'s \<Rightarrow> bool"
    and usable :: "'x \<Rightarrow> bool"
  assumes load_name: "good s \<Longrightarrow> usable x \<Longrightarrow> name (fst (load x s)) = name s"
    and shut_name: "name (fst (shut s)) = name s"
    and load_good: "good s \<Longrightarrow> usable x \<Longrightarrow> good (fst (load x s))"
    and shut_good: "good s \<Longrightarrow> good (fst (shut s))"
    and load_labelled: "good s \<Longrightarrow> usable x \<Longrightarrow> snd (load x s) = Ok cs \<Longrightarrow> c \<in> set cs
      \<Longrightarrow> cand_Source c = name s"
    and load_shut: "is_shut s \<Longrightarrow> fst (load x s) = s \<and> (\<exists>e. snd (load x s) = Err e)"
    and shut_shuts: "is_shut (fst (shut s))"
    and shut_twice: "is_shut s \<Longrightarrow> shut s = (s, None)"
begin

text \<open>Any sequence of loads leaves the source good and named as it was.\<close>

lemma loads_good:
  "good s \<Longrightarrow> \<forall>x\<in>set xs. usable x \<Longrightarrow>
     good (fold (\<lambda>x s. fst (load x s)) xs s) \<and> name (fold (\<lambda>x s. fst (load x s)) xs s) = name s"
  by (induction xs arbitrary: s) (simp_all add: load_good load_name)

text \<open>A closed source stays as it is and never gives keys again.\<close>

lemma loads_shut: "is_shut s \<Longrightarrow> fold (\<lambda>x s. fst (load x s)) xs s = s"
  by (induction xs) (simp_all add: load_shut)

lemma shut_stays:
  "\<exists>e. snd (load x (fold (\<lambda>x s. fst (load x s)) xs (fst (shut s)))) = Err e"
  using loads_shut [OF shut_shuts] load_shut [OF shut_shuts] by simp

text \<open>The store sees a good source as one that labels its candidates.\<close>

lemma good_labelled:
  assumes "good s" "usable x" "src_ID env i = name s" "src_Load env i = snd (load x s)"
  shows "labelled env i"
  using assms load_labelled by (auto simp: labelled_def)

text \<open>
  So a repeated load of the source replaces its keys and no others: afterwards the keys with its name
  are exactly those of the load.
\<close>

lemma reload_replaces:
  assumes "good s" "usable x" "src_ID env i = name s" "src_Load env i = snd (load x s)"
    and "load_keys env (name s) (snd (load x s)) = Ok keys"
  shows "\<exists>repo. store_keys (name s) keys m = (m\<lparr>repository := repo\<rparr>, Ok ())
     \<and> filter (\<lambda>k. key_source k = name s) (ks_keys repo) = keys
     \<and> filter (\<lambda>k. key_source k \<noteq> name s) (ks_keys repo)
         = filter (\<lambda>k. key_source k \<noteq> name s) (contents m)"
proof -
  have own: "\<forall>k\<in>set keys. key_source k = name s"
    using labelled_keys [OF good_labelled [OF assms(1-4)]] assms(3-5) by auto
  then have "filter (\<lambda>k. key_source k = name s) keys = keys" "filter (\<lambda>k. key_source k \<noteq> name s) keys = []"
    by (simp_all add: filter_id_conv filter_empty_conv)
  then show ?thesis
    by (intro exI [of _ "(repository m)\<lparr>ks_keys := filter (\<lambda>k. key_source k \<noteq> name s) (contents m) @ keys\<rparr>"])
      (simp add: store_keys_eq)
qed

end

end
