(* ===== verification/Random_Source.thy ===== *)
theory Random_Source
  imports Source_Contract
begin

text \<open>
  The package \<^verbatim>\<open>keysource/randomsource\<close>: a source that makes its own keys, one per epoch, and
  replaces them as time passes. The state of a \<^verbatim>\<open>Source\<close> is a record, each critical section is one
  function of it, and the background goroutine \<^verbatim>\<open>watch\<close> is a step relation over these functions.
\<close>

section \<open>The state\<close>

type_synonym KeyType = string

definition RSA2048 :: KeyType where "RSA2048 = ''RSA-2048''"
definition RSA3072 :: KeyType where "RSA3072 = ''RSA-3072''"
definition RSA4096 :: KeyType where "RSA4096 = ''RSA-4096''"
definition ECDSAP256 :: KeyType where "ECDSAP256 = ''ECDSA-P256''"
definition ECDSAP384 :: KeyType where "ECDSAP384 = ''ECDSA-P384''"
definition ECDSAP521 :: KeyType where "ECDSAP521 = ''ECDSA-P521''"
definition HMAC256 :: KeyType where "HMAC256 = ''HMAC-256''"
definition HMAC384 :: KeyType where "HMAC384 = ''HMAC-384''"
definition HMAC512 :: KeyType where "HMAC512 = ''HMAC-512''"

lemmas key_types = RSA2048_def RSA3072_def RSA4096_def ECDSAP256_def ECDSAP384_def ECDSAP521_def
  HMAC256_def HMAC384_def HMAC512_def

text \<open>
  \<open>rs_cancelled\<close> is whether the context behind the field \<^verbatim>\<open>ctx\<close> has been cancelled, \<open>rs_wake\<close> whether
  the channel \<^verbatim>\<open>wake\<close>, of capacity one, holds a value. \<open>rs_watches\<close> is not a field of the struct: it
  counts how many times the code has executed \<^verbatim>\<open>go s.watch()\<close>. A callback is represented as in
  \<open>Store_Lifecycle\<close>. The clock \<^verbatim>\<open>now\<close> is an argument of the operations that read it.
\<close>

record random_source =
  rs_id :: string
  rs_keyType :: KeyType
  rs_lifetime :: duration
  rs_cancelled :: bool
  rs_callback :: "string option"
  rs_started :: bool
  rs_closed :: bool
  rs_base :: time
  rs_epoch :: int
  rs_keys :: "int \<rightharpoonup> KeyCandidate"
  rs_wake :: bool
  rs_watches :: nat

definition random_ErrClosed :: error where
  "random_ErrClosed = ErrorNew ''random source is closed''"

definition validKeyType :: "KeyType \<Rightarrow> bool" where
  "validKeyType t =
     (t \<in> set [RSA2048, RSA3072, RSA4096, ECDSAP256, ECDSAP384, ECDSAP521, HMAC256, HMAC384, HMAC512])"

definition random_New :: "string \<Rightarrow> KeyType \<Rightarrow> duration \<Rightarrow> random_source res" where
  "random_New sid keyType lifetime =
     (if TrimSpace sid = [] then Err (Errorf ''random source ID is empty'' [])
      else if lifetime \<le> 0 then Err (Errorf ''random source lifetime must be positive'' [])
      else if \<not> validKeyType keyType
      then Err (Errorf ''random source key type %q is unsupported'' [StrArg keyType])
      else Ok \<lparr>rs_id = sid, rs_keyType = keyType, rs_lifetime = lifetime, rs_cancelled = False,
               rs_callback = None, rs_started = False, rs_closed = False, rs_base = 0, rs_epoch = 0,
               rs_keys = Map.empty, rs_wake = False, rs_watches = 0\<rparr>)"

section \<open>Generating keys\<close>

text \<open>
  \<^verbatim>\<open>rsa.GenerateKey\<close> and \<^verbatim>\<open>ecdsa.GenerateKey\<close>, as functions of what they draw from \<^verbatim>\<open>rand.Reader\<close>;
  \<^verbatim>\<open>rand.Read\<close> fills a buffer from the same entropy.
\<close>

record generators =
  gen_rsa :: "entropy \<Rightarrow> nat \<Rightarrow> error + rsa_PrivateKey"
  gen_ecdsa :: "entropy \<Rightarrow> elliptic_curve \<Rightarrow> error + ecdsa_PrivateKey"

definition rsa_bits :: "KeyType \<Rightarrow> nat" where
  "rsa_bits t = (if t = RSA2048 then 2048 else if t = RSA3072 then 3072 else if t = RSA4096 then 4096 else 0)"

definition ecdsa_curve :: "KeyType \<Rightarrow> elliptic_curve" where
  "ecdsa_curve t = (if t = ECDSAP256 then P256 else if t = ECDSAP384 then P384 else P521)"

definition hmac_size :: "KeyType \<Rightarrow> nat" where
  "hmac_size t = (if t = HMAC256 then 32 else if t = HMAC384 then 48 else if t = HMAC512 then 64 else 0)"

text \<open>The type switch: the material, nil for a type that no case lists.\<close>

definition generate_material :: "generators \<Rightarrow> entropy \<Rightarrow> KeyType \<Rightarrow> error + material option" where
  "generate_material gens rand t =
     (if t = RSA2048 \<or> t = RSA3072 \<or> t = RSA4096
      then map_sum id (\<lambda>k. Some (PrivateMaterial (Some (PrivRSA (Some k))))) (gen_rsa gens rand (rsa_bits t))
      else if t = ECDSAP256 \<or> t = ECDSAP384 \<or> t = ECDSAP521
      then map_sum id (\<lambda>k. Some (PrivateMaterial (Some (PrivECDSA (Some k)))))
             (gen_ecdsa gens rand (ecdsa_curve t))
      else if t = HMAC256 \<or> t = HMAC384 \<or> t = HMAC512
      then map_sum id (\<lambda>secret. Some (SymmetricMaterial (Some secret))) (rand (hmac_size t))
      else Inr None)"

definition epoch_start :: "random_source \<Rightarrow> int \<Rightarrow> time" where
  "epoch_start s epoch = time_Add (rs_base s) (int64 (epoch * rs_lifetime s))"

definition generate :: "generators \<Rightarrow> entropy \<Rightarrow> random_source \<Rightarrow> int \<Rightarrow> KeyCandidate res" where
  "generate gens rand s epoch =
     (case generate_material gens rand (rs_keyType s) of
        Inl err \<Rightarrow> Err (Wrapf ''generate %s key: %w'' [StrArg (rs_keyType s)] err)
      | Inr m \<Rightarrow>
          (let start = epoch_start s epoch in
           Ok \<lparr>cand_ID = rs_id s @ ''-'' @ decimal epoch, cand_Owner = [], cand_Source = rs_id s,
               cand_Restrictions = [], cand_Status = KeyStatusPassive, cand_Priority = 0,
               cand_NotBefore = start, cand_NotAfter = time_Add start (int64 (2 * rs_lifetime s)),
               cand_Material = m\<rparr>))"

definition withStatus :: "KeyCandidate \<Rightarrow> KeyStatus \<Rightarrow> KeyCandidate" where
  "withStatus candidate status = candidate\<lparr>cand_Status := status\<rparr>"

section \<open>Rotation\<close>

definition rotate_epoch :: "time \<Rightarrow> random_source \<Rightarrow> random_source" where
  "rotate_epoch now s =
     (if IsZero (rs_base s) then s\<lparr>rs_base := now, rs_epoch := 0\<rparr>
      else s\<lparr>rs_epoch := int64 (go_div (time_Sub now (rs_base s)) (rs_lifetime s))\<rparr>)"

text \<open>The loop that generates what is missing; each epoch draws its own randomness.\<close>

fun fill_epochs ::
    "generators \<Rightarrow> (int \<Rightarrow> entropy) \<Rightarrow> int list \<Rightarrow> random_source \<Rightarrow> random_source \<times> unit res" where
  "fill_epochs gens draw [] s = (s, Ok ())"
| "fill_epochs gens draw (epoch # epochs) s =
     (case rs_keys s epoch of
        Some candidate \<Rightarrow> fill_epochs gens draw epochs s
      | None \<Rightarrow>
          (case generate gens (draw epoch) s epoch of
             Ok generated \<Rightarrow> fill_epochs gens draw epochs (s\<lparr>rs_keys := (rs_keys s)(epoch \<mapsto> generated)\<rparr>)
           | Err err \<Rightarrow> (s, Err err)
           | Panic p \<Rightarrow> (s, Panic p)))"

definition drop_epochs :: "random_source \<Rightarrow> random_source" where
  "drop_epochs s =
     s\<lparr>rs_keys := (\<lambda>epoch. if epoch < int64 (rs_epoch s - 1) \<or> int64 (rs_epoch s + 1) < epoch
                         then None else rs_keys s epoch)\<rparr>"

text \<open>Reading a missing key of a Go map gives the zero value.\<close>

definition epoch_key :: "random_source \<Rightarrow> int \<Rightarrow> KeyCandidate" where
  "epoch_key s epoch = (case rs_keys s epoch of None \<Rightarrow> zero_KeyCandidate | Some c \<Rightarrow> c)"

text \<open>The division by a zero lifetime panics before the epoch is assigned.\<close>

definition rotateLocked ::
    "generators \<Rightarrow> (int \<Rightarrow> entropy) \<Rightarrow> time \<Rightarrow> random_source \<Rightarrow> random_source \<times> KeyCandidate list res" where
  "rotateLocked gens draw now s =
     (if \<not> IsZero (rs_base s) \<and> rs_lifetime s = 0 then (s, Panic ''integer divide by zero'')
      else
        (let s = rotate_epoch now s; e = rs_epoch s in
         case fill_epochs gens draw [int64 (e - 1), e, int64 (e + 1)] s of
           (s, Ok u) \<Rightarrow>
             (let s = drop_epochs s in
              (s, Ok [withStatus (epoch_key s (int64 (e - 1))) KeyStatusPassive,
                      withStatus (epoch_key s e) KeyStatusActive,
                      withStatus (epoch_key s (int64 (e + 1))) KeyStatusPassive]))
         | (s, Err err) \<Rightarrow> (s, Err err)
         | (s, Panic p) \<Rightarrow> (s, Panic p)))"

section \<open>The operations\<close>

definition startLocked :: "random_source \<Rightarrow> random_source" where
  "startLocked s =
     (if rs_closed s \<or> rs_started s \<or> rs_callback s = None \<or> IsZero (rs_base s) then s
      else s\<lparr>rs_started := True, rs_watches := rs_watches s + 1\<rparr>)"

definition random_Load ::
    "generators \<Rightarrow> (int \<Rightarrow> entropy) \<Rightarrow> time \<Rightarrow> ctxt option \<Rightarrow> random_source
       \<Rightarrow> random_source \<times> KeyCandidate list res" where
  "random_Load gens draw now context s =
     (case context of
        None \<Rightarrow> (s, Err (Errorf ''load random source: nil context'' []))
      | Some ctx \<Rightarrow>
          (case ctx 0 of
             Some err \<Rightarrow> (s, Err err)
           | None \<Rightarrow>
               if rs_closed s then (s, Err random_ErrClosed)
               else
                 (case rotateLocked gens draw now s of
                    (s, Ok keys) \<Rightarrow>
                      (case ctx 1 of
                         Some err \<Rightarrow> (s, Err err)
                       | None \<Rightarrow> (startLocked s, Ok keys))
                  | (s, failed) \<Rightarrow> (s, failed))))"

definition random_Close :: "random_source \<Rightarrow> random_source \<times> error option" where
  "random_Close s =
     (if rs_closed s then (s, None)
      else (s\<lparr>rs_closed := True, rs_cancelled := True\<rparr>, None))"

text \<open>The critical section of \<^verbatim>\<open>SetRefreshCallback\<close>, then its non-blocking send.\<close>

definition set_callback :: "string option \<Rightarrow> random_source \<Rightarrow> random_source" where
  "set_callback callback s = startLocked (s\<lparr>rs_callback := callback\<rparr>)"

definition wake :: "random_source \<Rightarrow> random_source" where
  "wake s = s\<lparr>rs_wake := True\<rparr>"

definition random_SetRefreshCallback :: "string option \<Rightarrow> random_source \<Rightarrow> random_source" where
  "random_SetRefreshCallback callback s = wake (set_callback callback s)"

text \<open>
  The critical sections of \<^verbatim>\<open>watch\<close>: reading the next deadline, and rotating when the timer fires,
  with the callback to be called after the lock has been released, if any.
\<close>

definition watch_deadline :: "random_source \<Rightarrow> time" where
  "watch_deadline s = time_Add (rs_base s) (int64 (int64 (rs_epoch s + 1) * rs_lifetime s))"

definition watch_rotate ::
    "generators \<Rightarrow> (int \<Rightarrow> entropy) \<Rightarrow> time \<Rightarrow> random_source
       \<Rightarrow> random_source \<times> (string \<times> KeyCandidate list) option res" where
  "watch_rotate gens draw now s =
     (case rotateLocked gens draw now s of
        (s, Ok keys) \<Rightarrow> (s, Ok (map_option (\<lambda>callback. (callback, keys)) (rs_callback s)))
      | (s, Err err) \<Rightarrow> (s, Ok None)
      | (s, Panic p) \<Rightarrow> (s, Panic p))"


section \<open>Facts about generation and rotation\<close>

lemma startLocked_frame [simp]:
  "rs_id (startLocked s) = rs_id s" "rs_keyType (startLocked s) = rs_keyType s"
  "rs_lifetime (startLocked s) = rs_lifetime s" "rs_cancelled (startLocked s) = rs_cancelled s"
  "rs_callback (startLocked s) = rs_callback s" "rs_closed (startLocked s) = rs_closed s"
  "rs_base (startLocked s) = rs_base s" "rs_epoch (startLocked s) = rs_epoch s"
  "rs_keys (startLocked s) = rs_keys s" "rs_wake (startLocked s) = rs_wake s"
  by (simp_all add: startLocked_def)

lemma generate_keys [simp]: "generate gens rand (s\<lparr>rs_keys := ks\<rparr>) epoch = generate gens rand s epoch"
  by (simp add: generate_def epoch_start_def split: sum.split)

lemma generate_not_Panic: "generate gens rand s epoch \<noteq> Panic p"
  by (simp add: generate_def Let_def split: sum.split)

text \<open>What a key of an epoch looks like, apart from its material.\<close>

definition epoch_candidate :: "random_source \<Rightarrow> int \<Rightarrow> KeyCandidate \<Rightarrow> bool" where
  "epoch_candidate s e c \<longleftrightarrow>
     cand_ID c = rs_id s @ ''-'' @ decimal e \<and> cand_Source c = rs_id s \<and> cand_Restrictions c = []
     \<and> cand_Priority c = 0 \<and> cand_Status c = KeyStatusPassive \<and> cand_NotBefore c = epoch_start s e
     \<and> cand_NotAfter c = epoch_start s e + int64 (2 * rs_lifetime s)"

lemma generate_candidate: "generate gens rand s e = Ok c \<Longrightarrow> epoch_candidate s e c"
  by (auto simp: generate_def epoch_candidate_def time_Add_def Let_def split: sum.splits)

lemma fill_epochs_result:
  assumes "fill_epochs gens draw es s = (s', r)"
  shows "\<exists>ks. s' = s\<lparr>rs_keys := ks\<rparr> \<and> rs_keys s \<subseteq>\<^sub>m ks \<and> dom ks \<subseteq> dom (rs_keys s) \<union> set es
     \<and> (\<forall>e c. ks e = Some c \<longrightarrow> rs_keys s e = Some c \<or> generate gens (draw e) s e = Ok c)
     \<and> (\<forall>p. r \<noteq> Panic p) \<and> (r = Ok () \<longrightarrow> set es \<subseteq> dom ks)"
  using assms
proof (induction es arbitrary: s)
  case Nil
  then show ?case by (intro exI [of _ "rs_keys s"]) auto
next
  case (Cons e es)
  show ?case
  proof (cases "rs_keys s e")
    case (Some c)
    then have "fill_epochs gens draw es s = (s', r)" using Cons.prems by simp
    from Cons.IH [OF this] obtain ks where ks: "s' = s\<lparr>rs_keys := ks\<rparr>" "rs_keys s \<subseteq>\<^sub>m ks"
        "dom ks \<subseteq> dom (rs_keys s) \<union> set es"
        "\<forall>e c. ks e = Some c \<longrightarrow> rs_keys s e = Some c \<or> generate gens (draw e) s e = Ok c"
        "\<forall>p. r \<noteq> Panic p" "r = Ok () \<longrightarrow> set es \<subseteq> dom ks" by blast
    moreover have "e \<in> dom ks" using map_le_implies_dom_le [OF ks(2)] Some by auto
    ultimately show ?thesis by (intro exI [of _ ks]) auto
  next
    case None
    show ?thesis
    proof (cases "generate gens (draw e) s e")
      case (Ok c)
      let ?s = "s\<lparr>rs_keys := (rs_keys s)(e \<mapsto> c)\<rparr>"
      have "fill_epochs gens draw es ?s = (s', r)" using Cons.prems None Ok by simp
      from Cons.IH [OF this] obtain ks where raw: "s' = ?s\<lparr>rs_keys := ks\<rparr>" "rs_keys ?s \<subseteq>\<^sub>m ks"
          "dom ks \<subseteq> dom (rs_keys ?s) \<union> set es"
          "\<forall>d c'. ks d = Some c' \<longrightarrow> rs_keys ?s d = Some c' \<or> generate gens (draw d) ?s d = Ok c'"
          "\<forall>p. r \<noteq> Panic p" "r = Ok () \<longrightarrow> set es \<subseteq> dom ks"
        by blast
      then have ks: "s' = s\<lparr>rs_keys := ks\<rparr>" "(rs_keys s)(e \<mapsto> c) \<subseteq>\<^sub>m ks"
          "dom ks \<subseteq> insert e (dom (rs_keys s)) \<union> set es"
        by simp_all
      have "rs_keys s \<subseteq>\<^sub>m (rs_keys s)(e \<mapsto> c)" using None by (simp add: map_le_def dom_def)
      then have le: "rs_keys s \<subseteq>\<^sub>m ks" using ks(2) by (rule map_le_trans)
      have e: "ks e = Some c" using ks(2) by (simp add: map_le_def)
      have "dom ks \<subseteq> dom (rs_keys s) \<union> set (e # es)" "r = Ok () \<longrightarrow> set (e # es) \<subseteq> dom ks"
        using ks(3) raw(6) e by auto
      moreover have "rs_keys s d = Some c' \<or> generate gens (draw d) s d = Ok c'" if "ks d = Some c'" for d c'
        using raw(4) [rule_format, OF that] that Ok e by (simp split: if_splits)
      ultimately show ?thesis using ks(1) raw(5) le by blast
    next
      case (Err err)
      then have eq: "s' = s" "r = Err err" using Cons.prems None by simp_all
      then show ?thesis by (intro exI [of _ "rs_keys s"]) auto
    next
      case (Panic p)
      then show ?thesis by (simp add: generate_not_Panic)
    qed
  qed
qed

lemma fill_epochs_Ok:
  "snd (fill_epochs gens draw es s) = Ok () \<longleftrightarrow>
     (\<forall>e\<in>set es. rs_keys s e = None \<longrightarrow> is_ok (generate gens (draw e) s e))"
proof (induction es arbitrary: s)
  case Nil
  then show ?case by simp
next
  case (Cons e es)
  show ?case
  proof (cases "rs_keys s e")
    case (Some c)
    then show ?thesis using Cons.IH by auto
  next
    case None
    then show ?thesis
      using Cons.IH by (cases "generate gens (draw e) s e") (auto split: if_splits)
  qed
qed

text \<open>The number of the epoch at a time, with no wrap-around for lifetimes of two nanoseconds or more.\<close>

definition rotation_epoch :: "time \<Rightarrow> random_source \<Rightarrow> int" where
  "rotation_epoch now s =
     (if rs_base s = 0 then 0 else go_div (time_Sub now (rs_base s)) (rs_lifetime s))"

definition rotation_base :: "time \<Rightarrow> random_source \<Rightarrow> time" where
  "rotation_base now s = (if rs_base s = 0 then now else rs_base s)"

lemma go_div_abs_bound:
  assumes "\<bar>a\<bar> \<le> 9223372036854775808" "2 \<le> b"
  shows "\<bar>go_div a b\<bar> \<le> 4611686018427387904"
proof -
  have "\<bar>a\<bar> div b \<le> \<bar>a\<bar> div 2" using assms(2) by (intro zdiv_mono2) auto
  also have "\<dots> \<le> 4611686018427387904" using assms(1) by simp
  finally have le: "\<bar>a\<bar> div b \<le> 4611686018427387904" .
  have "0 \<le> \<bar>a\<bar> div b" using assms(2) by (simp add: pos_imp_zdiv_nonneg_iff)
  then show ?thesis using le assms(2)
    by (cases a "0 :: int" rule: linorder_cases) (simp_all add: go_div_def)
qed

lemma rotation_epoch_bound:
  assumes "2 \<le> rs_lifetime s"
  shows "\<bar>rotation_epoch now s\<bar> \<le> 4611686018427387904"
proof -
  have "\<bar>time_Sub now (rs_base s)\<bar> \<le> 9223372036854775808"
    by (simp add: time_Sub_def int64_min_def int64_max_def)
  from go_div_abs_bound [OF this assms] show ?thesis by (simp add: rotation_epoch_def)
qed

lemma epoch_int64 [simp]:
  "\<bar>e\<bar> \<le> 4611686018427387904 \<Longrightarrow> int64 e = e \<and> int64 (e - 1) = e - 1 \<and> int64 (e + 1) = e + 1"
  by (simp add: int64_id int64_min_def int64_max_def)

lemma rotate_epoch_eq:
  assumes "2 \<le> rs_lifetime s"
  shows "rotate_epoch now s = s\<lparr>rs_base := rotation_base now s, rs_epoch := rotation_epoch now s\<rparr>"
  using rotation_epoch_bound [OF assms, of now]
  by (cases s) (auto simp: rotate_epoch_def rotation_base_def rotation_epoch_def IsZero_def)

declare fill_epochs.simps [simp del]

text \<open>The invariant of the map of keys: every key in it is that of its epoch.\<close>

definition keys_ok :: "random_source \<Rightarrow> bool" where
  "keys_ok s \<longleftrightarrow> 2 \<le> rs_lifetime s
     \<and> (\<forall>e c. rs_keys s e = Some c \<longrightarrow> epoch_candidate s e c)
     \<and> (rs_base s = 0 \<longrightarrow> rs_keys s = Map.empty)"

definition window :: "int \<Rightarrow> int set" where
  "window e = {e - 1, e, e + 1}"

text \<open>The keys a rotation returns.\<close>

definition window_keys :: "random_source \<Rightarrow> KeyCandidate list" where
  "window_keys s =
     [withStatus (epoch_key s (rs_epoch s - 1)) KeyStatusPassive,
      withStatus (epoch_key s (rs_epoch s)) KeyStatusActive,
      withStatus (epoch_key s (rs_epoch s + 1)) KeyStatusPassive]"

definition rotated :: "time \<Rightarrow> random_source \<Rightarrow> random_source" where
  "rotated now s = s\<lparr>rs_base := rotation_base now s, rs_epoch := rotation_epoch now s\<rparr>"

lemma rotated_simps [simp]:
  "rs_id (rotated now s) = rs_id s" "rs_lifetime (rotated now s) = rs_lifetime s"
  "rs_base (rotated now s) = rotation_base now s" "rs_epoch (rotated now s) = rotation_epoch now s"
  "rs_keys (rotated now s) = rs_keys s" "rs_callback (rotated now s) = rs_callback s"
  "rs_closed (rotated now s) = rs_closed s" "rs_started (rotated now s) = rs_started s"
  "rs_cancelled (rotated now s) = rs_cancelled s" "rs_wake (rotated now s) = rs_wake s"
  "rs_keyType (rotated now s) = rs_keyType s" "rs_watches (rotated now s) = rs_watches s"
  by (simp_all add: rotated_def)

lemma rotation_base_nonzero: "now \<noteq> 0 \<Longrightarrow> rotation_base now s \<noteq> 0"
  by (simp add: rotation_base_def)

lemma keys_ok_rotated: "keys_ok s \<Longrightarrow> now \<noteq> 0 \<Longrightarrow> keys_ok (rotated now s)"
  by (auto simp: keys_ok_def epoch_candidate_def epoch_start_def rotation_base_def)

lemma rotateLocked_eq:
  assumes "2 \<le> rs_lifetime s"
  shows "rotateLocked gens draw now s =
     (let e = rotation_epoch now s in
      case fill_epochs gens draw [e - 1, e, e + 1] (rotated now s) of
        (s, Ok u) \<Rightarrow> (drop_epochs s, Ok (window_keys (drop_epochs s)))
      | (s, Err err) \<Rightarrow> (s, Err err)
      | (s, Panic p) \<Rightarrow> (s, Panic p))"
proof -
  let ?e = "rotation_epoch now s"
  let ?r = "fill_epochs gens draw [?e - 1, ?e, ?e + 1] (rotated now s)"
  have e: "int64 (?e - 1) = ?e - 1" "int64 (?e + 1) = ?e + 1"
    using rotation_epoch_bound [OF assms, of now] by simp_all
  obtain ks where "fst ?r = (rotated now s)\<lparr>rs_keys := ks\<rparr>"
    using fill_epochs_result [of gens draw _ _ "fst ?r" "snd ?r"] by (metis prod.collapse)
  then have "rs_epoch (fst ?r) = ?e" by simp
  then show ?thesis
    using assms
    by (auto simp: rotateLocked_def rotate_epoch_eq rotated_def [symmetric] e window_keys_def
        drop_epochs_def Let_def split: prod.split res.split)
qed

lemma drop_epochs_eq:
  assumes "\<bar>rs_epoch s\<bar> \<le> 4611686018427387904"
  shows "drop_epochs s = s\<lparr>rs_keys := rs_keys s |` window (rs_epoch s)\<rparr>"
proof -
  have "(\<lambda>epoch. if epoch < rs_epoch s - 1 \<or> rs_epoch s + 1 < epoch then None else rs_keys s epoch)
      = rs_keys s |` window (rs_epoch s)"
    by (rule ext) (auto simp: window_def restrict_map_def)
  then show ?thesis using assms by (simp add: drop_epochs_def)
qed

text \<open>What a rotation does to the state and what it returns.\<close>

lemma rotate_result:
  assumes ok: "keys_ok s" and now: "now \<noteq> 0" and run: "rotateLocked gens draw now s = (s', r)"
  shows "s' = (rotated now s)\<lparr>rs_keys := rs_keys s'\<rparr> \<and> keys_ok s' \<and> (\<forall>p. r \<noteq> Panic p)
     \<and> (\<forall>cs. r = Ok cs \<longrightarrow> dom (rs_keys s') = window (rotation_epoch now s)
          \<and> rs_keys s |` window (rotation_epoch now s) \<subseteq>\<^sub>m rs_keys s' \<and> cs = window_keys s')
     \<and> (\<forall>err. r = Err err \<longrightarrow> rs_keys s \<subseteq>\<^sub>m rs_keys s')"
proof -
  let ?e = "rotation_epoch now s" and ?t = "rotated now s"
  have L: "2 \<le> rs_lifetime s" using ok by (simp add: keys_ok_def)
  obtain s1 r1 where fill: "fill_epochs gens draw [?e - 1, ?e, ?e + 1] ?t = (s1, r1)" by fastforce
  from fill_epochs_result [OF this] obtain ks where ks: "s1 = ?t\<lparr>rs_keys := ks\<rparr>" "rs_keys s \<subseteq>\<^sub>m ks"
      "\<forall>d c. ks d = Some c \<longrightarrow> rs_keys s d = Some c \<or> generate gens (draw d) ?t d = Ok c"
      "\<forall>p. r1 \<noteq> Panic p" "r1 = Ok () \<longrightarrow> window ?e \<subseteq> dom ks"
    by (auto simp: window_def)
  have cand: "epoch_candidate (?t\<lparr>rs_keys := ks'\<rparr>) d c" if "ks d = Some c" for ks' d c
  proof -
    have "epoch_candidate ?t d c"
      using ks(3) that generate_candidate keys_ok_rotated [OF ok now] unfolding keys_ok_def rotated_simps
      by blast
    then show ?thesis by (simp add: epoch_candidate_def epoch_start_def)
  qed
  have bad: "rotation_base now s \<noteq> 0" by (rule rotation_base_nonzero [OF now])
  show ?thesis
  proof (cases r1)
    case (Ok u)
    have drop: "drop_epochs s1 = ?t\<lparr>rs_keys := ks |` window ?e\<rparr>"
      using drop_epochs_eq [of s1] rotation_epoch_bound [OF L, of now] by (simp add: ks(1))
    have s': "s' = ?t\<lparr>rs_keys := ks |` window ?e\<rparr>" and r: "r = Ok (window_keys s')"
      using run by (auto simp: rotateLocked_eq [OF L] Let_def fill Ok drop)
    have "keys_ok s'"
      using cand L bad by (auto simp: keys_ok_def s' restrict_map_def)
    moreover have "dom (rs_keys s') = window ?e" using ks(5) Ok by (auto simp: s')
    moreover have "rs_keys s |` window ?e \<subseteq>\<^sub>m rs_keys s'"
      using ks(2) by (auto simp: s' map_le_def)
    ultimately show ?thesis using r by (simp add: s')
  next
    case (Err err)
    have s': "s' = ?t\<lparr>rs_keys := ks\<rparr>" and r: "r = Err err"
      using run by (simp_all add: rotateLocked_eq [OF L] Let_def fill Err ks(1))
    have "keys_ok s'" using cand L bad by (simp add: keys_ok_def s')
    then show ?thesis using ks(2) by (simp add: s' r)
  next
    case (Panic p)
    then show ?thesis using ks(4) by simp
  qed
qed

section \<open>The validity of the keys\<close>

text \<open>
  The arithmetic stays in range when the distance from the base to the end of the next key is a
  64-bit number of nanoseconds (292 years), and the zero time is not among the validity bounds.
\<close>

definition in_range :: "time \<Rightarrow> random_source \<Rightarrow> bool" where
  "in_range now s \<longleftrightarrow>
     rotation_base now s \<le> now \<and> rs_lifetime s < rotation_base now s
     \<and> now - rotation_base now s + 3 * rs_lifetime s \<le> int64_max"

lemma in_range_epoch:
  assumes "2 \<le> rs_lifetime s" "in_range now s"
  shows "0 \<le> rotation_epoch now s"
    "rotation_epoch now s * rs_lifetime s \<le> now - rotation_base now s"
    "now - rotation_base now s < (rotation_epoch now s + 1) * rs_lifetime s"
proof -
  let ?L = "rs_lifetime s" and ?d = "now - rotation_base now s"
  have "rotation_epoch now s = go_div ?d ?L"
    using assms by (auto simp: rotation_epoch_def rotation_base_def in_range_def go_div_def time_Sub_def
        int64_max_def int64_min_def)
  moreover have "0 \<le> ?d" "0 < ?L" using assms by (simp_all add: in_range_def)
  ultimately show "0 \<le> rotation_epoch now s" "rotation_epoch now s * ?L \<le> ?d"
    "?d < (rotation_epoch now s + 1) * ?L"
    using go_div_self_bounds [of ?d ?L] by (simp_all add: go_div_nonneg pos_imp_zdiv_nonneg_iff)
qed

lemma int64_multiple:
  assumes "2 \<le> L" "L \<le> int64_max" "- 1 \<le> e" "e * L \<le> int64_max"
  shows "int64 (e * L) = e * L"
proof (rule int64_id)
  have "- L \<le> e * L" using assms(1,3) mult_right_mono [of "-1" e L] by simp
  then show "int64_min \<le> e * L" using assms(2) by (simp add: int64_min_def int64_max_def)
qed (rule assms(4))

text \<open>The bounds of the epochs of the window, without wrap-around.\<close>

lemma in_range_starts:
  assumes "2 \<le> rs_lifetime s" "in_range now s" "d \<in> window (rotation_epoch now s)"
  shows "epoch_start (rotated now s) d = rotation_base now s + d * rs_lifetime s"
    "int64 (2 * rs_lifetime s) = 2 * rs_lifetime s"
    "rotation_base now s + d * rs_lifetime s \<noteq> 0"
    "rotation_base now s + d * rs_lifetime s + 2 * rs_lifetime s \<noteq> 0"
proof -
  let ?L = "rs_lifetime s" and ?e = "rotation_epoch now s"
  note e = in_range_epoch [OF assms(1,2)]
  have L: "?L < rotation_base now s" "now - rotation_base now s + 3 * ?L \<le> int64_max"
    "rotation_base now s \<le> now"
    using assms(2) by (simp_all add: in_range_def)
  then have Lmax: "?L \<le> int64_max" using assms(1) by linarith
  have d: "- 1 \<le> d" "d \<le> ?e + 1" using assms(3) e(1) by (auto simp: window_def)
  have "d * ?L \<le> (?e + 1) * ?L" using d(2) assms(1) by (simp add: mult_right_mono)
  then have up: "d * ?L \<le> int64_max" using e(2) L assms(1) by (simp add: distrib_right)
  show "epoch_start (rotated now s) d = rotation_base now s + d * ?L"
    using int64_multiple [OF assms(1) Lmax d(1) up] by (simp add: epoch_start_def time_Add_def)
  show "int64 (2 * ?L) = 2 * ?L"
    using int64_multiple [OF assms(1) Lmax, of 2] assms(1) L by simp
  have "- ?L \<le> d * ?L" using d(1) assms(1) mult_right_mono [of "-1" d ?L] by simp
  then show "rotation_base now s + d * ?L \<noteq> 0" "rotation_base now s + d * ?L + 2 * ?L \<noteq> 0"
    using L(1) assms(1) by auto
qed

section \<open>The result of a rotation\<close>

lemma rotate_ok_iff:
  assumes "keys_ok s"
  shows "is_ok (snd (rotateLocked gens draw now s)) \<longleftrightarrow>
     (\<forall>d\<in>window (rotation_epoch now s).
        rs_keys s d = None \<longrightarrow> is_ok (generate gens (draw d) (rotated now s) d))"
proof -
  let ?r = "fill_epochs gens draw [rotation_epoch now s - 1, rotation_epoch now s, rotation_epoch now s + 1]
    (rotated now s)"
  have L: "2 \<le> rs_lifetime s" using assms by (simp add: keys_ok_def)
  have "is_ok (snd (rotateLocked gens draw now s)) \<longleftrightarrow> is_ok (snd ?r)"
    by (simp add: rotateLocked_eq [OF L] Let_def split: prod.split res.split)
  also have "\<dots> \<longleftrightarrow> snd ?r = Ok ()" by (simp add: is_ok_iff)
  finally show ?thesis unfolding fill_epochs_Ok by (simp add: window_def)
qed

text \<open>Apart from the keys, a rotation changes the base and the epoch only.\<close>

lemma rotate_frame:
  assumes "keys_ok s" "now \<noteq> 0" "rotateLocked gens draw now s = (s', r)"
  shows "rs_id s' = rs_id s" "rs_lifetime s' = rs_lifetime s" "rs_callback s' = rs_callback s"
    "rs_closed s' = rs_closed s" "rs_started s' = rs_started s" "rs_cancelled s' = rs_cancelled s"
    "rs_wake s' = rs_wake s" "rs_base s' = rotation_base now s" "rs_epoch s' = rotation_epoch now s"
    "rs_keyType s' = rs_keyType s" "rs_watches s' = rs_watches s"
proof -
  have eq: "s' = (rotated now s)\<lparr>rs_keys := rs_keys s'\<rparr>" using rotate_result [OF assms] by blast
  show "rs_id s' = rs_id s" "rs_lifetime s' = rs_lifetime s" "rs_callback s' = rs_callback s"
    "rs_closed s' = rs_closed s" "rs_started s' = rs_started s" "rs_cancelled s' = rs_cancelled s"
    "rs_wake s' = rs_wake s" "rs_base s' = rotation_base now s" "rs_epoch s' = rotation_epoch now s"
    "rs_keyType s' = rs_keyType s" "rs_watches s' = rs_watches s"
    by (subst eq, simp)+
qed

lemma epoch_key_Some: "rs_keys s e = Some c \<Longrightarrow> epoch_key s e = c"
  by (simp add: epoch_key_def)

text \<open>The three keys of a successful rotation.\<close>

lemma rotate_keys:
  assumes "keys_ok s" "now \<noteq> 0" "rotateLocked gens draw now s = (s', Ok cs)"
  shows "\<exists>p c n. rs_keys s' (rotation_epoch now s - 1) = Some p \<and> rs_keys s' (rotation_epoch now s) = Some c
     \<and> rs_keys s' (rotation_epoch now s + 1) = Some n
     \<and> cs = [withStatus p KeyStatusPassive, withStatus c KeyStatusActive, withStatus n KeyStatusPassive]"
proof -
  let ?e = "rotation_epoch now s"
  note res = rotate_result [OF assms]
  then have d: "dom (rs_keys s') = window ?e" and cs: "cs = window_keys s'" by blast+
  moreover have "rs_epoch s' = ?e" by (rule rotate_frame [OF assms])
  moreover obtain p c n where "rs_keys s' (?e - 1) = Some p" "rs_keys s' ?e = Some c" "rs_keys s' (?e + 1) = Some n"
  proof -
    have "?e - 1 \<in> dom (rs_keys s')" "?e \<in> dom (rs_keys s')" "?e + 1 \<in> dom (rs_keys s')"
      unfolding d by (simp_all add: window_def)
    then show ?thesis using that by blast
  qed
  ultimately show ?thesis by (auto simp: window_keys_def epoch_key_Some)
qed

section \<open>A sample source\<close>

text \<open>A source of HMAC keys with a lifetime of ten nanoseconds, first used at instant 100.\<close>

definition sample_generators :: generators where
  "sample_generators = \<lparr>gen_rsa = (\<lambda>_ _. Inl (External 0)), gen_ecdsa = (\<lambda>_ _. Inl (External 0))\<rparr>"

definition sample_random :: random_source where
  "sample_random = \<lparr>rs_id = ''r'', rs_keyType = HMAC256, rs_lifetime = 10, rs_cancelled = False,
     rs_callback = None, rs_started = False, rs_closed = False, rs_base = 0, rs_epoch = 0,
     rs_keys = Map.empty, rs_wake = False, rs_watches = 0\<rparr>"

definition sample_draw :: "int \<Rightarrow> entropy" where
  "sample_draw e = sample_entropy"

lemma sample_random_New: "random_New ''r'' HMAC256 10 = Ok sample_random"
proof -
  have "TrimSpace ''r'' \<noteq> []" by code_simp
  then show ?thesis by (simp add: random_New_def sample_random_def validKeyType_def)
qed

lemma sample_generate: "rs_keyType s = HMAC256 \<Longrightarrow> is_ok (generate gens (sample_draw e) s e)"
  by (simp add: generate_def generate_material_def key_types sample_draw_def sample_entropy_def Let_def)

lemma sample_keys_ok: "keys_ok sample_random"
  by (simp add: keys_ok_def sample_random_def)

lemma sample_rotates:
  assumes "keys_ok s" "rs_keyType s = HMAC256" "now \<noteq> 0"
  shows "\<exists>s' p c n. rotateLocked sample_generators sample_draw now s = (s', Ok [p, c, n])"
proof -
  have "is_ok (snd (rotateLocked sample_generators sample_draw now s))"
    unfolding rotate_ok_iff [OF assms(1)] using assms(2) by (simp add: sample_generate)
  then obtain s' cs where "rotateLocked sample_generators sample_draw now s = (s', Ok cs)"
    by (cases "rotateLocked sample_generators sample_draw now s") (auto simp: is_ok_iff)
  with rotate_keys [OF assms(1,3) this] show ?thesis by auto
qed

lemma sample_epoch: "rotation_epoch 100 sample_random = 0" "rotation_base 100 sample_random = 100"
  "in_range 105 sample_random" "in_range 100 sample_random" "rs_id sample_random = ''r''"
  "rs_lifetime sample_random = 10" "rs_keyType sample_random = HMAC256"
  by (simp_all add: rotation_epoch_def rotation_base_def in_range_def sample_random_def int64_max_def)

text \<open>The first three keys of the sample.\<close>

definition sample_epoch_key :: "int \<Rightarrow> KeyStatus \<Rightarrow> KeyCandidate" where
  "sample_epoch_key e status = \<lparr>cand_ID = ''r'' @ ''-'' @ decimal e, cand_Owner = [], cand_Source = ''r'',
     cand_Restrictions = [], cand_Status = status, cand_Priority = 0, cand_NotBefore = 100 + 10 * e,
     cand_NotAfter = 120 + 10 * e, cand_Material = Some (SymmetricMaterial (Some (replicate 32 7)))\<rparr>"

lemma sample_generate_key:
  "rs_id s = ''r'' \<Longrightarrow> rs_keyType s = HMAC256 \<Longrightarrow> rs_lifetime s = 10 \<Longrightarrow> rs_base s = 100 \<Longrightarrow> e \<in> {- 1, 0, 1} \<Longrightarrow>
     generate sample_generators (sample_draw e) s e = Ok (sample_epoch_key e KeyStatusPassive)"
  by (auto simp: generate_def generate_material_def key_types hmac_size_def sample_draw_def sample_entropy_def
      Let_def sample_epoch_key_def epoch_start_def time_Add_def int64_def)

lemma sample_first_rotation:
  "\<exists>s'. rotateLocked sample_generators sample_draw 100 sample_random =
     (s', Ok [sample_epoch_key (- 1) KeyStatusPassive, sample_epoch_key 0 KeyStatusActive,
              sample_epoch_key 1 KeyStatusPassive])"
proof -
  have f: "rs_id (rotated 100 sample_random) = ''r''" "rs_keyType (rotated 100 sample_random) = HMAC256"
    "rs_lifetime (rotated 100 sample_random) = 10" "rs_base (rotated 100 sample_random) = 100"
    "rs_epoch (rotated 100 sample_random) = 0" "rs_keys (rotated 100 sample_random) = Map.empty"
    using sample_epoch by (simp_all add: sample_random_def)
  have "2 \<le> rs_lifetime sample_random" by (simp add: sample_epoch)
  moreover have "fill_epochs sample_generators sample_draw [- 1, 0, 1] (rotated 100 sample_random) =
      ((rotated 100 sample_random)\<lparr>rs_keys := [- 1 \<mapsto> sample_epoch_key (- 1) KeyStatusPassive,
         0 \<mapsto> sample_epoch_key 0 KeyStatusPassive, 1 \<mapsto> sample_epoch_key 1 KeyStatusPassive]\<rparr>, Ok ())"
    using f by (simp add: fill_epochs.simps sample_generate_key del: rotated_simps)
  ultimately show ?thesis
    using f by (simp add: rotateLocked_eq sample_epoch drop_epochs_eq window_keys_def window_def
        epoch_key_def withStatus_def sample_epoch_key_def del: rotated_simps)
qed

section \<open>What rotations guarantee\<close>

text \<open>C29: A rotation leaves the source with exactly the keys of the current epoch, the one before it and the
  one after it, and returns them as passive, active and passive. A key made once stays the same while its
  epoch is in this window; the rotation succeeds if and only if the keys still missing can be generated,
  and a failed one forgets no key.\<close>

theorem random_rotation_exact:
  assumes "keys_ok s" "now \<noteq> 0" "rotateLocked gens draw now s = (s', r)" "e = rotation_epoch now s"
  shows "rs_epoch s' = e \<and> keys_ok s'
     \<and> (is_ok r \<longleftrightarrow> (\<forall>d\<in>{e - 1, e, e + 1}.
          rs_keys s d = None \<longrightarrow> is_ok (generate gens (draw d) (rotated now s) d)))
     \<and> (is_ok r \<longrightarrow> dom (rs_keys s') = {e - 1, e, e + 1}
          \<and> rs_keys s |` {e - 1, e, e + 1} \<subseteq>\<^sub>m rs_keys s'
          \<and> (\<exists>p c n. rs_keys s' (e - 1) = Some p \<and> rs_keys s' e = Some c \<and> rs_keys s' (e + 1) = Some n
               \<and> r = Ok [withStatus p KeyStatusPassive, withStatus c KeyStatusActive,
                         withStatus n KeyStatusPassive]))
     \<and> (\<not> is_ok r \<longrightarrow> rs_keys s \<subseteq>\<^sub>m rs_keys s')"
proof (intro conjI impI)
  note res = rotate_result [OF assms(1-3)]
  show "rs_epoch s' = e" using rotate_frame [OF assms(1-3)] assms(4) by simp
  show "keys_ok s'" using res by blast
  show "is_ok r \<longleftrightarrow> (\<forall>d\<in>{e - 1, e, e + 1}.
          rs_keys s d = None \<longrightarrow> is_ok (generate gens (draw d) (rotated now s) d))"
    using rotate_ok_iff [OF assms(1), of gens draw now] assms(3,4) by (simp add: window_def)
  show "rs_keys s \<subseteq>\<^sub>m rs_keys s'" if "\<not> is_ok r"
    using res that by (cases r) auto
  assume "is_ok r"
  then obtain cs where cs: "r = Ok cs" by (auto simp: is_ok_iff)
  then show "dom (rs_keys s') = {e - 1, e, e + 1}" "rs_keys s |` {e - 1, e, e + 1} \<subseteq>\<^sub>m rs_keys s'"
    using res assms(4) by (simp_all add: window_def)
  show "\<exists>p c n. rs_keys s' (e - 1) = Some p \<and> rs_keys s' e = Some c \<and> rs_keys s' (e + 1) = Some n
      \<and> r = Ok [withStatus p KeyStatusPassive, withStatus c KeyStatusActive, withStatus n KeyStatusPassive]"
    using rotate_keys [OF assms(1,2)] assms(3,4) cs by auto
qed

theorem random_rotation_exact_witness:
  "\<exists>s' p c n. rotateLocked sample_generators sample_draw 100 sample_random = (s', Ok [p, c, n])
     \<and> dom (rs_keys s') = {- 1, 0, 1} \<and> cand_Status c = KeyStatusActive"
proof -
  obtain s' p c n where run: "rotateLocked sample_generators sample_draw 100 sample_random = (s', Ok [p, c, n])"
    using sample_rotates [OF sample_keys_ok, of 100] sample_epoch by auto
  from random_rotation_exact [OF sample_keys_ok _ run, of 0] sample_epoch run
  show ?thesis by (intro exI [of _ s'] exI [of _ p] exI [of _ c] exI [of _ n]) (auto simp: withStatus_def)
qed

text \<open>Keys are handed over. In the same epoch a rotation returns the same three keys again; in the next
  one the active key becomes the passive key that still verifies, and the key announced as the next one
  becomes the active key, with the same identifier, material and validity.\<close>

theorem random_handover:
  assumes "keys_ok s" "now \<noteq> 0" "now' \<noteq> 0"
    and "rotateLocked gens draw now s = (s1, Ok [p, c, n])"
    and "rotateLocked gens' draw' now' s1 = (s2, Ok cs)"
  shows "(rs_epoch s2 = rs_epoch s1 \<longrightarrow> cs = [p, c, n])
     \<and> (rs_epoch s2 = rs_epoch s1 + 1 \<longrightarrow>
          (\<exists>next. cs = [c\<lparr>cand_Status := KeyStatusPassive\<rparr>, n\<lparr>cand_Status := KeyStatusActive\<rparr>, next]
             \<and> cand_Status next = KeyStatusPassive \<and> epoch_candidate s2 (rs_epoch s2 + 1) next))"
proof -
  let ?e = "rotation_epoch now s" and ?f = "rotation_epoch now' s1"
  note one = rotate_result [OF assms(1,2,4)]
  then have ok1: "keys_ok s1" by blast
  note two = rotate_result [OF ok1 assms(3,5)]
  have e: "rs_epoch s1 = ?e" "rs_epoch s2 = ?f"
    using rotate_frame [OF assms(1,2,4)] rotate_frame [OF ok1 assms(3,5)] by simp_all
  obtain p0 c0 n0 where k1: "rs_keys s1 (?e - 1) = Some p0" "rs_keys s1 ?e = Some c0" "rs_keys s1 (?e + 1) = Some n0"
    "p = withStatus p0 KeyStatusPassive" "c = withStatus c0 KeyStatusActive" "n = withStatus n0 KeyStatusPassive"
    using rotate_keys [OF assms(1,2,4)] by auto
  obtain p1 c1 n1 where k2: "rs_keys s2 (?f - 1) = Some p1" "rs_keys s2 ?f = Some c1" "rs_keys s2 (?f + 1) = Some n1"
    "cs = [withStatus p1 KeyStatusPassive, withStatus c1 KeyStatusActive, withStatus n1 KeyStatusPassive]"
    using rotate_keys [OF ok1 assms(3,5)] by auto
  have le: "rs_keys s1 |` window ?f \<subseteq>\<^sub>m rs_keys s2" using two by blast
  have stay: "rs_keys s2 d = Some k" if "rs_keys s1 d = Some k" "d \<in> window ?f" for d k
    using le that by (auto simp: map_le_def dom_def)
  have cand: "epoch_candidate s2 (?f + 1) (withStatus n1 KeyStatusPassive)"
    using two k2(3) unfolding keys_ok_def by (auto simp: epoch_candidate_def withStatus_def)
  show ?thesis
  proof (intro conjI impI)
    assume "rs_epoch s2 = rs_epoch s1"
    then show "cs = [p, c, n]"
      using stay [OF k1(1)] stay [OF k1(2)] stay [OF k1(3)] k1(4-6) k2 e by (simp add: window_def)
  next
    assume "rs_epoch s2 = rs_epoch s1 + 1"
    then have "c1 = n0" "p1 = c0"
      using stay [OF k1(2)] stay [OF k1(3)] k2 e by (simp_all add: window_def)
    then show "\<exists>next. cs = [c\<lparr>cand_Status := KeyStatusPassive\<rparr>, n\<lparr>cand_Status := KeyStatusActive\<rparr>, next]
             \<and> cand_Status next = KeyStatusPassive \<and> epoch_candidate s2 (rs_epoch s2 + 1) next"
      using k1(4-6) k2(4) e cand by (simp add: withStatus_def)
  qed
qed

theorem random_handover_witness:
  "\<exists>s1 s2 p c n next.
     rotateLocked sample_generators sample_draw 100 sample_random = (s1, Ok [p, c, n])
     \<and> rotateLocked sample_generators sample_draw 112 s1
         = (s2, Ok [c\<lparr>cand_Status := KeyStatusPassive\<rparr>, n\<lparr>cand_Status := KeyStatusActive\<rparr>, next])"
proof -
  obtain s1 p c n where one: "rotateLocked sample_generators sample_draw 100 sample_random = (s1, Ok [p, c, n])"
    using sample_rotates [OF sample_keys_ok, of 100] sample_epoch by auto
  note f = rotate_frame [OF sample_keys_ok _ one]
  have ok: "keys_ok s1" using rotate_result [OF sample_keys_ok _ one] by simp
  obtain s2 p' c' n' where two: "rotateLocked sample_generators sample_draw 112 s1 = (s2, Ok [p', c', n'])"
    using sample_rotates [OF ok, of 112] f(10) sample_epoch by auto
  have "rs_epoch s2 = rs_epoch s1 + 1"
    using rotate_frame(9) [OF ok _ two] f(2,8,9) sample_epoch
    by (simp add: rotation_epoch_def time_Sub_def int64_min_def int64_max_def go_div_def)
  then show ?thesis using random_handover [OF sample_keys_ok _ _ one two] one two by auto
qed

text \<open>The validity of the keys in terms of the base and the epoch, with no bound at the zero time.\<close>

lemma rotate_valid:
  assumes "keys_ok s" "now \<noteq> 0" "in_range now s"
    and "rotateLocked gens draw now s = (s', Ok [p, c, n])"
  shows "cand_NotBefore p = rotation_base now s + (rotation_epoch now s - 1) * rs_lifetime s"
    "cand_NotBefore c = rotation_base now s + rotation_epoch now s * rs_lifetime s"
    "cand_NotBefore n = rotation_base now s + (rotation_epoch now s + 1) * rs_lifetime s"
    "k \<in> {p, c, n} \<Longrightarrow> cand_NotAfter k = cand_NotBefore k + 2 * rs_lifetime s"
    "k \<in> {p, c, n} \<Longrightarrow> cand_NotBefore k \<noteq> 0 \<and> cand_NotAfter k \<noteq> 0"
    "k \<in> {p, c, n} \<Longrightarrow> cand_Source k = rs_id s \<and> cand_Restrictions k = [] \<and> cand_Priority k = 0"
    "cand_ID p = rs_id s @ ''-'' @ decimal (rotation_epoch now s - 1)"
    "cand_ID c = rs_id s @ ''-'' @ decimal (rotation_epoch now s)"
    "cand_ID n = rs_id s @ ''-'' @ decimal (rotation_epoch now s + 1)"
    "cand_Status p = KeyStatusPassive" "cand_Status c = KeyStatusActive" "cand_Status n = KeyStatusPassive"
    "watch_deadline s' = cand_NotBefore n"
proof -
  let ?e = "rotation_epoch now s" and ?L = "rs_lifetime s" and ?b = "rotation_base now s"
  have L: "2 \<le> ?L" using assms(1) by (simp add: keys_ok_def)
  note f = rotate_frame [OF assms(1,2,4)]
  have ok: "keys_ok s'" using rotate_result [OF assms(1,2,4)] by blast
  obtain p0 c0 n0 where k: "rs_keys s' (?e - 1) = Some p0" "rs_keys s' ?e = Some c0" "rs_keys s' (?e + 1) = Some n0"
    "p = withStatus p0 KeyStatusPassive" "c = withStatus c0 KeyStatusActive" "n = withStatus n0 KeyStatusPassive"
    using rotate_keys [OF assms(1,2,4)] by auto
  have start: "epoch_start s' d = ?b + d * ?L" if "d \<in> window ?e" for d
    using in_range_starts(1) [OF L assms(3) that] f by (simp add: epoch_start_def)
  have two: "int64 (2 * ?L) = 2 * ?L" using in_range_starts(2) [OF L assms(3), of ?e] by (simp add: window_def)
  have valid: "cand_NotBefore (withStatus k st) = ?b + d * ?L
      \<and> cand_NotAfter (withStatus k st) = ?b + d * ?L + 2 * ?L
      \<and> ?b + d * ?L \<noteq> 0 \<and> ?b + d * ?L + 2 * ?L \<noteq> 0
      \<and> cand_Source (withStatus k st) = rs_id s \<and> cand_Restrictions (withStatus k st) = []
      \<and> cand_Priority (withStatus k st) = 0 \<and> cand_ID (withStatus k st) = rs_id s @ ''-'' @ decimal d
      \<and> cand_Status (withStatus k st) = st"
    if "rs_keys s' d = Some k" "d \<in> window ?e" for d k st
    using ok that start [OF that(2)] two f(1,2) in_range_starts(3,4) [OF L assms(3) that(2)]
    unfolding keys_ok_def epoch_candidate_def by (simp add: withStatus_def)
  have w: "?e - 1 \<in> window ?e" "?e \<in> window ?e" "?e + 1 \<in> window ?e" by (simp_all add: window_def)
  note v = valid [OF k(1) w(1)] valid [OF k(2) w(2)] valid [OF k(3) w(3)]
  show "cand_NotBefore p = ?b + (?e - 1) * ?L" "cand_NotBefore c = ?b + ?e * ?L"
    "cand_NotBefore n = ?b + (?e + 1) * ?L" "cand_ID p = rs_id s @ ''-'' @ decimal (?e - 1)"
    "cand_ID c = rs_id s @ ''-'' @ decimal ?e" "cand_ID n = rs_id s @ ''-'' @ decimal (?e + 1)"
    "cand_Status p = KeyStatusPassive" "cand_Status c = KeyStatusActive" "cand_Status n = KeyStatusPassive"
    using v k(4-6) by simp_all
  show "cand_NotAfter k = cand_NotBefore k + 2 * ?L" "cand_NotBefore k \<noteq> 0 \<and> cand_NotAfter k \<noteq> 0"
    "cand_Source k = rs_id s \<and> cand_Restrictions k = [] \<and> cand_Priority k = 0" if "k \<in> {p, c, n}"
    using that v k(4-6) by auto
  have "watch_deadline s' = epoch_start s' (?e + 1)"
    using rotation_epoch_bound [OF L, of now] f(2,9) by (simp add: watch_deadline_def epoch_start_def)
  then show "watch_deadline s' = cand_NotBefore n" using start [OF w(3)] v k(6) by simp
qed

text \<open>C30: When the source rotates, its active key is valid and in the first lifetime of its validity, which
  is two lifetimes long; the previous key is still valid, its validity ending with the current epoch; the
  next key is not yet valid, its validity starting with the next epoch, which is also when the watcher
  wakes up.\<close>

theorem random_validity:
  assumes "keys_ok s" "now \<noteq> 0" "in_range now s"
    and "rotateLocked gens draw now s = (s', Ok [p, c, n])"
  shows "cand_NotBefore c \<le> now \<and> now < cand_NotBefore c + rs_lifetime s
     \<and> cand_NotAfter c = cand_NotBefore c + 2 * rs_lifetime s
     \<and> cand_NotBefore p = cand_NotBefore c - rs_lifetime s \<and> cand_NotAfter p = cand_NotBefore n
     \<and> cand_NotBefore n = cand_NotBefore c + rs_lifetime s \<and> cand_NotAfter n = cand_NotAfter c + rs_lifetime s
     \<and> watch_deadline s' = cand_NotBefore n"
  using rotate_valid [OF assms] in_range_epoch [OF _ assms(3)] assms(1)
  by (simp add: keys_ok_def algebra_simps)

theorem random_validity_witness:
  "\<exists>s' p c n. rotateLocked sample_generators sample_draw 105 sample_random = (s', Ok [p, c, n])
     \<and> cand_NotBefore c \<le> 105 \<and> 105 < cand_NotBefore n \<and> cand_NotAfter p = cand_NotBefore n"
proof -
  obtain s' p c n where run: "rotateLocked sample_generators sample_draw 105 sample_random = (s', Ok [p, c, n])"
    using sample_rotates [OF sample_keys_ok, of 105] sample_epoch by auto
  from random_validity [OF sample_keys_ok _ _ run] sample_epoch run show ?thesis by auto
qed

text \<open>What the store makes of the three candidates.\<close>

lemma buildCandidates_three:
  assumes "buildCandidates env [p, c, n] = Ok ks"
  shows "\<exists>bp bc bn. ks = [key_New (env_parse env) p (Some bp), key_New (env_parse env) c (Some bc),
                     key_New (env_parse env) n (Some bn)]"
  using assms by (auto simp: buildCandidates_def)

text \<open>Only keys that the selector admits matter for a selection.\<close>

lemma selectKey_among:
  assumes "filter P (ks_keys (repository m)) = ks" "\<And>k. Matches selector k \<Longrightarrow> P k"
  shows "selectKey (Some m) now ctx operation selector [a] = Ok (k, a) \<longleftrightarrow>
     ctx 0 = None
     \<and> filter (\<lambda>k'. eligible selector now operation a k' \<and> key_priority k \<le> key_priority k') ks = [k]"
proof -
  have "filter (\<lambda>k'. eligible selector now operation a k' \<and> key_priority k \<le> key_priority k') ks
      = filter (\<lambda>k'. P k' \<and> eligible selector now operation a k' \<and> key_priority k \<le> key_priority k')
          (ks_keys (repository m))"
    by (simp add: assms(1) [symmetric] conj_commute)
  also have "\<dots> = filter (\<lambda>k'. eligible selector now operation a k' \<and> key_priority k \<le> key_priority k')
          (ks_keys (repository m))"
    using assms(2) by (intro filter_cong) (auto simp: eligible_def)
  finally show ?thesis unfolding selectKey_Ok_iff by (auto simp: Cons_eq_append_conv)
qed

text \<open>C31: In a store that holds the keys of a rotation, an operation that signs uses the active key, as long as
  its epoch lasts, and nothing else; a verification that names a key by its identifier finds the active
  or the previous key, and never the key of the next epoch.\<close>

theorem random_source_in_store:
  assumes "keys_ok s" "now \<noteq> 0" "in_range now s"
    and "rotateLocked gens draw now s = (s', Ok [p, c, n])"
    and "buildCandidates env [p, c, n] = Ok [kp, kc, kn]"
    and "filter (\<lambda>k. key_source k = rs_id s) (ks_keys (repository m)) = [kp, kc, kn]"
    and "cand_NotBefore c \<le> at" "at < cand_NotBefore n"
  shows "(selectKey (Some m) at ctx KeyOpSign (Select [Some (WithSource (rs_id s))]) [a] = Ok (k, a) \<longleftrightarrow>
        ctx 0 = None \<and> k = kc
        \<and> (\<exists>b. key_backend kc = Some b \<and> backend_Supports b KeyUseSigning KeyOpSign a))
     \<and> (\<forall>k'\<in>{kp, kc, kn}.
          selectKey (Some m) at ctx KeyOpVerify
            (Select [Some (WithSource (rs_id s)), Some (WithID (key_id k'))]) [a] = Ok (k, a) \<longleftrightarrow>
          ctx 0 = None \<and> k = k' \<and> k' \<noteq> kn
          \<and> (\<exists>b. key_backend k' = Some b \<and> backend_Supports b KeyUseSigning KeyOpVerify a))"
proof -
  let ?e = "rotation_epoch now s"
  have L: "2 \<le> rs_lifetime s" using assms(1) by (simp add: keys_ok_def)
  note v = rotate_valid [OF assms(1-4)]
  obtain bp bc bn where ks: "kp = key_New (env_parse env) p (Some bp)" "kc = key_New (env_parse env) c (Some bc)"
      "kn = key_New (env_parse env) n (Some bn)"
    using buildCandidates_three [OF assms(5)] by auto
  have ids: "key_id kp \<noteq> key_id kc" "key_id kc \<noteq> key_id kn" "key_id kp \<noteq> key_id kn"
    unfolding ks key_New_simps v(7-9) by (simp_all add: decimal_inject)
  have p: "cand_NotBefore p \<le> at" "at \<le> cand_NotAfter p" "at \<le> cand_NotAfter c"
    using assms(7,8) v(1-4) L by (simp_all add: algebra_simps)
  have el: "eligible selector at operation a kp \<longleftrightarrow> Matches selector kp
        \<and> operation \<notin> {KeyOpSign, KeyOpEncrypt} \<and> backend_Supports bp (operation_use operation) operation a"
      "eligible selector at operation a kc \<longleftrightarrow> Matches selector kc
        \<and> backend_Supports bc (operation_use operation) operation a"
      "\<not> eligible selector at operation a kn" for selector operation
    using v(5,6,10-12) p assms(7,8) by (auto simp: eligible_def ks status_defs)
  have use: "operation_use KeyOpSign = KeyUseSigning" "operation_use KeyOpVerify = KeyUseSigning"
    by (simp_all add: operation_use_def op_defs)
  have pr: "key_priority kp = 0" "key_priority kc = 0" "key_priority kn = 0"
    "key_source kp = rs_id s" "key_source kc = rs_id s" "key_source kn = rs_id s"
    using v(6) by (simp_all add: ks)
  let ?sign = "Select [Some (WithSource (rs_id s))]"
  let ?verify = "\<lambda>kid. Select [Some (WithSource (rs_id s)), Some (WithID kid)]"
  have m: "Matches ?sign x \<longleftrightarrow> key_source x = rs_id s"
    "Matches (?verify kid) x \<longleftrightarrow> key_source x = rs_id s \<and> key_id x = kid" for kid x
    by (simp_all add: select_simps List.map_filter_simps)
  have d: "kp \<noteq> kn" "kc \<noteq> kn" using ids by auto
  have kb: "key_backend kp = Some bp" "key_backend kc = Some bc" by (simp_all add: ks)
  have ops: "KeyOpSign \<in> {KeyOpSign, KeyOpEncrypt}" "KeyOpVerify \<notin> {KeyOpSign, KeyOpEncrypt}"
    by (simp_all add: op_defs)
  have signs: "eligible ?sign at KeyOpSign a kp \<longleftrightarrow> False" "eligible ?sign at KeyOpSign a kn \<longleftrightarrow> False"
    "eligible ?sign at KeyOpSign a kc \<longleftrightarrow> backend_Supports bc KeyUseSigning KeyOpSign a"
    using ops pr el(3) unfolding el(1,2) m use by auto
  have sign: "selectKey (Some m) at ctx KeyOpSign ?sign [a] = Ok (k, a) \<longleftrightarrow>
        ctx 0 = None \<and> k = kc \<and> backend_Supports bc KeyUseSigning KeyOpSign a"
    by (subst selectKey_among [OF assms(6)], simp only: m) (auto simp: signs pr)
  have verifies: "eligible (?verify kid) at KeyOpVerify a kn \<longleftrightarrow> False"
    "eligible (?verify kid) at KeyOpVerify a kp \<longleftrightarrow>
       kid = key_id kp \<and> backend_Supports bp KeyUseSigning KeyOpVerify a"
    "eligible (?verify kid) at KeyOpVerify a kc \<longleftrightarrow>
       kid = key_id kc \<and> backend_Supports bc KeyUseSigning KeyOpVerify a" for kid
    using ops pr el(3) unfolding el(1,2) m use by auto
  have verify: "selectKey (Some m) at ctx KeyOpVerify (?verify kid) [a] = Ok (k, a) \<longleftrightarrow>
        ctx 0 = None \<and> ((k = kp \<and> kid = key_id kp \<and> backend_Supports bp KeyUseSigning KeyOpVerify a)
          \<or> (k = kc \<and> kid = key_id kc \<and> backend_Supports bc KeyUseSigning KeyOpVerify a))" for kid
    using ids by (subst selectKey_among [OF assms(6)], simp only: m) (auto simp: verifies pr)
  show ?thesis unfolding sign verify using ids d kb by auto
qed

theorem random_source_in_store_witness:
  "\<exists>k. selectKey (Some (sample_store
         [key_New sample_parser (sample_epoch_key e st) (Some (symmetricBackend (sample_primitives False) (replicate 32 7))).
            (e, st) \<leftarrow> [(- 1, KeyStatusPassive), (0, KeyStatusActive), (1, KeyStatusPassive)]]))
       103 background KeyOpSign (Select [Some (WithSource ''r'')]) [HS256] = Ok (k, HS256)
     \<and> key_id k = ''r-0''"
proof -
  let ?env = "sample_env True"
  let ?k = "\<lambda>e st. key_New sample_parser (sample_epoch_key e st)
    (Some (symmetricBackend (sample_primitives False) (replicate 32 7)))"
  let ?ks = "[?k (- 1) KeyStatusPassive, ?k 0 KeyStatusActive, ?k 1 KeyStatusPassive]"
  obtain s' where run: "rotateLocked sample_generators sample_draw 100 sample_random =
     (s', Ok [sample_epoch_key (- 1) KeyStatusPassive, sample_epoch_key 0 KeyStatusActive,
              sample_epoch_key 1 KeyStatusPassive])"
    using sample_first_rotation by blast
  have b: "BackendFor (builtin_registry (sample_primitives False) sample_parser)
      (Some (SymmetricMaterial (Some (replicate 32 7)))) = Ok (symmetricBackend (sample_primitives False) (replicate 32 7))"
    unfolding BackendFor_any_order [OF builtin_factories]
    by (simp add: sym_factory_Supports_def sym_factory_New_def)
  have build: "buildCandidates ?env [sample_epoch_key (- 1) KeyStatusPassive, sample_epoch_key 0 KeyStatusActive,
      sample_epoch_key 1 KeyStatusPassive] = Ok ?ks"
    by (simp add: buildCandidates_def sample_env_def sample_epoch_key_def b)
  have own: "filter (\<lambda>k. key_source k = rs_id sample_random) (ks_keys (repository (sample_store ?ks))) = ?ks"
    by (simp add: sample_epoch sample_epoch_key_def)
  have at: "cand_NotBefore (sample_epoch_key 0 KeyStatusActive) \<le> 103"
    "103 < cand_NotBefore (sample_epoch_key 1 KeyStatusPassive)"
    by (simp_all add: sample_epoch_key_def)
  have sup: "backend_Supports (symmetricBackend (sample_primitives False) (replicate 32 7)) KeyUseSigning KeyOpSign HS256"
    by (simp add: symmetricBackend_def sym_supports_iff op_defs use_defs)
  have "key_id (?k 0 KeyStatusActive) = ''r-0''"
  proof -
    have "decimal 0 = ''0''" by code_simp
    then show ?thesis by (simp add: sample_epoch_key_def)
  qed
  moreover have "selectKey (Some (sample_store ?ks)) 103 background KeyOpSign
      (Select [Some (WithSource ''r'')]) [HS256] = Ok (?k 0 KeyStatusActive, HS256)"
    using random_source_in_store [OF sample_keys_ok _ sample_epoch(4) run build own at,
        of background HS256 "?k 0 KeyStatusActive"] sup
    by (simp add: sample_epoch)
  ultimately show ?thesis by auto
qed

section \<open>The source as the store's contract asks\<close>

text \<open>The state a source can be in: the invariant of its keys, and a cancelled context exactly when closed.\<close>

definition source_ok :: "random_source \<Rightarrow> bool" where
  "source_ok s \<longleftrightarrow> keys_ok s \<and> (rs_closed s \<longleftrightarrow> rs_cancelled s) \<and> (rs_started s \<longrightarrow> rs_base s \<noteq> 0)"

lemma keys_ok_startLocked [simp]: "keys_ok (startLocked s) = keys_ok s"
  by (simp add: keys_ok_def epoch_candidate_def epoch_start_def)

lemma source_ok_startLocked: "source_ok s \<Longrightarrow> source_ok (startLocked s)"
  by (simp add: source_ok_def) (simp add: startLocked_def IsZero_def)

lemma source_ok_rotate:
  assumes "source_ok s" "now \<noteq> 0" "rotateLocked gens draw now s = (s', r)"
  shows "source_ok s'"
proof -
  have ok: "keys_ok s" using assms(1) by (simp add: source_ok_def)
  show ?thesis
    using rotate_result [OF ok assms(2,3)] rotate_frame [OF ok assms(2,3)] assms(1)
      rotation_base_nonzero [OF assms(2)]
    by (simp add: source_ok_def)
qed

text \<open>A list of keys as the source hands it out: labelled, with one active key between two passive ones.\<close>

definition handed_ok :: "string \<Rightarrow> KeyCandidate list \<Rightarrow> bool" where
  "handed_ok sid cs \<longleftrightarrow> (\<forall>c\<in>set cs. cand_Source c = sid)
     \<and> map cand_Status cs = [KeyStatusPassive, KeyStatusActive, KeyStatusPassive]"

lemma rotate_handed:
  assumes "keys_ok s" "now \<noteq> 0" "rotateLocked gens draw now s = (s', Ok cs)"
  shows "handed_ok (rs_id s) cs"
proof -
  obtain p c n where k: "rs_keys s' (rotation_epoch now s - 1) = Some p" "rs_keys s' (rotation_epoch now s) = Some c"
    "rs_keys s' (rotation_epoch now s + 1) = Some n"
    "cs = [withStatus p KeyStatusPassive, withStatus c KeyStatusActive, withStatus n KeyStatusPassive]"
    using rotate_keys [OF assms] by blast
  have "\<forall>e k. rs_keys s' e = Some k \<longrightarrow> cand_Source k = rs_id s"
    using rotate_result [OF assms] rotate_frame [OF assms] by (auto simp: keys_ok_def epoch_candidate_def)
  then show ?thesis using k by (auto simp: handed_ok_def withStatus_def)
qed

lemma random_Load_cases:
  assumes "random_Load gens draw now context s = (s', r)"
  shows "(s' = s \<and> (\<exists>e. r = Err e))
     \<or> (\<exists>s1 r1. \<not> rs_closed s \<and> rotateLocked gens draw now s = (s1, r1)
          \<and> (s' = s1 \<and> (\<exists>e. r = Err e) \<or> s' = s1 \<and> (\<exists>p. r = Panic p \<and> r1 = Panic p)
             \<or> (\<exists>cs. r1 = Ok cs \<and> r = Ok cs \<and> s' = startLocked s1)))"
  using assms
  by (auto simp: random_Load_def split: option.splits if_splits prod.splits res.splits)

lemma random_Load_ok:
  assumes "source_ok s" "now \<noteq> 0" "random_Load gens draw now context s = (s', r)"
  shows "source_ok s' \<and> (\<forall>p. r \<noteq> Panic p) \<and> rs_id s' = rs_id s
     \<and> (\<forall>cs. r = Ok cs \<longrightarrow> handed_ok (rs_id s) cs)"
proof -
  have ok: "keys_ok s" using assms(1) by (simp add: source_ok_def)
  from random_Load_cases [OF assms(3)] show ?thesis
  proof (elim disjE exE conjE)
    fix e
    assume "s' = s" "r = Err e"
    then show ?thesis using assms(1) by simp
  next
    fix s1 r1
    assume run: "rotateLocked gens draw now s = (s1, r1)"
    note res = rotate_result [OF ok assms(2) run] and frame = rotate_frame [OF ok assms(2) run]
    note ok1 = source_ok_rotate [OF assms(1,2) run]
    { fix e assume "s' = s1" "r = Err e"
      then show ?thesis using ok1 frame by simp }
    { fix p assume "r1 = Panic p"
      then show ?thesis using res by blast }
    fix cs
    assume cs: "r1 = Ok cs" "r = Ok cs" "s' = startLocked s1"
    have "handed_ok (rs_id s) cs" using rotate_handed [OF ok assms(2)] run cs(1) by blast
    then show ?thesis using cs ok1 frame source_ok_startLocked by auto
  qed
qed

text \<open>What one call of \<^verbatim>\<open>Load\<close> is given: the generators, its randomness, the clock and the context.\<close>

record load_input =
  in_gens :: generators
  in_draw :: "int \<Rightarrow> entropy"
  in_now :: time
  in_context :: "ctxt option"

definition random_load :: "load_input \<Rightarrow> random_source \<Rightarrow> random_source \<times> KeyCandidate list res" where
  "random_load x = random_Load (in_gens x) (in_draw x) (in_now x) (in_context x)"

lemma random_Load_closed: "rs_closed s \<Longrightarrow> \<exists>e. random_Load gens draw now context s = (s, Err e)"
  by (auto simp: random_Load_def split: option.split)

lemma random_Close_simps [simp]:
  "rs_id (fst (random_Close s)) = rs_id s" "rs_closed (fst (random_Close s))"
  "rs_started (fst (random_Close s)) = rs_started s" "rs_keys (fst (random_Close s)) = rs_keys s"
  "rs_base (fst (random_Close s)) = rs_base s" "snd (random_Close s) = None"
  by (simp_all add: random_Close_def)

lemma source_ok_Close: "source_ok s \<Longrightarrow> source_ok (fst (random_Close s))"
  by (auto simp: source_ok_def random_Close_def keys_ok_def epoch_candidate_def epoch_start_def)

interpretation rs: candidate_source rs_id random_load random_Close rs_closed source_ok "\<lambda>x. in_now x \<noteq> 0"
proof
  fix s :: random_source and x :: load_input and cs c
  assume ok: "source_ok s" and now: "in_now x \<noteq> 0"
  note res = random_Load_ok [OF ok now, of "in_gens x" "in_draw x" "in_context x" "fst (random_load x s)"
      "snd (random_load x s)"]
  show "rs_id (fst (random_load x s)) = rs_id s" "source_ok (fst (random_load x s))"
    using res by (simp_all add: random_load_def)
  show "cand_Source c = rs_id s" if "snd (random_load x s) = Ok cs" "c \<in> set cs"
    using res that by (auto simp: random_load_def handed_ok_def)
next
  fix s :: random_source and x :: load_input
  assume "rs_closed s"
  then show "fst (random_load x s) = s \<and> (\<exists>e. snd (random_load x s) = Err e)"
    using random_Load_closed [of s "in_gens x" "in_draw x" "in_now x" "in_context x"] by (auto simp: random_load_def)
  show "random_Close s = (s, None)" using \<open>rs_closed s\<close> by (simp add: random_Close_def)
qed (simp_all add: source_ok_Close)

section \<open>The source with its watcher\<close>

text \<open>
  The goroutine \<^verbatim>\<open>watch\<close>: about to read the next deadline, waiting in the select with a timer for it, or
  calling the callback with the keys of a rotation. The system also has the clock, and records what the
  callbacks were given.
\<close>

datatype watch_pc = Top | Armed time | Delivering string "KeyCandidate list"

record random_system =
  ry_source :: random_source
  ry_watchers :: "watch_pc list"
  ry_now :: time
  ry_delivered :: "(string \<times> KeyCandidate list) list"

text \<open>The goroutines a critical section has started: one for every \<^verbatim>\<open>go s.watch()\<close> it executed.\<close>

definition spawned :: "random_source \<Rightarrow> random_source \<Rightarrow> watch_pc list" where
  "spawned s s' = replicate (rs_watches s' - rs_watches s) Top"

text \<open>Where \<^verbatim>\<open>watch\<close> goes after a rotation.\<close>

fun after_rotation :: "(string \<times> KeyCandidate list) option \<Rightarrow> watch_pc" where
  "after_rotation None = Top"
| "after_rotation (Some (callback, keys)) = Delivering callback keys"

inductive random_step :: "generators \<Rightarrow> random_system \<Rightarrow> random_system \<Rightarrow> bool" for gens where
  clock: "ry_now S \<le> t \<Longrightarrow> random_step gens S (S\<lparr>ry_now := t\<rparr>)"
| load: "random_Load gens draw (ry_now S) context (ry_source S) = (s', r) \<Longrightarrow>
     random_step gens S (S\<lparr>ry_source := s', ry_watchers := ry_watchers S @ spawned (ry_source S) s'\<rparr>)"
| callback_set: "s' = set_callback callback (ry_source S) \<Longrightarrow>
     random_step gens S (S\<lparr>ry_source := s', ry_watchers := ry_watchers S @ spawned (ry_source S) s'\<rparr>)"
| signal: "random_step gens S (S\<lparr>ry_source := wake (ry_source S)\<rparr>)"
| close: "random_step gens S (S\<lparr>ry_source := fst (random_Close (ry_source S))\<rparr>)"
| watch_top: "ry_watchers S = xs @ Top # ys \<Longrightarrow>
     random_step gens S (S\<lparr>ry_watchers := xs @ Armed (watch_deadline (ry_source S)) # ys\<rparr>)"
| watch_exit: "ry_watchers S = xs @ Armed d # ys \<Longrightarrow> rs_cancelled (ry_source S) \<Longrightarrow>
     random_step gens S (S\<lparr>ry_watchers := xs @ ys\<rparr>)"
| watch_woken: "ry_watchers S = xs @ Armed d # ys \<Longrightarrow> rs_wake (ry_source S) \<Longrightarrow>
     random_step gens S (S\<lparr>ry_source := (ry_source S)\<lparr>rs_wake := False\<rparr>, ry_watchers := xs @ Top # ys\<rparr>)"
| watch_timer: "ry_watchers S = xs @ Armed d # ys \<Longrightarrow> d \<le> ry_now S \<Longrightarrow>
     watch_rotate gens draw (ry_now S) (ry_source S) = (s', Ok out) \<Longrightarrow>
     random_step gens S (S\<lparr>ry_source := s', ry_watchers := xs @ after_rotation out # ys\<rparr>)"
| watch_deliver: "ry_watchers S = xs @ Delivering callback keys # ys \<Longrightarrow>
     random_step gens S (S\<lparr>ry_watchers := xs @ Top # ys, ry_delivered := (callback, keys) # ry_delivered S\<rparr>)"

definition random_initial :: "string \<Rightarrow> KeyType \<Rightarrow> duration \<Rightarrow> time \<Rightarrow> random_system \<Rightarrow> bool" where
  "random_initial sid t lifetime now S \<longleftrightarrow>
     random_New sid t lifetime = Ok (ry_source S) \<and> ry_watchers S = [] \<and> ry_now S = now \<and> ry_delivered S = []"

fun watch_pc_ok :: "string \<Rightarrow> watch_pc \<Rightarrow> bool" where
  "watch_pc_ok sid (Delivering callback keys) = handed_ok sid keys"
| "watch_pc_ok sid pc = True"

definition random_inv :: "string \<Rightarrow> random_system \<Rightarrow> bool" where
  "random_inv sid S \<longleftrightarrow>
     source_ok (ry_source S) \<and> rs_id (ry_source S) = sid \<and> 0 < ry_now S
     \<and> length (ry_watchers S) \<le> 1 \<and> (ry_watchers S \<noteq> [] \<longrightarrow> rs_started (ry_source S))
     \<and> (\<forall>pc\<in>set (ry_watchers S). watch_pc_ok sid pc)
     \<and> (\<forall>d\<in>set (ry_delivered S). handed_ok sid (snd d))"

text \<open>A critical section starts the watcher only when it sets the flag \<^verbatim>\<open>started\<close>, which none resets.\<close>

definition starts_once :: "random_source \<Rightarrow> random_source \<Rightarrow> bool" where
  "starts_once s s' \<longleftrightarrow> (rs_started s \<longrightarrow> rs_started s')
     \<and> rs_watches s' = rs_watches s + (if rs_started s' \<and> \<not> rs_started s then 1 else 0)"

lemma startLocked_once: "starts_once s (startLocked s)"
  by (simp add: startLocked_def starts_once_def)

lemma starts_once_frame:
  "rs_started s1 = rs_started s \<Longrightarrow> rs_watches s1 = rs_watches s \<Longrightarrow> starts_once s1 s' \<Longrightarrow> starts_once s s'"
  by (simp add: starts_once_def)

lemma random_Load_once:
  assumes "source_ok s" "now \<noteq> 0" "random_Load gens draw now context s = (s', r)"
  shows "starts_once s s'"
proof -
  have ok: "keys_ok s" using assms(1) by (simp add: source_ok_def)
  have unchanged: "starts_once t t" for t by (simp add: starts_once_def)
  from random_Load_cases [OF assms(3)] consider "s' = s"
    | s1 r1 where "rotateLocked gens draw now s = (s1, r1)" "s' = s1 \<or> s' = startLocked s1" by blast
  then show ?thesis
  proof cases
    case 2
    then show ?thesis
      using starts_once_frame [OF rotate_frame(5,11) [OF ok assms(2) 2(1)]] unchanged startLocked_once by blast
  qed (simp add: unchanged)
qed

lemma source_ok_fields:
  "source_ok (s\<lparr>rs_wake := b\<rparr>) = source_ok s" "source_ok (s\<lparr>rs_callback := cb\<rparr>) = source_ok s"
  by (simp_all add: source_ok_def keys_ok_def epoch_candidate_def epoch_start_def)

lemma watch_rotate_ok:
  assumes "source_ok s" "now \<noteq> 0" "watch_rotate gens draw now s = (s', Ok out)"
  shows "source_ok s' \<and> rs_id s' = rs_id s \<and> rs_started s' = rs_started s \<and> watch_pc_ok (rs_id s) (after_rotation out)"
proof -
  have ok: "keys_ok s" using assms(1) by (simp add: source_ok_def)
  obtain s1 r1 where run: "rotateLocked gens draw now s = (s1, r1)" by fastforce
  note frame = rotate_frame [OF ok assms(2) run] and ok1 = source_ok_rotate [OF assms(1,2) run]
  have "handed_ok (rs_id s) cs" if "r1 = Ok cs" for cs
    using rotate_handed [OF ok assms(2)] run that by blast
  then show ?thesis
    using assms(3) ok1 frame by (cases r1; cases "rs_callback s1") (auto simp: watch_rotate_def run)
qed

lemma fill_epochs_closed: "rs_closed (fst (fill_epochs gens draw es s)) = rs_closed s"
  by (induction gens draw es s rule: fill_epochs.induct) (auto simp: fill_epochs.simps split: option.split res.split)

lemma rotateLocked_closed: "rotateLocked gens draw now s = (s', r) \<Longrightarrow> rs_closed s' = rs_closed s"
proof -
  assume run: "rotateLocked gens draw now s = (s', r)"
  have "rs_closed (drop_epochs x) = rs_closed x" "rs_closed (rotate_epoch now s) = rs_closed s" for x
    by (simp_all add: drop_epochs_def rotate_epoch_def)
  then show ?thesis
    using run fill_epochs_closed
    by (auto simp: rotateLocked_def Let_def split: if_splits prod.splits res.splits) (metis fst_conv)+
qed

lemma spawned_watchers:
  assumes "length ws \<le> 1" "ws \<noteq> [] \<longrightarrow> rs_started s" "starts_once s s'"
  shows "length (ws @ spawned s s') \<le> 1 \<and> (ws @ spawned s s' \<noteq> [] \<longrightarrow> rs_started s')
     \<and> set (spawned s s') \<subseteq> {Top}"
  using assms by (cases ws) (auto simp: spawned_def starts_once_def)

lemma random_step_inv:
  assumes "random_step gens S S'" "random_inv sid S"
  shows "random_inv sid S'"
  using assms
proof (induction rule: random_step.induct)
  case (load draw S ctx s' r)
  then have ok: "source_ok (ry_source S)" "ry_now S \<noteq> 0" by (simp_all add: random_inv_def)
  show ?case
    using load.prems random_Load_ok [OF ok load.hyps]
      spawned_watchers [OF _ _ random_Load_once [OF ok load.hyps], of "ry_watchers S"]
    by (auto simp: random_inv_def)
next
  case (callback_set s' callback S)
  let ?s = "(ry_source S)\<lparr>rs_callback := callback\<rparr>"
  have ok: "source_ok ?s" using callback_set.prems by (simp add: random_inv_def source_ok_fields)
  have s': "s' = startLocked ?s" using callback_set.hyps by (simp add: set_callback_def)
  have once: "starts_once (ry_source S) s'" using startLocked_once [of ?s] by (simp add: s' starts_once_def)
  show ?case
    using callback_set.prems source_ok_startLocked [OF ok]
      spawned_watchers [OF _ _ once, of "ry_watchers S"]
    by (auto simp: random_inv_def s')
next
  case (watch_timer S xs d ys draw s' out)
  then have ok: "source_ok (ry_source S)" "ry_now S \<noteq> 0" by (simp_all add: random_inv_def)
  show ?case
    using watch_timer watch_rotate_ok [OF ok watch_timer.hyps(3)] by (auto simp: random_inv_def)
qed (auto simp: random_inv_def wake_def source_ok_fields source_ok_Close)

lemma random_initial_inv:
  "random_initial sid t lifetime now S \<Longrightarrow> 2 \<le> lifetime \<Longrightarrow> 0 < now \<Longrightarrow> random_inv sid S"
  by (cases "ry_source S")
    (auto simp: random_initial_def random_New_def random_inv_def source_ok_def keys_ok_def split: if_splits)

lemma random_reachable_inv:
  assumes "(random_step gens)\<^sup>*\<^sup>* S S'" "random_inv sid S"
  shows "random_inv sid S'"
  using assms by (induction rule: rtranclp_induct) (auto intro: random_step_inv)

text \<open>Closing: no step reopens the source or starts a watcher, and one that waits can leave.\<close>

lemma random_step_closed:
  assumes "random_step gens S S'" "rs_closed (ry_source S)"
  shows "rs_closed (ry_source S') \<and> length (ry_watchers S') \<le> length (ry_watchers S)
     \<and> (ry_watchers S = [] \<longrightarrow> ry_delivered S' = ry_delivered S \<and> rs_keys (ry_source S') = rs_keys (ry_source S))"
  using assms
proof (induction rule: random_step.induct)
  case (load draw S ctx s' r)
  then obtain e where "random_Load gens draw (ry_now S) ctx (ry_source S) = (ry_source S, Err e)"
    using random_Load_closed by blast
  then show ?case using load by (simp add: spawned_def)
next
  case (callback_set s' callback S)
  then show ?case by (simp add: set_callback_def startLocked_def spawned_def)
next
  case (watch_timer S xs d ys draw s' out)
  have "rs_closed s'" using watch_timer.hyps(3) watch_timer.prems
    by (auto simp: watch_rotate_def rotateLocked_closed split: prod.splits res.splits)
  then show ?case using watch_timer by simp
qed (auto simp: wake_def random_Close_def)

lemma random_exit:
  assumes "random_inv sid S" "rs_closed (ry_source S)"
  shows "\<exists>S'. (random_step gens)\<^sup>*\<^sup>* S S' \<and> ry_watchers S' = []"
proof -
  have leave: "\<exists>S'. (random_step gens)\<^sup>*\<^sup>* S S' \<and> ry_watchers S' = []"
    if "ry_watchers S = [Armed d]" "rs_cancelled (ry_source S)" for S :: random_system and d
  proof -
    have "random_step gens S (S\<lparr>ry_watchers := []\<rparr>)"
      using random_step.watch_exit [of S "[]" d "[]" gens] that by simp
    then show ?thesis by (intro exI [of _ "S\<lparr>ry_watchers := []\<rparr>"]) auto
  qed
  have top: "\<exists>S'. (random_step gens)\<^sup>*\<^sup>* S S' \<and> ry_watchers S' = []"
    if w: "ry_watchers S = [Top]" and c: "rs_cancelled (ry_source S)" for S :: random_system
  proof -
    let ?S = "S\<lparr>ry_watchers := [Armed (watch_deadline (ry_source S))]\<rparr>"
    have "random_step gens S ?S" using random_step.watch_top [of S "[]" "[]" gens] w by simp
    moreover obtain S' where "(random_step gens)\<^sup>*\<^sup>* ?S S'" "ry_watchers S' = []" using leave [of ?S] c by auto
    ultimately show ?thesis by (blast intro: converse_rtranclp_into_rtranclp)
  qed
  have c: "rs_cancelled (ry_source S)" using assms by (simp add: random_inv_def source_ok_def)
  show ?thesis
  proof (cases "ry_watchers S")
    case Nil
    then show ?thesis by blast
  next
    case (Cons pc rest)
    then have w: "ry_watchers S = [pc]" using assms(1) by (cases rest) (simp_all add: random_inv_def)
    show ?thesis
    proof (cases pc)
      case Top
      then show ?thesis using top w c by blast
    next
      case (Armed d)
      then show ?thesis using leave w c by blast
    next
      case (Delivering callback keys)
      let ?S = "S\<lparr>ry_watchers := [Top], ry_delivered := (callback, keys) # ry_delivered S\<rparr>"
      have "random_step gens S ?S" using random_step.watch_deliver [of S "[]" callback keys "[]" gens] w Delivering by simp
      moreover obtain S' where "(random_step gens)\<^sup>*\<^sup>* ?S S'" "ry_watchers S' = []" using top [of ?S] c by auto
      ultimately show ?thesis by (blast intro: converse_rtranclp_into_rtranclp)
    qed
  qed
qed

definition sample_random_system :: random_system where
  "sample_random_system = \<lparr>ry_source = sample_random, ry_watchers = [], ry_now = 100, ry_delivered = []\<rparr>"

lemma sample_random_initial: "random_initial ''r'' HMAC256 10 100 sample_random_system"
  by (simp add: random_initial_def sample_random_system_def sample_random_New)

section \<open>Properties of the source and its watcher\<close>

text \<open>The source keeps the contract that the store relies on. Its candidates are labelled with its
  identifier, so a reload replaces exactly its own keys; and after it has been closed every later
  \<^verbatim>\<open>Load\<close> returns an error, whatever came in between.\<close>

theorem random_source_contract:
  assumes "source_ok s" "in_now x \<noteq> 0" "src_ID env i = rs_id s" "src_Load env i = snd (random_load x s)"
  shows "labelled env i
     \<and> (\<forall>keys m. load_keys env (rs_id s) (snd (random_load x s)) = Ok keys \<longrightarrow>
          (\<exists>repo. store_keys (rs_id s) keys m = (m\<lparr>repository := repo\<rparr>, Ok ())
             \<and> filter (\<lambda>k. key_source k = rs_id s) (ks_keys repo) = keys
             \<and> filter (\<lambda>k. key_source k \<noteq> rs_id s) (ks_keys repo)
                 = filter (\<lambda>k. key_source k \<noteq> rs_id s) (ks_keys (repository m))))
     \<and> (\<exists>e. snd (random_load y (fold (\<lambda>x s. fst (random_load x s)) xs (fst (random_Close s)))) = Err e)"
  using rs.good_labelled [OF assms] rs.reload_replaces [OF assms] rs.shut_stays by blast

theorem random_source_contract_witness:
  "labelled (sample_env True\<lparr>src_ID := (\<lambda>_. ''r''),
       src_Load := (\<lambda>_. snd (random_Load sample_generators sample_draw 100 (Some background) sample_random))\<rparr>) 0"
proof -
  let ?x = "\<lparr>in_gens = sample_generators, in_draw = sample_draw, in_now = 100, in_context = Some background\<rparr>"
  have "source_ok sample_random" by (simp add: source_ok_def sample_keys_ok) (simp add: sample_random_def)
  then show ?thesis
    using random_source_contract [of sample_random ?x "sample_env True\<lparr>src_ID := (\<lambda>_. ''r''),
       src_Load := (\<lambda>_. snd (random_load ?x sample_random))\<rparr>" 0]
    by (simp add: sample_epoch random_load_def)
qed

text \<open>Whatever happens to a source (loads with any context, changes of its callback, closing, the passing
  of time), there is never more than one watcher, every key it holds is the key of its epoch, and what a
  callback or a \<^verbatim>\<open>Load\<close> is given are keys labelled with the source's identifier, the middle one active
  and the other two passive.\<close>

theorem random_watcher_invariant:
  assumes "random_initial sid t lifetime now S" "2 \<le> lifetime" "0 < now"
    and "(random_step gens)\<^sup>*\<^sup>* S S'"
  shows "length (ry_watchers S') \<le> 1 \<and> keys_ok (ry_source S') \<and> rs_id (ry_source S') = sid
     \<and> (\<forall>callback cs. (callback, cs) \<in> set (ry_delivered S') \<longrightarrow> handed_ok sid cs)
     \<and> (\<forall>draw ctx s' cs. random_Load gens draw (ry_now S') ctx (ry_source S') = (s', Ok cs)
          \<longrightarrow> handed_ok sid cs)"
proof -
  have inv: "random_inv sid S'" using random_reachable_inv [OF assms(4) random_initial_inv [OF assms(1-3)]] .
  then have ok: "source_ok (ry_source S')" "ry_now S' \<noteq> 0" "rs_id (ry_source S') = sid"
    by (simp_all add: random_inv_def)
  have "handed_ok sid cs"
    if "random_Load gens draw (ry_now S') ctx (ry_source S') = (s', Ok cs)" for draw ctx s' cs
    using random_Load_ok [OF ok(1,2) that] ok(3) by simp
  then show ?thesis using inv ok by (auto simp: random_inv_def source_ok_def)
qed

theorem random_watcher_invariant_witness:
  "\<exists>S'. (random_step sample_generators)\<^sup>*\<^sup>* sample_random_system S' \<and> rs_closed (ry_source S')
     \<and> length (ry_watchers S') \<le> 1 \<and> rs_id (ry_source S') = ''r''"
proof -
  let ?S = "sample_random_system\<lparr>ry_source := fst (random_Close sample_random)\<rparr>"
  have run: "(random_step sample_generators)\<^sup>*\<^sup>* sample_random_system ?S"
    using random_step.close [of sample_generators sample_random_system] by (simp add: sample_random_system_def)
  from random_watcher_invariant [OF sample_random_initial _ _ run]
  show ?thesis using run by (intro exI [of _ ?S]) auto
qed

text \<open>C32: Closing stops the source. No later step reopens it or starts another watcher, a watcher still running
  can reach its exit, and once it has gone no callback is called and no key changes any more.\<close>

theorem random_close_stops:
  assumes "random_initial sid t lifetime now S0" "2 \<le> lifetime" "0 < now"
    and "(random_step gens)\<^sup>*\<^sup>* S0 S" "rs_closed (ry_source S)"
  shows "(\<exists>S'. (random_step gens)\<^sup>*\<^sup>* S S' \<and> ry_watchers S' = [])
     \<and> (\<forall>S'. random_step gens S S' \<longrightarrow> rs_closed (ry_source S')
          \<and> length (ry_watchers S') \<le> length (ry_watchers S)
          \<and> (ry_watchers S = [] \<longrightarrow>
               ry_delivered S' = ry_delivered S \<and> rs_keys (ry_source S') = rs_keys (ry_source S)))"
  using random_exit [OF random_reachable_inv [OF assms(4) random_initial_inv [OF assms(1-3)]] assms(5)]
    random_step_closed [OF _ assms(5)] by blast

theorem random_close_stops_witness:
  "\<exists>S S'. rs_closed (ry_source S) \<and> (random_step sample_generators)\<^sup>*\<^sup>* sample_random_system S
     \<and> (random_step sample_generators)\<^sup>*\<^sup>* S S' \<and> ry_watchers S' = []"
proof -
  let ?S = "sample_random_system\<lparr>ry_source := fst (random_Close sample_random)\<rparr>"
  have run: "(random_step sample_generators)\<^sup>*\<^sup>* sample_random_system ?S"
    using random_step.close [of sample_generators sample_random_system] by (simp add: sample_random_system_def)
  have shut: "rs_closed (ry_source ?S)" by simp
  moreover obtain S' where "(random_step sample_generators)\<^sup>*\<^sup>* ?S S'" "ry_watchers S' = []"
    using random_close_stops [OF sample_random_initial _ _ run shut] by auto
  ultimately show ?thesis using run by blast
qed

end
