(* ===== verification/Polling_Source.thy ===== *)
theory Polling_Source
  imports Source_Contract
begin

text \<open>
  What the file source and the JWKS source have in common: both read something outside the program,
  compute a digest of what they read (the \<^verbatim>\<open>snapshot\<close>), and let a goroutine poll for a changed digest.
  The step relation below is parametric in the critical sections of the two packages; a locale states
  what it needs of them, and holds the invariants, which both packages get by interpretation.
\<close>

section \<open>Critical sections and steps\<close>

text \<open>
  The fields that both \<^verbatim>\<open>Source\<close> structs have. \<open>pl_cancelled\<close> is whether the context of the source's
  lifetime has been cancelled. \<open>pl_watches\<close> is not a field of the structs: it counts how many times the
  code has executed \<^verbatim>\<open>go watch()\<close>, so that starting a goroutine is an effect of the code that starts it,
  whatever the flag \<^verbatim>\<open>started\<close> says before and after.
\<close>

record poll_state =
  pl_id :: string
  pl_cancelled :: bool
  pl_callback :: "string option"
  pl_started :: bool
  pl_closed :: bool
  pl_snapshot :: string
  pl_watches :: nat

text \<open>
  The operations of a package: the second critical section of \<^verbatim>\<open>Load\<close> with the keys and the digest it
  read, the bodies of \<^verbatim>\<open>Close\<close> and \<^verbatim>\<open>SetRefreshCallback\<close>, the comparison in \<^verbatim>\<open>watch\<close> (the callback to
  call, if any), the recording of an accepted digest, and reading itself, of an outside world
  \<^typ>\<open>'w\<close>, which may have changed at every call; the flag is whether the context of the read is the one
  of the source's lifetime.
\<close>

record ('s, 'w) poll_ops =
  op_commit :: "KeyCandidate list \<Rightarrow> string \<Rightarrow> 's \<Rightarrow> 's \<times> KeyCandidate list res"
  op_shut :: "'s \<Rightarrow> 's"
  op_callback :: "string option \<Rightarrow> 's \<Rightarrow> 's"
  op_compare :: "string \<Rightarrow> 's \<Rightarrow> string option"
  op_accept :: "string \<Rightarrow> 's \<Rightarrow> 's"
  op_fetch :: "bool \<Rightarrow> 's \<Rightarrow> 'w \<Rightarrow> error + KeyCandidate list \<times> string"

text \<open>Where a watcher is, between its critical sections.\<close>

datatype poll_pc =
    Waiting
  | Fetched "KeyCandidate list" string
  | Calling string "KeyCandidate list" string
  | Recording string

text \<open>
  The system: the source, its watchers, the calls of \<^verbatim>\<open>Load\<close> that have read but not yet committed, and
  as a record what has been handed to the store so far, by a \<^verbatim>\<open>Load\<close> that returned it or a callback that
  accepted it, latest first. \<open>py_overlap\<close> records whether a \<^verbatim>\<open>Load\<close> ever committed after a watcher had
  been started, which the keystore never does.
\<close>

record ('s) poll_system =
  py_source :: 's
  py_watchers :: "poll_pc list"
  py_loads :: "(KeyCandidate list \<times> string) list"
  py_handed :: "(KeyCandidate list \<times> string) list"
  py_overlap :: bool

text \<open>
  The goroutines that a critical section has started: one for every \<^verbatim>\<open>go watch()\<close> it executed.
\<close>

definition poll_spawned :: "('s \<Rightarrow> nat) \<Rightarrow> 's \<Rightarrow> 's \<Rightarrow> poll_pc list" where
  "poll_spawned watches s s' = replicate (watches s' - watches s) Waiting"

inductive poll_step ::
    "('s, 'w) poll_ops \<Rightarrow> ('s \<Rightarrow> poll_state) \<Rightarrow> 's poll_system \<Rightarrow> 's poll_system \<Rightarrow> bool"
  for ops :: "('s, 'w) poll_ops" and view :: "'s \<Rightarrow> poll_state" where
  load_read: "\<not> pl_closed (view (py_source S)) \<Longrightarrow> op_fetch ops False (py_source S) w = Inr (keys, snapshot) \<Longrightarrow>
     poll_step ops view S (S\<lparr>py_loads := (keys, snapshot) # py_loads S\<rparr>)"
| load_commit: "(keys, snapshot) \<in> set (py_loads S) \<Longrightarrow>
     op_commit ops keys snapshot (py_source S) = (s', Ok keys') \<Longrightarrow>
     poll_step ops view S (S\<lparr>py_source := s',
       py_watchers := py_watchers S @ poll_spawned (pl_watches \<circ> view) (py_source S) s',
       py_loads := remove1 (keys, snapshot) (py_loads S), py_handed := (keys', snapshot) # py_handed S,
       py_overlap := py_overlap S \<or> pl_started (view (py_source S))\<rparr>)"
| load_refused: "(keys, snapshot) \<in> set (py_loads S) \<Longrightarrow>
     op_commit ops keys snapshot (py_source S) = (s', Err e) \<Longrightarrow>
     poll_step ops view S (S\<lparr>py_source := s', py_loads := remove1 (keys, snapshot) (py_loads S)\<rparr>)"
| poll_callback: "op_callback ops callback (py_source S) = s' \<Longrightarrow>
     poll_step ops view S (S\<lparr>py_source := s',
       py_watchers := py_watchers S @ poll_spawned (pl_watches \<circ> view) (py_source S) s'\<rparr>)"
| poll_close: "poll_step ops view S (S\<lparr>py_source := op_shut ops (py_source S)\<rparr>)"
| watch_exit: "py_watchers S = xs @ Waiting # ys \<Longrightarrow> pl_cancelled (view (py_source S)) \<Longrightarrow>
     poll_step ops view S (S\<lparr>py_watchers := xs @ ys\<rparr>)"
| watch_read: "py_watchers S = xs @ Waiting # ys \<Longrightarrow> op_fetch ops True (py_source S) w = Inr (keys, snapshot) \<Longrightarrow>
     poll_step ops view S (S\<lparr>py_watchers := xs @ Fetched keys snapshot # ys\<rparr>)"
| watch_same: "py_watchers S = xs @ Fetched keys snapshot # ys \<Longrightarrow> op_compare ops snapshot (py_source S) = None \<Longrightarrow>
     poll_step ops view S (S\<lparr>py_watchers := xs @ Waiting # ys\<rparr>)"
| watch_changed: "py_watchers S = xs @ Fetched keys snapshot # ys \<Longrightarrow>
     op_compare ops snapshot (py_source S) = Some callback \<Longrightarrow>
     poll_step ops view S (S\<lparr>py_watchers := xs @ Calling callback keys snapshot # ys\<rparr>)"
| watch_rejected: "py_watchers S = xs @ Calling callback keys snapshot # ys \<Longrightarrow>
     poll_step ops view S (S\<lparr>py_watchers := xs @ Waiting # ys\<rparr>)"
| watch_accepted: "py_watchers S = xs @ Calling callback keys snapshot # ys \<Longrightarrow>
     poll_step ops view S (S\<lparr>py_watchers := xs @ Recording snapshot # ys,
       py_handed := (keys, snapshot) # py_handed S\<rparr>)"
| watch_record: "py_watchers S = xs @ Recording snapshot # ys \<Longrightarrow>
     poll_step ops view S (S\<lparr>py_source := op_accept ops snapshot (py_source S), py_watchers := xs @ Waiting # ys\<rparr>)"

text \<open>A failed read, of a \<^verbatim>\<open>Load\<close> or of a watcher, changes nothing and so is no step.\<close>

definition poll_initial :: "('s \<Rightarrow> poll_state) \<Rightarrow> 's poll_system \<Rightarrow> bool" where
  "poll_initial view S \<longleftrightarrow>
     \<not> pl_started (view (py_source S)) \<and> pl_snapshot (view (py_source S)) = []
     \<and> (pl_closed (view (py_source S)) \<longleftrightarrow> pl_cancelled (view (py_source S)))
     \<and> py_watchers S = [] \<and> py_loads S = [] \<and> py_handed S = [] \<and> \<not> py_overlap S"

text \<open>A package's source as its common fields, and the result of its reading.\<close>

definition poll_view :: "'a poll_state_scheme \<Rightarrow> poll_state" where
  "poll_view f = poll_state.truncate f"

lemma poll_view_simps [simp]:
  "pl_id (poll_view f) = pl_id f" "pl_cancelled (poll_view f) = pl_cancelled f"
  "pl_callback (poll_view f) = pl_callback f" "pl_started (poll_view f) = pl_started f"
  "pl_closed (poll_view f) = pl_closed f" "pl_snapshot (poll_view f) = pl_snapshot f"
  "pl_watches (poll_view f) = pl_watches f"
  by (simp_all add: poll_view_def poll_state.truncate_def)

lemma poll_view_eq:
  "poll_view f = v \<longleftrightarrow> pl_id f = pl_id v \<and> pl_cancelled f = pl_cancelled v \<and> pl_callback f = pl_callback v
     \<and> pl_started f = pl_started v \<and> pl_closed f = pl_closed v \<and> pl_snapshot f = pl_snapshot v
     \<and> pl_watches f = pl_watches v"
  by (auto intro: poll_state.equality)

definition read_result :: "'a res \<Rightarrow> error + 'a" where
  "read_result r = (case r of Ok x \<Rightarrow> Inr x | Err e \<Rightarrow> Inl e | Panic p \<Rightarrow> Inl (ErrorNew p))"

section \<open>The contract and what follows from it\<close>

text \<open>
  What the polling relies on: \<^verbatim>\<open>Load\<close> records the digest and returns the keys it read unless the source
  has been closed, at most the flag \<^verbatim>\<open>started\<close> changes besides, and a goroutine is started exactly when
  the flag goes from unset to set; a cancelled source reads nothing; the comparison finds a callback only for another digest.
\<close>

locale polled_source =
  fixes ops :: "('s, 'w) poll_ops" and view :: "'s \<Rightarrow> poll_state"
  assumes commit_ok: "op_commit ops keys snapshot s = (s', Ok keys') \<Longrightarrow>
      keys' = keys \<and> \<not> pl_closed (view s)
      \<and> (\<exists>b. view s' = (view s)\<lparr>pl_snapshot := snapshot, pl_started := b,
                 pl_watches := pl_watches (view s) + (if b \<and> \<not> pl_started (view s) then 1 else 0)\<rparr>
             \<and> (pl_started (view s) \<longrightarrow> b))"
    and commit_err: "op_commit ops keys snapshot s = (s', Err e) \<Longrightarrow> s' = s"
    and commit_closed: "pl_closed (view s) \<Longrightarrow> \<exists>e. op_commit ops keys snapshot s = (s, Err e)"
    and commit_open: "\<not> pl_closed (view s) \<Longrightarrow> \<exists>s'. op_commit ops keys snapshot s = (s', Ok keys)"
    and shut: "view (op_shut ops s) = (if pl_closed (view s) then view s
                                      else (view s)\<lparr>pl_closed := True, pl_cancelled := True\<rparr>)"
    and callback_set: "\<exists>b. view (op_callback ops cb s) = (view s)\<lparr>pl_callback := cb, pl_started := b,
          pl_watches := pl_watches (view s) + (if b \<and> \<not> pl_started (view s) then 1 else 0)\<rparr>
      \<and> (pl_started (view s) \<longrightarrow> b) \<and> (b \<and> \<not> pl_started (view s) \<longrightarrow> pl_snapshot (view s) \<noteq> [] \<and> \<not> pl_closed (view s))"
    and compare: "op_compare ops snapshot s =
      (if snapshot = pl_snapshot (view s) then None else pl_callback (view s))"
    and accept: "view (op_accept ops snapshot s) = (view s)\<lparr>pl_snapshot := snapshot\<rparr>"
    and fetch_cancelled: "pl_cancelled (view s) \<Longrightarrow> \<exists>e. op_fetch ops True s w = Inl e"
begin

text \<open>
  The source records the digest of what was handed over last, except while a watcher is about to record
  the digest of what its callback has just accepted.
\<close>

definition agrees :: "string \<Rightarrow> poll_pc list \<Rightarrow> (KeyCandidate list \<times> string) list \<Rightarrow> bool" where
  "agrees recorded ws handed \<longleftrightarrow>
     (if \<exists>d. Recording d \<in> set ws
      then \<exists>keys d rest. handed = (keys, d) # rest \<and> ws = [Recording d]
      else (handed = [] \<and> recorded = []) \<or> (\<exists>keys rest. handed = (keys, recorded) # rest))"

lemma agrees_simps:
  "agrees recorded [Waiting] handed = agrees recorded [] handed"
  "agrees recorded [Fetched keys d] handed = agrees recorded [] handed"
  "agrees recorded [Calling callback keys d] handed = agrees recorded [] handed"
  "agrees recorded [Recording d] handed \<longleftrightarrow> (\<exists>keys rest. handed = (keys, d) # rest)"
  "agrees recorded [] ((keys, recorded) # rest)"
  by (auto simp: agrees_def)

definition poll_inv :: "'s poll_system \<Rightarrow> bool" where
  "poll_inv S \<longleftrightarrow>
     length (py_watchers S) \<le> 1
     \<and> (py_watchers S \<noteq> [] \<longrightarrow> pl_started (view (py_source S)))
     \<and> (pl_closed (view (py_source S)) \<longleftrightarrow> pl_cancelled (view (py_source S)))
     \<and> (\<not> py_overlap S \<longrightarrow> agrees (pl_snapshot (view (py_source S))) (py_watchers S) (py_handed S))"

lemma initial_inv: "poll_initial view S \<Longrightarrow> poll_inv S"
  by (simp add: poll_initial_def poll_inv_def agrees_def)

text \<open>With at most one watcher, the one that moves is the only one.\<close>

lemma only_watcher: "length ws \<le> 1 \<Longrightarrow> ws = xs @ pc # ys \<Longrightarrow> xs = [] \<and> ys = [] \<and> ws = [pc]"
  by (cases xs) auto

lemma spawned_ok:
  assumes "length ws \<le> 1" "ws \<noteq> [] \<longrightarrow> pl_started (view s)" "pl_started (view s) \<longrightarrow> pl_started (view s')"
    "pl_watches (view s') = pl_watches (view s) + (if pl_started (view s') \<and> \<not> pl_started (view s) then 1 else 0)"
  shows "length (ws @ poll_spawned (pl_watches \<circ> view) s s') \<le> 1"
    "ws @ poll_spawned (pl_watches \<circ> view) s s' \<noteq> [] \<longrightarrow> pl_started (view s')"
    "pc \<in> set (ws @ poll_spawned (pl_watches \<circ> view) s s') \<Longrightarrow> pc = Waiting \<or> ws = [pc]"
    "pl_started (view s) \<Longrightarrow> poll_spawned (pl_watches \<circ> view) s s' = []"
  using assms by (cases ws; auto simp: poll_spawned_def)+

lemma step_inv:
  assumes "poll_step ops view S S'" "poll_inv S"
  shows "poll_inv S'"
  using assms
proof (induction rule: poll_step.induct)
  case (load_read S w keys snapshot)
  then show ?case by (simp add: poll_inv_def)
next
  case (load_commit keys snapshot S s' keys')
  from commit_ok [OF load_commit.hyps(2)] obtain b where
    c: "keys' = keys" "\<not> pl_closed (view (py_source S))"
      "view s' = (view (py_source S))\<lparr>pl_snapshot := snapshot, pl_started := b,
         pl_watches := pl_watches (view (py_source S)) + (if b \<and> \<not> pl_started (view (py_source S)) then 1 else 0)\<rparr>"
      "pl_started (view (py_source S)) \<longrightarrow> b" by blast
  have w: "length (py_watchers S) \<le> 1" "py_watchers S \<noteq> [] \<longrightarrow> pl_started (view (py_source S))"
    "pl_started (view (py_source S)) \<longrightarrow> pl_started (view s')"
    "pl_watches (view s') = pl_watches (view (py_source S))
       + (if pl_started (view s') \<and> \<not> pl_started (view (py_source S)) then 1 else 0)"
    using load_commit.prems c by (simp_all add: poll_inv_def)
  have none: "\<not> pl_started (view (py_source S)) \<Longrightarrow> py_watchers S = []" using w(2) by auto
  note sp = spawned_ok [where s = "py_source S" and s' = s' and ws = "py_watchers S", OF w]
  have w': "watchers' = [] \<or> watchers' = [Waiting]" if "\<not> pl_started (view (py_source S))"
    "watchers' = py_watchers S @ poll_spawned (pl_watches \<circ> view) (py_source S) s'" for watchers'
    using none [OF that(1)] that(2) w(4) by (auto simp: poll_spawned_def)
  have "agrees snapshot (py_watchers S @ poll_spawned (pl_watches \<circ> view) (py_source S) s')
      ((keys, snapshot) # py_handed S)" if "\<not> pl_started (view (py_source S))"
    using w' [OF that refl] by (auto simp: agrees_simps)
  then show ?case
    using load_commit.prems c sp(1,2) by (simp add: poll_inv_def)
next
  case (load_refused keys snapshot S s' e)
  then show ?case using commit_err [OF load_refused.hyps(2)]
    by (simp add: poll_inv_def)
next
  case (poll_callback callback S s')
  from callback_set [of callback "py_source S"] poll_callback.hyps obtain b where
    c: "view s' = (view (py_source S))\<lparr>pl_callback := callback, pl_started := b,
         pl_watches := pl_watches (view (py_source S)) + (if b \<and> \<not> pl_started (view (py_source S)) then 1 else 0)\<rparr>"
      "pl_started (view (py_source S)) \<longrightarrow> b"
      "b \<and> \<not> pl_started (view (py_source S)) \<longrightarrow> pl_snapshot (view (py_source S)) \<noteq> []" by blast
  have w: "length (py_watchers S) \<le> 1" "py_watchers S \<noteq> [] \<longrightarrow> pl_started (view (py_source S))"
    "pl_started (view (py_source S)) \<longrightarrow> pl_started (view s')"
    "pl_watches (view s') = pl_watches (view (py_source S))
       + (if pl_started (view s') \<and> \<not> pl_started (view (py_source S)) then 1 else 0)"
    using poll_callback.prems c by (simp_all add: poll_inv_def)
  note sp = spawned_ok [where s = "py_source S" and s' = s' and ws = "py_watchers S", OF w]
  show ?case
  proof (cases "pl_started (view (py_source S))")
    case True
    then show ?thesis using poll_callback.prems c sp(4)
      by (auto simp: poll_inv_def agrees_simps poll_spawned_def)
  next
    case False
    then have "py_watchers S = []" using w(2) by auto
    then show ?thesis using poll_callback.prems c
      by (auto simp: poll_inv_def agrees_simps poll_spawned_def)
  qed
next
  case (poll_close S)
  then show ?case by (auto simp: poll_inv_def shut)
next
  case (watch_exit S xs ys)
  then have "py_watchers S = [Waiting]" "xs = []" "ys = []" using only_watcher by (auto simp: poll_inv_def)
  then show ?case using watch_exit.prems by (auto simp: poll_inv_def agrees_simps)
next
  case (watch_read S xs ys w keys snapshot)
  then have "py_watchers S = [Waiting]" "xs = []" "ys = []" using only_watcher by (auto simp: poll_inv_def)
  then show ?case using watch_read.prems
    by (auto simp: poll_inv_def agrees_simps)
next
  case (watch_same S xs keys snapshot ys)
  then have "py_watchers S = [Fetched keys snapshot]" "xs = []" "ys = []" using only_watcher by (auto simp: poll_inv_def)
  then show ?case using watch_same.prems by (auto simp: poll_inv_def agrees_simps)
next
  case (watch_changed S xs keys snapshot ys callback)
  then have "py_watchers S = [Fetched keys snapshot]" "xs = []" "ys = []" using only_watcher by (auto simp: poll_inv_def)
  then show ?case using watch_changed.prems by (auto simp: poll_inv_def agrees_simps)
next
  case (watch_rejected S xs callback keys snapshot ys)
  then have "py_watchers S = [Calling callback keys snapshot]" "xs = []" "ys = []" using only_watcher by (auto simp: poll_inv_def)
  then show ?case using watch_rejected.prems by (auto simp: poll_inv_def agrees_simps)
next
  case (watch_accepted S xs callback keys snapshot ys)
  then have "py_watchers S = [Calling callback keys snapshot]" "xs = []" "ys = []" using only_watcher by (auto simp: poll_inv_def)
  then show ?case using watch_accepted.prems by (auto simp: poll_inv_def agrees_simps)
next
  case (watch_record S xs snapshot ys)
  then have "py_watchers S = [Recording snapshot]" "xs = []" "ys = []" using only_watcher by (auto simp: poll_inv_def)
  then show ?case using watch_record.prems by (auto simp: poll_inv_def agrees_simps accept)
qed

lemma steps_inv: "(poll_step ops view)\<^sup>*\<^sup>* S S' \<Longrightarrow> poll_inv S \<Longrightarrow> poll_inv S'"
  by (induction rule: rtranclp_induct) (auto intro: step_inv)

lemma poll_reachable_inv: "(poll_step ops view)\<^sup>*\<^sup>* S S' \<Longrightarrow> poll_initial view S \<Longrightarrow> poll_inv S'"
  using steps_inv initial_inv by blast

text \<open>What is still on its way to the store: a watcher that has read something it may yet hand over.\<close>

fun in_flight :: "poll_pc \<Rightarrow> nat" where
  "in_flight Waiting = 0"
| "in_flight (Fetched keys snapshot) = 1"
| "in_flight (Calling callback keys snapshot) = 1"
| "in_flight (Recording snapshot) = 0"

definition to_come :: "'s poll_system \<Rightarrow> nat" where
  "to_come S = length (py_handed S) + sum_list (map in_flight (py_watchers S))"

text \<open>
  A closed source stays closed, and the number of lists handed over plus those on their way can only
  decrease.
\<close>

lemma step_closed:
  assumes "poll_step ops view S S'" "pl_closed (view (py_source S))" "poll_inv S"
  shows "pl_closed (view (py_source S')) \<and> to_come S' \<le> to_come S \<and> length (py_watchers S') \<le> length (py_watchers S)"
  using assms
proof (induction rule: poll_step.induct)
  case (load_commit keys snapshot S s' keys')
  then show ?case using commit_ok by blast
next
  case (load_refused keys snapshot S s' e)
  then show ?case using commit_err [OF load_refused.hyps(2)] by (simp add: to_come_def)
next
  case (poll_callback callback S s')
  from callback_set [of callback "py_source S"] poll_callback show ?case
    by (auto simp: to_come_def poll_spawned_def)
next
  case (poll_close S)
  then show ?case by (simp add: to_come_def shut)
next
  case (watch_read S xs ys w keys snapshot)
  then have "pl_cancelled (view (py_source S))" by (simp add: poll_inv_def)
  then obtain e where "op_fetch ops True (py_source S) w = Inl e" using fetch_cancelled by blast
  then show ?case using watch_read.hyps(2) by simp
next
  case (watch_record S xs snapshot ys)
  then show ?case by (simp add: to_come_def accept)
qed (auto simp: to_come_def)

lemma steps_closed:
  assumes "(poll_step ops view)\<^sup>*\<^sup>* S S'" "pl_closed (view (py_source S))" "poll_inv S"
  shows "pl_closed (view (py_source S')) \<and> to_come S' \<le> to_come S"
  using assms
proof (induction rule: rtranclp_induct)
  case (step S1 S2)
  have inv: "poll_inv S1" using steps_inv [OF step.hyps(1) step.prems(2)] .
  show ?case using step_closed [OF step.hyps(2) _ inv] step by auto
qed simp

lemma at_most_one_more:
  assumes "(poll_step ops view)\<^sup>*\<^sup>* S S'" "pl_closed (view (py_source S))" "poll_inv S"
  shows "length (py_handed S') \<le> length (py_handed S) + 1"
proof -
  have "sum_list (map in_flight (py_watchers S)) \<le> 1"
  proof (cases "py_watchers S")
    case (Cons pc rest)
    then have "rest = []" using assms(3) by (simp add: poll_inv_def)
    then show ?thesis using Cons by (cases pc) simp_all
  qed simp
  then show ?thesis using steps_closed [OF assms] by (simp add: to_come_def)
qed

text \<open>One round of the watcher brings the store what the world holds, if the callback accepts it.\<close>

lemma round_delivers:
  assumes w: "py_watchers S = [Waiting]" and cb: "pl_callback (view (py_source S)) = Some cb"
    and read: "op_fetch ops True (py_source S) w = Inr (keys, d)"
  shows "\<exists>S'. (poll_step ops view)\<^sup>*\<^sup>* S S' \<and> py_watchers S' = [Waiting]
     \<and> pl_snapshot (view (py_source S')) = d
     \<and> py_handed S' = (if d = pl_snapshot (view (py_source S)) then py_handed S else (keys, d) # py_handed S)"
proof -
  let ?S1 = "S\<lparr>py_watchers := [Fetched keys d]\<rparr>"
  have s1: "poll_step ops view S ?S1" using poll_step.watch_read [of S "[]" "[]" ops w keys d view] w read by simp
  show ?thesis
  proof (cases "d = pl_snapshot (view (py_source S))")
    case True
    have "poll_step ops view ?S1 (?S1\<lparr>py_watchers := [Waiting]\<rparr>)"
      using poll_step.watch_same [of ?S1 "[]" keys d "[]" ops view] compare [of d] True by simp
    with s1 have "(poll_step ops view)\<^sup>*\<^sup>* S (?S1\<lparr>py_watchers := [Waiting]\<rparr>)" by auto
    then show ?thesis using True by (intro exI [of _ "?S1\<lparr>py_watchers := [Waiting]\<rparr>"]) simp
  next
    case False
    let ?S2 = "S\<lparr>py_watchers := [Calling cb keys d]\<rparr>"
    let ?S3 = "S\<lparr>py_watchers := [Recording d], py_handed := (keys, d) # py_handed S\<rparr>"
    let ?S4 = "?S3\<lparr>py_source := op_accept ops d (py_source S), py_watchers := [Waiting]\<rparr>"
    have "poll_step ops view ?S1 ?S2"
      using poll_step.watch_changed [of ?S1 "[]" keys d "[]" ops cb view] compare [of d] False cb by simp
    moreover have "poll_step ops view ?S2 ?S3"
      using poll_step.watch_accepted [of ?S2 "[]" cb keys d "[]" ops view] by simp
    moreover have "poll_step ops view ?S3 ?S4"
      using poll_step.watch_record [of ?S3 "[]" d "[]" ops view] by simp
    ultimately have "(poll_step ops view)\<^sup>*\<^sup>* S ?S4"
      using s1 by (meson converse_rtranclp_into_rtranclp rtranclp.rtrancl_refl)
    then show ?thesis using False by (intro exI [of _ ?S4]) (simp add: accept)
  qed
qed

text \<open>
  Between the rounds of a watcher, the recorded digest is that of the last list handed over, so a round
  compares the world with what the store has.
\<close>

lemma recorded_is_handed:
  assumes "poll_inv S" "\<not> py_overlap S" "\<forall>d. py_watchers S \<noteq> [Recording d]"
  shows "(py_handed S = [] \<and> pl_snapshot (view (py_source S)) = [])
     \<or> (\<exists>keys rest. py_handed S = (keys, pl_snapshot (view (py_source S))) # rest)"
proof -
  have "py_watchers S = [] \<or> (\<exists>pc. py_watchers S = [pc])"
    using assms(1) by (cases "py_watchers S") (auto simp: poll_inv_def)
  then have "\<not> (\<exists>d. Recording d \<in> set (py_watchers S))" using assms(3) by auto
  moreover have "agrees (pl_snapshot (view (py_source S))) (py_watchers S) (py_handed S)"
    using assms(1,2) by (simp add: poll_inv_def)
  ultimately show ?thesis by (auto simp: agrees_def)
qed

text \<open>All of this together, for whatever steps have led to a state.\<close>

lemma polling:
  assumes "poll_initial view S0" "(poll_step ops view)\<^sup>*\<^sup>* S0 S"
  shows "length (py_watchers S) \<le> 1"
    and "\<not> py_overlap S \<Longrightarrow> \<forall>d. py_watchers S \<noteq> [Recording d] \<Longrightarrow>
      (py_handed S = [] \<and> pl_snapshot (view (py_source S)) = [])
      \<or> (\<exists>keys rest. py_handed S = (keys, pl_snapshot (view (py_source S))) # rest)"
    and "py_watchers S = [Waiting] \<Longrightarrow> pl_callback (view (py_source S)) = Some cb \<Longrightarrow>
      op_fetch ops True (py_source S) w = Inr (keys, d) \<Longrightarrow>
      \<exists>S'. (poll_step ops view)\<^sup>*\<^sup>* S S' \<and> pl_snapshot (view (py_source S')) = d
         \<and> py_handed S' = (if d = pl_snapshot (view (py_source S)) then py_handed S else (keys, d) # py_handed S)"
    and "pl_closed (view (py_source S)) \<Longrightarrow> (poll_step ops view)\<^sup>*\<^sup>* S S' \<Longrightarrow>
      length (py_handed S') \<le> length (py_handed S) + 1"
proof -
  have inv: "poll_inv S" by (rule poll_reachable_inv [OF assms(2,1)])
  then show "length (py_watchers S) \<le> 1" by (simp add: poll_inv_def)
qed (use recorded_is_handed round_delivers at_most_one_more poll_reachable_inv [OF assms(2,1)] in blast)+

end

end
