(* ===== verification/File_Source.thy ===== *)
theory File_Source
  imports Polling_Source "HOL-Library.List_Lexorder" "HOL-Library.Char_ord"
begin

text \<open>
  The package \<^verbatim>\<open>keysource/filesource\<close>: keys from PEM or DER files, of one file or of a directory, with
  a goroutine that polls for changed contents. The file system, the PEM decoder, the \<^verbatim>\<open>x509\<close> parsers and
  SHA-256 are parameters; \<^verbatim>\<open>path/filepath\<close> is defined for Unix paths.
\<close>

section \<open>Paths\<close>

fun split_path :: "string \<Rightarrow> string list" where
  "split_path [] = [[]]"
| "split_path (c # cs) =
     (if c = CHR ''/'' then [] # split_path cs
      else (case split_path cs of [] \<Rightarrow> [[c]] | p # ps \<Rightarrow> (c # p) # ps))"

fun join_path :: "string list \<Rightarrow> string" where
  "join_path [] = []"
| "join_path [p] = p"
| "join_path (p # ps) = p @ ''/'' @ join_path ps"

text \<open>\<^verbatim>\<open>filepath.Clean\<close>: the elements kept so far are in reverse.\<close>

fun clean_elements :: "bool \<Rightarrow> string list \<Rightarrow> string list \<Rightarrow> string list" where
  "clean_elements rooted out [] = rev out"
| "clean_elements rooted out (p # ps) =
     (if p = [] \<or> p = ''.'' then clean_elements rooted out ps
      else if p = ''..'' then
        (case out of
           q # out' \<Rightarrow> if q = ''..'' then clean_elements rooted (''..'' # out) ps
                       else clean_elements rooted out' ps
         | [] \<Rightarrow> if rooted then clean_elements rooted [] ps else clean_elements rooted [''..''] ps)
      else clean_elements rooted (p # out) ps)"

definition filepath_Clean :: "string \<Rightarrow> string" where
  "filepath_Clean path =
     (let rooted = starts_with ''/'' path;
          cleaned = join_path (clean_elements rooted [] (split_path path))
      in if rooted then ''/'' @ cleaned else if cleaned = [] then ''.'' else cleaned)"

text \<open>\<^verbatim>\<open>filepath.Join\<close> of two elements, which ignores empty ones.\<close>

definition filepath_Join :: "string \<Rightarrow> string \<Rightarrow> string" where
  "filepath_Join dir name =
     (if dir = [] \<and> name = [] then []
      else if dir = [] then filepath_Clean name
      else filepath_Clean (dir @ ''/'' @ name))"

definition filepath_Base :: "string \<Rightarrow> string" where
  "filepath_Base path =
     (if path = [] then ''.''
      else
        (let stripped = rev (dropWhile (\<lambda>c. c = CHR ''/'') (rev path));
             base = rev (takeWhile (\<lambda>c. c \<noteq> CHR ''/'') (rev stripped))
         in if base = [] then ''/'' else base))"

section \<open>The outside world\<close>

text \<open>
  The mode of a file. \<^verbatim>\<open>os.Stat\<close> follows symbolic links; the type of a directory entry and the result
  of its \<^verbatim>\<open>Info()\<close> are those of the entry itself.
\<close>

datatype file_mode = RegularFile | Directory | Symlink | OtherFile

record dir_entry =
  entry_Name :: string
  entry_Type :: file_mode
  entry_Info :: "error + file_mode"

record file_system =
  fs_Stat :: "string \<Rightarrow> error + file_mode"
  fs_ReadDir :: "string \<Rightarrow> error + dir_entry list"
  fs_ReadFile :: "string \<Rightarrow> error + bytes"

text \<open>
  \<^verbatim>\<open>pem.Decode\<close> finds the next block and gives its contents and the rest of the data, or no block. The
  parsers of \<^verbatim>\<open>x509\<close> and SHA-256 are functions of the bytes.
\<close>

record file_parsers =
  pem_Decode :: "bytes \<Rightarrow> (bytes \<times> bytes) option"
  parse_Certificate :: certificate_parser
  parse_PKCS8PrivateKey :: "bytes \<Rightarrow> error + private_key"
  parse_PKCS1PrivateKey :: "bytes \<Rightarrow> error + rsa_PrivateKey"
  parse_ECPrivateKey :: "bytes \<Rightarrow> error + ecdsa_PrivateKey"
  parse_PKIXPublicKey :: "bytes \<Rightarrow> error + public_key"
  parse_PKCS1PublicKey :: "bytes \<Rightarrow> error + rsa_PublicKey"
  sha256_Sum :: "bytes \<Rightarrow> bytes"

section \<open>The source\<close>

record file_source = poll_state +
  fl_path :: string
  fl_monitor :: bool
  fl_pollInterval :: duration
  fl_candidate :: KeyCandidate

definition file_ErrClosed :: error where
  "file_ErrClosed = ErrorNew ''file source is closed''"

definition defaultFilePollInterval :: duration where
  "defaultFilePollInterval = 1000000000"

text \<open>An \<^verbatim>\<open>Option\<close> changes the source it is given, and may fail.\<close>

type_synonym file_Option = "file_source \<Rightarrow> file_source res"

definition WithFileMonitoring :: "bool \<Rightarrow> file_Option" where
  "WithFileMonitoring enabled = (\<lambda>f. Ok (f\<lparr>fl_monitor := enabled\<rparr>))"

definition WithFilePollInterval :: "duration \<Rightarrow> file_Option" where
  "WithFilePollInterval interval =
     (\<lambda>f. if interval \<le> 0 then Err (Errorf ''file source poll interval must be positive'' [])
          else Ok (f\<lparr>fl_pollInterval := interval\<rparr>))"

definition WithFileCandidate :: "KeyCandidate \<Rightarrow> file_Option" where
  "WithFileCandidate candidate = (\<lambda>f. Ok (f\<lparr>fl_candidate := candidate\<rparr>))"

fun apply_file_options :: "file_Option option list \<Rightarrow> file_source \<Rightarrow> file_source res" where
  "apply_file_options [] f = Ok f"
| "apply_file_options (None # options) f = apply_file_options options f"
| "apply_file_options (Some opt # options) f = bind_res (opt f) (apply_file_options options)"

definition file_New :: "string \<Rightarrow> string \<Rightarrow> file_Option option list \<Rightarrow> file_source res" where
  "file_New sid path options =
     (if TrimSpace sid = [] then Err (Errorf ''file source ID is empty'' [])
      else if TrimSpace path = [] then Err (Errorf ''file source path is empty'' [])
      else apply_file_options options
        \<lparr>pl_id = sid, pl_cancelled = False, pl_callback = None, pl_started = False, pl_closed = False,
         pl_snapshot = [], pl_watches = 0, fl_path = filepath_Clean path, fl_monitor = False,
         fl_pollInterval = defaultFilePollInterval, fl_candidate = zero_KeyCandidate\<rparr>)"

section \<open>Reading the files\<close>

text \<open>The loop over the entries of a directory.\<close>

fun entry_files :: "string \<Rightarrow> dir_entry list \<Rightarrow> string list" where
  "entry_files path [] = []"
| "entry_files path (entry # entries) =
     (if entry_Type entry = RegularFile
         \<or> (entry_Type entry = Symlink \<and> entry_Info entry = Inr RegularFile)
      then filepath_Join path (entry_Name entry) # entry_files path entries
      else entry_files path entries)"

definition sourceFiles :: "file_system \<Rightarrow> string \<Rightarrow> string list res" where
  "sourceFiles fs path =
     (case fs_Stat fs path of
        Inl err \<Rightarrow> Err (Wrapf ''stat file source %q: %w'' [StrArg path] err)
      | Inr mode \<Rightarrow>
          if mode \<noteq> Directory then
            (if mode \<noteq> RegularFile then Err (Errorf ''file source %q is not a regular file'' [StrArg path])
             else Ok [path])
          else
            (case fs_ReadDir fs path of
               Inl err \<Rightarrow> Err (Wrapf ''read file source directory %q: %w'' [StrArg path] err)
             | Inr entries \<Rightarrow> Ok (sort (entry_files path entries))))"

definition fileKeyID :: "string \<Rightarrow> nat \<Rightarrow> nat \<Rightarrow> string" where
  "fileKeyID path index n =
     (let fid = filepath_Base path in
      if n > 1 then fid @ ''#'' @ decimal (int index + 1) else fid)"

definition firstNonEmpty :: "string \<Rightarrow> string \<Rightarrow> string" where
  "firstNonEmpty value fallback = (if value \<noteq> [] then value else fallback)"

definition privateMaterial :: "private_key \<Rightarrow> material res" where
  "privateMaterial value =
     (if value = PrivNil then Err (Errorf ''unsupported private key type %T'' []) else Ok (PrivateMaterial (Some value)))"

definition publicMaterial :: "public_key \<Rightarrow> material res" where
  "publicMaterial value =
     (if value = PubNil then Err (Errorf ''unsupported public key type %T'' []) else Ok (PublicMaterial (Some value)))"

text \<open>The parsers are tried in order; a later one runs only when all earlier ones failed.\<close>

definition parseMaterial :: "file_parsers \<Rightarrow> bytes \<Rightarrow> material res" where
  "parseMaterial ps der =
     (case parse_Certificate ps der of
        Inr cert \<Rightarrow> Ok (CertificateMaterial (Some (Some cert)))
      | Inl _ \<Rightarrow>
     (case parse_PKCS8PrivateKey ps der of
        Inr privateKey \<Rightarrow> privateMaterial privateKey
      | Inl _ \<Rightarrow>
     (case parse_PKCS1PrivateKey ps der of
        Inr privateKey \<Rightarrow> Ok (PrivateMaterial (Some (PrivRSA (Some privateKey))))
      | Inl _ \<Rightarrow>
     (case parse_ECPrivateKey ps der of
        Inr privateKey \<Rightarrow> Ok (PrivateMaterial (Some (PrivECDSA (Some privateKey))))
      | Inl _ \<Rightarrow>
     (case parse_PKIXPublicKey ps der of
        Inr publicKey \<Rightarrow> publicMaterial publicKey
      | Inl _ \<Rightarrow>
     (case parse_PKCS1PublicKey ps der of
        Inr publicKey \<Rightarrow> Ok (PublicMaterial (Some (PubRSA (Some publicKey))))
      | Inl _ \<Rightarrow>
          Err (ErrorNew ''unsupported private key, public key, or certificate encoding'')))))))"

text \<open>
  The loop that splits off PEM blocks, with fuel: it gives the blocks and the rest, or nothing when the
  fuel runs out.
\<close>

fun pem_loop :: "nat \<Rightarrow> file_parsers \<Rightarrow> bytes \<Rightarrow> (bytes list \<times> bytes) option" where
  "pem_loop 0 ps rest = None"
| "pem_loop (Suc fuel) ps rest =
     (case pem_Decode ps rest of
        None \<Rightarrow> Some ([], rest)
      | Some (block, next_rest) \<Rightarrow>
          map_option (\<lambda>(blocks, end_rest). (block # blocks, end_rest)) (pem_loop fuel ps next_rest))"

definition template :: "file_source \<Rightarrow> string \<Rightarrow> nat \<Rightarrow> nat \<Rightarrow> KeyCandidate" where
  "template f path i n =
     (let candidate = fl_candidate f in
      candidate\<lparr>
        cand_Restrictions := [] @ cand_Restrictions (fl_candidate f),
        cand_Source := firstNonEmpty (cand_Source candidate) (pl_id f),
        cand_ID := firstNonEmpty (cand_ID candidate) (fileKeyID path i n),
        cand_Status := (if cand_Status candidate = [] then KeyStatusActive else cand_Status candidate)\<rparr>)"

fun decode_blocks ::
    "file_parsers \<Rightarrow> file_source \<Rightarrow> string \<Rightarrow> nat \<Rightarrow> nat \<Rightarrow> bytes list \<Rightarrow> KeyCandidate list \<Rightarrow> KeyCandidate list res" where
  "decode_blocks ps f path n i [] result = Ok result"
| "decode_blocks ps f path n i (block # blocks) result =
     (case parseMaterial ps block of
        Err err \<Rightarrow> Err (Wrapf ''decode key file %q block %d: %w'' [StrArg path, IntArg (int i + 1)] err)
      | Panic p \<Rightarrow> Panic p
      | Ok parsed \<Rightarrow>
          decode_blocks ps f path n (Suc i) blocks
            (result @ [(template f path i n)\<lparr>cand_Material := Some parsed\<rparr>]))"

definition decode :: "file_parsers \<Rightarrow> file_source \<Rightarrow> string \<Rightarrow> bytes \<Rightarrow> KeyCandidate list res" where
  "decode ps f path encoded =
     (case pem_loop (Suc (length encoded)) ps encoded of
        None \<Rightarrow> Panic ''the loop over the PEM blocks does not end''
      | Some (blocks, rest) \<Rightarrow>
          if blocks = [] then decode_blocks ps f path 1 0 [encoded] []
          else if TrimSpace (string_of rest) \<noteq> []
          then Err (Errorf ''decode key file %q: data found outside PEM blocks'' [StrArg path])
          else decode_blocks ps f path (length blocks) 0 blocks [])"

text \<open>
  The loop over the files: \<open>written\<close> is what the hash has been given so far. The context is checked
  before every file.
\<close>

fun load_files ::
    "file_parsers \<Rightarrow> file_system \<Rightarrow> file_source \<Rightarrow> ctxt \<Rightarrow> nat \<Rightarrow> string list \<Rightarrow> bytes \<Rightarrow> KeyCandidate list
       \<Rightarrow> (KeyCandidate list \<times> bytes) res" where
  "load_files ps fs f ctx i [] written keys = Ok (keys, written)"
| "load_files ps fs f ctx i (path # paths) written keys =
     (case ctx i of
        Some err \<Rightarrow> Err err
      | None \<Rightarrow>
          (case fs_ReadFile fs path of
             Inl err \<Rightarrow> Err (Wrapf ''read key file %q: %w'' [StrArg path] err)
           | Inr encoded \<Rightarrow>
               bind_res (decode ps f path encoded)
                 (\<lambda>loaded. load_files ps fs f ctx (Suc i) paths
                    (written @ bytes_of path @ [0] @ encoded) (keys @ loaded))))"

definition file_load ::
    "file_parsers \<Rightarrow> file_system \<Rightarrow> ctxt \<Rightarrow> file_source \<Rightarrow> (KeyCandidate list \<times> string) res" where
  "file_load ps fs ctx f =
     (case ctx 0 of
        Some err \<Rightarrow> Err err
      | None \<Rightarrow>
          bind_res (sourceFiles fs (fl_path f))
            (\<lambda>files. bind_res (load_files ps fs f ctx 1 files [] [])
               (\<lambda>(keys, written). Ok (keys, hex_EncodeToString (sha256_Sum ps written)))))"

section \<open>The operations\<close>

text \<open>Where the goroutine is started; \<open>pl_watches\<close> counts the starts.\<close>

definition startMonitorLocked :: "file_source \<Rightarrow> file_source" where
  "startMonitorLocked f =
     (if pl_closed f \<or> \<not> fl_monitor f \<or> pl_started f \<or> pl_callback f = None \<or> pl_snapshot f = [] then f
      else f\<lparr>pl_started := True, pl_watches := pl_watches f + 1\<rparr>)"

text \<open>The second critical section of \<^verbatim>\<open>Load\<close>.\<close>

definition file_commit ::
    "KeyCandidate list \<Rightarrow> string \<Rightarrow> file_source \<Rightarrow> file_source \<times> KeyCandidate list res" where
  "file_commit keys snapshot f =
     (if pl_closed f then (f, Err file_ErrClosed)
      else (startMonitorLocked (f\<lparr>pl_snapshot := snapshot\<rparr>), Ok keys))"

text \<open>
  \<^verbatim>\<open>Load\<close> when nothing else runs in between. The context of the caller is checked once before, and then
  by the reading.
\<close>

definition file_Load ::
    "file_parsers \<Rightarrow> file_system \<Rightarrow> ctxt option \<Rightarrow> file_source \<Rightarrow> file_source \<times> KeyCandidate list res" where
  "file_Load ps fs context f =
     (case context of
        None \<Rightarrow> (f, Err (Errorf ''load file source: nil context'' []))
      | Some ctx \<Rightarrow>
          (case ctx 0 of
             Some err \<Rightarrow> (f, Err err)
           | None \<Rightarrow>
               if pl_closed f then (f, Err file_ErrClosed)
               else
                 (case file_load ps fs (later 1 ctx) f of
                    Err err \<Rightarrow> (f, Err err)
                  | Panic p \<Rightarrow> (f, Panic p)
                  | Ok (keys, snapshot) \<Rightarrow> file_commit keys snapshot f)))"

definition file_Close :: "file_source \<Rightarrow> file_source \<times> error option" where
  "file_Close f =
     (if pl_closed f then (f, None) else (f\<lparr>pl_closed := True, pl_cancelled := True\<rparr>, None))"

definition file_SetRefreshCallback :: "string option \<Rightarrow> file_source \<Rightarrow> file_source" where
  "file_SetRefreshCallback callback f = startMonitorLocked (f\<lparr>pl_callback := callback\<rparr>)"

text \<open>The comparison in \<^verbatim>\<open>watch\<close> and its recording of an accepted snapshot.\<close>

definition file_compare :: "string \<Rightarrow> file_source \<Rightarrow> string option" where
  "file_compare snapshot f = (if snapshot = pl_snapshot f then None else pl_callback f)"

definition file_accept :: "string \<Rightarrow> file_source \<Rightarrow> file_source" where
  "file_accept snapshot f = f\<lparr>pl_snapshot := snapshot\<rparr>"

section \<open>Facts about reading\<close>

text \<open>What \<^verbatim>\<open>pem.Decode\<close> promises: the rest is what follows the block.\<close>

definition pem_shrinks :: "file_parsers \<Rightarrow> bool" where
  "pem_shrinks ps \<longleftrightarrow>
     (\<forall>data block rest. pem_Decode ps data = Some (block, rest) \<longrightarrow> length rest < length data)"

text \<open>The blocks of some data and what follows the last one.\<close>

inductive pem_split :: "file_parsers \<Rightarrow> bytes \<Rightarrow> bytes list \<Rightarrow> bytes \<Rightarrow> bool" for ps where
  no_block: "pem_Decode ps data = None \<Longrightarrow> pem_split ps data [] data"
| one_block: "pem_Decode ps data = Some (block, data') \<Longrightarrow> pem_split ps data' blocks rest \<Longrightarrow>
     pem_split ps data (block # blocks) rest"

inductive_cases pem_split_elims: "pem_split ps data blocks rest"

lemma pem_loop_split:
  assumes "pem_shrinks ps" "length data < fuel"
  shows "pem_loop fuel ps data = Some (blocks, rest) \<longleftrightarrow> pem_split ps data blocks rest"
  using assms(2)
proof (induction fuel arbitrary: data blocks)
  case 0
  then show ?case by simp
next
  case (Suc fuel)
  show ?case
  proof (cases "pem_Decode ps data")
    case None
    then show ?thesis by (auto elim: pem_split.cases intro: pem_split.intros)
  next
    case (Some br)
    obtain block data' where br: "br = (block, data')" by (cases br)
    have "length data' < fuel"
      using Some br assms(1) Suc.prems unfolding pem_shrinks_def by (metis less_SucE less_trans)
    note IH = Suc.IH [OF this]
    show ?thesis
    proof
      assume "pem_loop (Suc fuel) ps data = Some (blocks, rest)"
      then obtain blocks' where "blocks = block # blocks'" "pem_loop fuel ps data' = Some (blocks', rest)"
        using Some br by auto
      then show "pem_split ps data blocks rest" using IH Some br by (auto intro: pem_split.intros)
    next
      assume "pem_split ps data blocks rest"
      then obtain blocks' where "blocks = block # blocks'" "pem_split ps data' blocks' rest"
        using Some br by (auto elim: pem_split.cases)
      then show "pem_loop (Suc fuel) ps data = Some (blocks, rest)" using IH Some br by simp
    qed
  qed
qed

lemma pem_loop_total:
  assumes "pem_shrinks ps" "length data < fuel"
  shows "\<exists>blocks rest. pem_loop fuel ps data = Some (blocks, rest)"
  using assms(2)
proof (induction fuel arbitrary: data)
  case (Suc fuel)
  show ?case
  proof (cases "pem_Decode ps data")
    case (Some br)
    obtain block data' where br: "br = (block, data')" by (cases br)
    have "length data' < fuel"
      using Some br assms(1) Suc.prems unfolding pem_shrinks_def by (metis less_SucE less_trans)
    with Suc.IH [of data'] show ?thesis using Some br by auto
  qed simp
qed simp

declare pem_loop.simps [simp del]

lemma parseMaterial_not_Panic: "parseMaterial ps der \<noteq> Panic p"
  by (simp add: parseMaterial_def privateMaterial_def publicMaterial_def split: sum.split)

lemma decode_blocks_Ok:
  "decode_blocks ps f path n i blocks result = Ok cs \<longleftrightarrow>
     (\<exists>new. cs = result @ new \<and> length new = length blocks
        \<and> (\<forall>j<length blocks. \<exists>m. parseMaterial ps (blocks ! j) = Ok m
             \<and> new ! j = (template f path (i + j) n)\<lparr>cand_Material := Some m\<rparr>))"
proof (induction blocks arbitrary: i result)
  case Nil
  then show ?case by auto
next
  case (Cons block blocks)
  show ?case
  proof (cases "parseMaterial ps block")
    case (Ok m)
    let ?c = "(template f path i n)\<lparr>cand_Material := Some m\<rparr>"
    have step: "(\<exists>new. cs = result @ ?c # new \<and> P new) \<longleftrightarrow>
        (\<exists>new. cs = result @ new \<and> (\<exists>new'. new = ?c # new' \<and> P new'))" for P by auto
    have iff: "(\<exists>new'. new = ?c # new' \<and> length new' = length blocks \<and>
           (\<forall>j<length blocks. \<exists>m. parseMaterial ps (blocks ! j) = Ok m
              \<and> new' ! j = (template f path (Suc (i + j)) n)\<lparr>cand_Material := Some m\<rparr>)) \<longleftrightarrow>
         length new = length (block # blocks) \<and>
           (\<forall>j<length (block # blocks). \<exists>m. parseMaterial ps ((block # blocks) ! j) = Ok m
              \<and> new ! j = (template f path (i + j) n)\<lparr>cand_Material := Some m\<rparr>)" for new
      using Ok by (cases new) (auto simp: All_less_Suc2)
    show ?thesis using Ok by (simp add: Cons.IH step iff del: length_Cons nth_Cons_Suc nth_Cons_0)
  next
    case (Err err)
    then show ?thesis by (auto intro!: exI [of _ "0 :: nat"])
  next
    case (Panic p)
    then show ?thesis by (simp add: parseMaterial_not_Panic)
  qed
qed

lemma decode_blocks_not_Panic: "decode_blocks ps f path n i blocks result \<noteq> Panic p"
  by (induction blocks arbitrary: i result) (auto simp: parseMaterial_not_Panic split: res.split)

declare decode_blocks.simps [simp del]

text \<open>The contents of the blocks of a file: those of its PEM blocks, or the whole file when there is none.\<close>

definition file_blocks :: "file_parsers \<Rightarrow> bytes \<Rightarrow> bytes list \<Rightarrow> bool" where
  "file_blocks ps encoded blocks \<longleftrightarrow>
     (\<exists>rest found. pem_split ps encoded found rest
        \<and> (if found = [] then blocks = [encoded] else blocks = found \<and> TrimSpace (string_of rest) = []))"

lemma decode_Ok:
  assumes "pem_shrinks ps"
  shows "decode ps f path encoded = Ok cs \<longleftrightarrow>
     (\<exists>blocks. file_blocks ps encoded blocks \<and> length cs = length blocks
        \<and> (\<forall>j<length blocks. \<exists>m. parseMaterial ps (blocks ! j) = Ok m
             \<and> cs ! j = (template f path j (length blocks))\<lparr>cand_Material := Some m\<rparr>))"
proof -
  obtain found rest where loop: "pem_loop (Suc (length encoded)) ps encoded = Some (found, rest)"
    using pem_loop_total [OF assms, of encoded "Suc (length encoded)"] by auto
  have split: "pem_split ps encoded blocks r \<longleftrightarrow> blocks = found \<and> r = rest" for blocks r
    using pem_loop_split [OF assms, of encoded "Suc (length encoded)" blocks r] loop by auto
  have blocks: "file_blocks ps encoded blocks \<longleftrightarrow>
      (if found = [] then blocks = [encoded] else blocks = found \<and> TrimSpace (string_of rest) = [])" for blocks
    by (simp add: file_blocks_def split)
  show ?thesis
  proof (cases "found = []")
    case True
    then show ?thesis unfolding blocks by (simp add: decode_def loop decode_blocks_Ok)
  next
    case False
    then show ?thesis unfolding blocks by (auto simp: decode_def loop decode_blocks_Ok)
  qed
qed

lemma decode_not_Panic:
  assumes "pem_shrinks ps"
  shows "decode ps f path encoded \<noteq> Panic p"
proof -
  obtain found rest where "pem_loop (Suc (length encoded)) ps encoded = Some (found, rest)"
    using pem_loop_total [OF assms, of encoded "Suc (length encoded)"] by auto
  then show ?thesis by (simp add: decode_def decode_blocks_not_Panic)
qed

text \<open>What the hash of a load is given.\<close>

definition written_for :: "string list \<Rightarrow> bytes list \<Rightarrow> bytes" where
  "written_for files texts = concat (map2 (\<lambda>path encoded. bytes_of path @ [0] @ encoded) files texts)"

lemma map_Ok_inject [simp]: "map Ok xs = map Ok ys \<longleftrightarrow> xs = ys"
  by (simp add: inj_def inj_map_eq_map)

lemma load_files_Ok:
  "load_files ps fs f ctx i files written keys = Ok (keys', written') \<longleftrightarrow>
     (\<exists>texts loaded.
        (\<forall>j<length files. ctx (i + j) = None)
        \<and> map (fs_ReadFile fs) files = map Inr texts
        \<and> map2 (decode ps f) files texts = map Ok loaded
        \<and> keys' = keys @ concat loaded \<and> written' = written @ written_for files texts)"
proof (induction files arbitrary: i written keys)
  case Nil
  then show ?case by (auto simp: written_for_def)
next
  case (Cons path files)
  show ?case
  proof (cases "ctx i")
    case (Some err)
    then show ?thesis by (auto intro!: exI [of _ "0 :: nat"])
  next
    case live: None
    show ?thesis
    proof (cases "fs_ReadFile fs path")
      case (Inl err)
      then show ?thesis using live by auto
    next
      case (Inr encoded)
      show ?thesis
      proof (cases "decode ps f path encoded")
        case (Ok cs)
        show ?thesis
          using live Inr Ok
          by (auto simp: Cons.IH All_less_Suc2 written_for_def Cons_eq_map_conv map_eq_Cons_conv)
      qed (use live Inr in \<open>auto simp: Cons_eq_map_conv map_eq_Cons_conv\<close>)
    qed
  qed
qed

text \<open>The files of a source: itself, or the regular files of a directory, in order.\<close>

lemma entry_files_eq:
  "entry_files path entries = map (filepath_Join path \<circ> entry_Name)
     (filter (\<lambda>e. entry_Type e = RegularFile \<or> (entry_Type e = Symlink \<and> entry_Info e = Inr RegularFile)) entries)"
  by (induction entries) auto

lemma sourceFiles_sorted: "sourceFiles fs path = Ok files \<Longrightarrow> sorted files"
  by (auto simp: sourceFiles_def split: sum.splits if_splits)

text \<open>
  An entry that is a symbolic link says so in its \<^verbatim>\<open>Info()\<close> as well, since that describes the link and
  not its target.
\<close>

definition info_of_entry :: "file_system \<Rightarrow> bool" where
  "info_of_entry fs \<longleftrightarrow>
     (\<forall>path entries e. fs_ReadDir fs path = Inr entries \<longrightarrow> e \<in> set entries \<longrightarrow> entry_Type e = Symlink \<longrightarrow>
        entry_Info e \<noteq> Inr RegularFile)"

text \<open>So the branch of the source code for links to regular files never adds a file.\<close>

lemma symlinks_ignored:
  assumes "info_of_entry fs" "fs_Stat fs path = Inr Directory" "fs_ReadDir fs path = Inr entries"
  shows "sourceFiles fs path =
     Ok (sort (map (filepath_Join path \<circ> entry_Name) (filter (\<lambda>e. entry_Type e = RegularFile) entries)))"
proof -
  have "filter (\<lambda>e. entry_Type e = RegularFile \<or> (entry_Type e = Symlink \<and> entry_Info e = Inr RegularFile)) entries
      = filter (\<lambda>e. entry_Type e = RegularFile) entries"
    using assms(1,3) by (intro filter_cong) (auto simp: info_of_entry_def)
  then show ?thesis using assms(2,3) by (simp add: sourceFiles_def entry_files_eq)
qed

text \<open>
  The hash is given path, separator and contents of each file, with nothing between files: two files
  can look to it like one whose contents end with the path, the separator and the contents of the other.
\<close>

lemma snapshot_ambiguous:
  "written_for [''d/a'', ''d/b''] [x, y] = written_for [''d/a''] [x @ bytes_of ''d/b'' @ [0] @ y]"
  by (simp add: written_for_def)

section \<open>The contracts of the source\<close>

text \<open>Every candidate carries the template's source, or the source's own identifier.\<close>

lemma template_source [simp]: "cand_Source (template f path i n) = firstNonEmpty (cand_Source (fl_candidate f)) (pl_id f)"
  by (simp add: template_def Let_def)

lemma decode_sources:
  assumes "decode ps f path encoded = Ok cs" "c \<in> set cs"
  shows "cand_Source c = firstNonEmpty (cand_Source (fl_candidate f)) (pl_id f)"
proof -
  obtain n blocks where "decode_blocks ps f path n 0 blocks [] = Ok cs"
    using assms(1) by (auto simp: decode_def split: option.splits if_splits prod.splits)
  then show ?thesis using assms(2) by (auto simp: decode_blocks_Ok in_set_conv_nth)
qed

lemma file_load_sources:
  assumes "file_load ps fs ctx f = Ok (keys, snapshot)" "c \<in> set keys"
  shows "cand_Source c = firstNonEmpty (cand_Source (fl_candidate f)) (pl_id f)"
proof -
  obtain files texts loaded where k: "map2 (decode ps f) files texts = map Ok loaded" "keys = concat loaded"
    using assms(1) by (auto simp: file_load_def load_files_Ok split: option.splits)
  then obtain cs where cs: "cs \<in> set loaded" "c \<in> set cs" using assms(2) by auto
  then have "Ok cs \<in> set (map2 (decode ps f) files texts)" unfolding k(1) by simp
  then obtain path encoded where "decode ps f path encoded = Ok cs" by auto
  then show ?thesis using decode_sources cs(2) by blast
qed

definition file_labels :: "file_source \<Rightarrow> bool" where
  "file_labels f \<longleftrightarrow> cand_Source (fl_candidate f) \<in> {[], pl_id f}"

lemma startMonitorLocked_frame [simp]:
  "pl_id (startMonitorLocked f) = pl_id f" "pl_closed (startMonitorLocked f) = pl_closed f"
  "pl_cancelled (startMonitorLocked f) = pl_cancelled f" "pl_callback (startMonitorLocked f) = pl_callback f"
  "pl_snapshot (startMonitorLocked f) = pl_snapshot f" "fl_candidate (startMonitorLocked f) = fl_candidate f"
  by (simp_all add: startMonitorLocked_def)

text \<open>What one call of \<^verbatim>\<open>Load\<close> is given.\<close>

record file_input =
  fin_parsers :: file_parsers
  fin_system :: file_system
  fin_context :: "ctxt option"

definition file_load_with :: "file_input \<Rightarrow> file_source \<Rightarrow> file_source \<times> KeyCandidate list res" where
  "file_load_with x = file_Load (fin_parsers x) (fin_system x) (fin_context x)"

lemma file_Load_result:
  "file_Load ps fs context f = (f', r) \<Longrightarrow>
     pl_id f' = pl_id f \<and> fl_candidate f' = fl_candidate f
     \<and> (\<forall>keys. r = Ok keys \<longrightarrow> (\<exists>ctx snapshot. file_load ps fs ctx f = Ok (keys, snapshot)))
     \<and> (pl_closed f \<longrightarrow> f' = f \<and> (\<exists>e. r = Err e))"
  by (auto simp: file_Load_def file_commit_def split: option.splits if_splits res.splits prod.splits)

interpretation fsrc: candidate_source pl_id file_load_with file_Close pl_closed file_labels "\<lambda>x. True"
proof
  fix f :: file_source and x :: file_input and cs c
  note res = file_Load_result [of "fin_parsers x" "fin_system x" "fin_context x" f
      "fst (file_load_with x f)" "snd (file_load_with x f)"]
  show "pl_id (fst (file_load_with x f)) = pl_id f" using res by (simp add: file_load_with_def)
  show "file_labels (fst (file_load_with x f))" if "file_labels f"
    using res that by (simp add: file_load_with_def file_labels_def)
  show "cand_Source c = pl_id f" if labels: "file_labels f" and ok: "snd (file_load_with x f) = Ok cs" and c: "c \<in> set cs"
  proof -
    obtain ctx snapshot where "file_load (fin_parsers x) (fin_system x) ctx f = Ok (cs, snapshot)"
      using res ok by (auto simp: file_load_with_def)
    from file_load_sources [OF this c] labels show ?thesis
      by (auto simp: file_labels_def firstNonEmpty_def)
  qed
  show "fst (file_load_with x f) = f \<and> (\<exists>e. snd (file_load_with x f) = Err e)" if "pl_closed f"
    using res that by (simp add: file_load_with_def)
qed (simp_all add: file_Close_def file_labels_def)

text \<open>As a polled source, a read of it sees the file system and the checks of its context.\<close>

definition file_ops :: "file_parsers \<Rightarrow> (file_source, file_system \<times> ctxt) poll_ops" where
  "file_ops ps = \<lparr>
     op_commit = file_commit, op_shut = (\<lambda>f. fst (file_Close f)), op_callback = file_SetRefreshCallback,
     op_compare = file_compare, op_accept = file_accept,
     op_fetch = (\<lambda>lifetime f (fs, ctx). read_result (file_load ps fs
       (if lifetime \<and> pl_cancelled f then (\<lambda>_. Some ContextCanceled) else ctx) f))\<rparr>"

interpretation fpoll: polled_source "file_ops ps" poll_view for ps
proof
  fix keys keys' snapshot s s' e cb
  show "keys' = keys \<and> \<not> pl_closed (poll_view s)
      \<and> (\<exists>b. poll_view s' = (poll_view s)\<lparr>pl_snapshot := snapshot, pl_started := b,
                 pl_watches := pl_watches (poll_view s) + (if b \<and> \<not> pl_started (poll_view s) then 1 else 0)\<rparr>
             \<and> (pl_started (poll_view s) \<longrightarrow> b))"
    if "op_commit (file_ops ps) keys snapshot s = (s', Ok keys')"
    using that by (auto simp: file_ops_def file_commit_def poll_view_eq startMonitorLocked_def split: if_splits)
  show "s' = s" if "op_commit (file_ops ps) keys snapshot s = (s', Err e)"
    using that by (auto simp: file_ops_def file_commit_def split: if_splits)
  show "\<exists>e. op_commit (file_ops ps) keys snapshot s = (s, Err e)" if "pl_closed (poll_view s)"
    using that by (simp add: file_ops_def file_commit_def)
  show "\<exists>s'. op_commit (file_ops ps) keys snapshot s = (s', Ok keys)" if "\<not> pl_closed (poll_view s)"
    using that by (simp add: file_ops_def file_commit_def)
  show "poll_view (op_shut (file_ops ps) s) = (if pl_closed (poll_view s) then poll_view s
      else (poll_view s)\<lparr>pl_closed := True, pl_cancelled := True\<rparr>)"
    by (simp add: file_ops_def file_Close_def poll_view_eq)
  show "\<exists>b. poll_view (op_callback (file_ops ps) cb s) = (poll_view s)\<lparr>pl_callback := cb, pl_started := b,
          pl_watches := pl_watches (poll_view s) + (if b \<and> \<not> pl_started (poll_view s) then 1 else 0)\<rparr>
      \<and> (pl_started (poll_view s) \<longrightarrow> b)
      \<and> (b \<and> \<not> pl_started (poll_view s) \<longrightarrow> pl_snapshot (poll_view s) \<noteq> [] \<and> \<not> pl_closed (poll_view s))"
    by (auto simp: file_ops_def file_SetRefreshCallback_def poll_view_eq startMonitorLocked_def)
  show "op_compare (file_ops ps) snapshot s = (if snapshot = pl_snapshot (poll_view s) then None else pl_callback (poll_view s))"
    by (simp add: file_ops_def file_compare_def)
  show "poll_view (op_accept (file_ops ps) snapshot s) = (poll_view s)\<lparr>pl_snapshot := snapshot\<rparr>"
    by (simp add: file_ops_def file_accept_def poll_view_eq)
  show "\<exists>e. op_fetch (file_ops ps) True s w = Inl e" if "pl_cancelled (poll_view s)" for w
    using that by (cases w) (simp add: file_ops_def file_load_def read_result_def)
qed

text \<open>Reading does not depend on the callback.\<close>

lemma file_load_callback: "file_load ps fs ctx (f\<lparr>pl_callback := cb\<rparr>) = file_load ps fs ctx f"
proof -
  have "decode_blocks ps (f\<lparr>pl_callback := cb\<rparr>) path n i bs r = decode_blocks ps f path n i bs r" for path n i bs r
    by (induction bs arbitrary: i r) (simp_all add: decode_blocks.simps template_def split: res.split)
  then have "decode ps (f\<lparr>pl_callback := cb\<rparr>) path e = decode ps f path e" for path e
    by (simp add: decode_def split: option.split)
  then have "load_files ps fs (f\<lparr>pl_callback := cb\<rparr>) ctx i files w ks = load_files ps fs f ctx i files w ks"
    for i files w ks
    by (induction files arbitrary: i w ks) (simp_all split: option.split sum.split)
  then show ?thesis by (simp add: file_load_def split: option.split)
qed

section \<open>A sample source\<close>

text \<open>A directory with two files, each holding one public key in DER form.\<close>

definition sample_parsers :: file_parsers where
  "sample_parsers = \<lparr>
     pem_Decode = (\<lambda>_. None), parse_Certificate = (\<lambda>_. Inl (External 0)),
     parse_PKCS8PrivateKey = (\<lambda>_. Inl (External 0)), parse_PKCS1PrivateKey = (\<lambda>_. Inl (External 0)),
     parse_ECPrivateKey = (\<lambda>_. Inl (External 0)), parse_PKIXPublicKey = (\<lambda>der. Inr (PubEd25519 der)),
     parse_PKCS1PublicKey = (\<lambda>_. Inl (External 0)), sha256_Sum = (\<lambda>bs. bs)\<rparr>"

definition sample_files :: file_system where
  "sample_files = \<lparr>
     fs_Stat = (\<lambda>path. if path = ''d'' then Inr Directory else Inr RegularFile),
     fs_ReadDir = (\<lambda>path. Inr [\<lparr>entry_Name = ''b'', entry_Type = RegularFile, entry_Info = Inr RegularFile\<rparr>,
                               \<lparr>entry_Name = ''a'', entry_Type = RegularFile, entry_Info = Inr RegularFile\<rparr>,
                               \<lparr>entry_Name = ''c'', entry_Type = Symlink, entry_Info = Inr Symlink\<rparr>]),
     fs_ReadFile = (\<lambda>path. if path = ''d/a'' then Inr [1] else Inr [2])\<rparr>"

definition sample_file :: file_source where
  "sample_file = \<lparr>
     pl_id = ''f'', pl_cancelled = False, pl_callback = None, pl_started = False, pl_closed = False,
     pl_snapshot = [], pl_watches = 0, fl_path = ''d'', fl_monitor = True, fl_pollInterval = defaultFilePollInterval,
     fl_candidate = zero_KeyCandidate\<rparr>"

definition sample_file_key :: "string \<Rightarrow> byte \<Rightarrow> KeyCandidate" where
  "sample_file_key kid b = zero_KeyCandidate\<lparr>cand_ID := kid, cand_Source := ''f'', cand_Status := KeyStatusActive,
     cand_Material := Some (PublicMaterial (Some (PubEd25519 [b])))\<rparr>"

lemma sample_file_New: "file_New ''f'' ''d'' [Some (WithFileMonitoring True)] = Ok sample_file"
proof -
  have "TrimSpace ''f'' \<noteq> []" "TrimSpace ''d'' \<noteq> []" "filepath_Clean ''d'' = ''d''" by code_simp+
  then show ?thesis by (simp add: file_New_def WithFileMonitoring_def sample_file_def)
qed

lemma sample_pem: "pem_shrinks sample_parsers"
  by (simp add: pem_shrinks_def sample_parsers_def)

lemma sample_sourceFiles: "sourceFiles sample_files ''d'' = Ok [''d/a'', ''d/b'']"
proof -
  have "sort (entry_files ''d'' [\<lparr>entry_Name = ''b'', entry_Type = RegularFile, entry_Info = Inr RegularFile\<rparr>,
      \<lparr>entry_Name = ''a'', entry_Type = RegularFile, entry_Info = Inr RegularFile\<rparr>,
      \<lparr>entry_Name = ''c'', entry_Type = Symlink, entry_Info = Inr Symlink\<rparr>]) = [''d/a'', ''d/b'']"
    by code_simp
  then show ?thesis by (simp add: sourceFiles_def sample_files_def)
qed

lemma sample_decode:
  "decode sample_parsers sample_file ''d/a'' [1] = Ok [sample_file_key ''a'' 1]"
  "decode sample_parsers sample_file ''d/b'' [2] = Ok [sample_file_key ''b'' 2]"
proof -
  have "filepath_Base ''d/a'' = ''a''" "filepath_Base ''d/b'' = ''b''" by code_simp+
  then show "decode sample_parsers sample_file ''d/a'' [1] = Ok [sample_file_key ''a'' 1]"
    "decode sample_parsers sample_file ''d/b'' [2] = Ok [sample_file_key ''b'' 2]"
    by (simp_all add: decode_def pem_loop.simps decode_blocks.simps sample_parsers_def parseMaterial_def
        publicMaterial_def template_def sample_file_def sample_file_key_def zero_KeyCandidate_def
        firstNonEmpty_def fileKeyID_def)
qed

lemma sample_load:
  "file_load sample_parsers sample_files background sample_file =
     Ok ([sample_file_key ''a'' 1, sample_file_key ''b'' 2],
         hex_EncodeToString (written_for [''d/a'', ''d/b''] [[1], [2]]))"
proof -
  have "fl_path sample_file = ''d''" by (simp add: sample_file_def)
  moreover have "fs_ReadFile sample_files ''d/a'' = Inr [1]" "fs_ReadFile sample_files ''d/b'' = Inr [2]"
    by (simp_all add: sample_files_def)
  ultimately show ?thesis
    by (simp add: file_load_def sample_sourceFiles sample_decode written_for_def)
      (simp add: sample_parsers_def)
qed

section \<open>Properties\<close>

text \<open>C33: Reading a source is all or nothing. It succeeds if and only if the source is a regular file or a
  directory, every one of its files can be read and decoded, and the context is live at every check; the
  keys are then those of the files in the order of their paths, and the snapshot is the digest of all
  paths and contents that were read.\<close>

theorem file_load_exact:
  "file_load ps fs ctx f = Ok (keys, snapshot) \<longleftrightarrow>
     (\<exists>files texts loaded.
        sourceFiles fs (fl_path f) = Ok files \<and> sorted files
        \<and> (\<forall>i\<le>length files. ctx i = None)
        \<and> map (fs_ReadFile fs) files = map Inr texts
        \<and> map2 (decode ps f) files texts = map Ok loaded
        \<and> keys = concat loaded
        \<and> snapshot = hex_EncodeToString (sha256_Sum ps
            (concat (map2 (\<lambda>path encoded. bytes_of path @ [0] @ encoded) files texts))))"
proof -
  have split: "(\<forall>i\<le>n. ctx i = None) \<longleftrightarrow> ctx 0 = None \<and> (\<forall>j<n. ctx (Suc j) = None)" for n
    by (auto simp: less_Suc_eq_le [symmetric] All_less_Suc2)
  show ?thesis
  proof (cases "ctx 0")
    case None
    show ?thesis
    proof (cases "sourceFiles fs (fl_path f)")
      case (Ok files)
      then show ?thesis using None sourceFiles_sorted [OF Ok]
        by (auto simp: file_load_def load_files_Ok split written_for_def)
    qed (use None in \<open>simp_all add: file_load_def\<close>)
  next
    case (Some err)
    then show ?thesis unfolding split by (simp add: file_load_def)
  qed
qed

theorem file_load_exact_witness:
  "\<exists>files texts. sourceFiles sample_files (fl_path sample_file) = Ok files
     \<and> map (fs_ReadFile sample_files) files = map Inr texts \<and> length texts = 2"
proof -
  obtain files texts loaded where "sourceFiles sample_files (fl_path sample_file) = Ok files"
      "map (fs_ReadFile sample_files) files = map Inr texts"
      "map2 (decode sample_parsers sample_file) files texts = map Ok loaded"
    using sample_load unfolding file_load_exact by blast
  moreover have "files = [''d/a'', ''d/b'']"
    using calculation(1) sample_sourceFiles by (simp add: sample_file_def)
  ultimately show ?thesis by (metis length_map length_Cons list.size(3) numeral_2_eq_2)
qed

text \<open>C34: Decoding a file terminates and gives one candidate for each of its PEM blocks, or one for the whole
  file when it has no block; it fails when data follow the last block or a block has no known encoding.
  A candidate has the metadata of the template, and where the template leaves them empty the source's
  identifier, the status active, and an ID made of the file name and, among several, the number of the
  block.\<close>

theorem file_decode_exact:
  assumes "pem_shrinks ps"
  shows "(decode ps f path encoded = Ok cs \<longleftrightarrow>
       (\<exists>blocks. file_blocks ps encoded blocks \<and> length cs = length blocks
          \<and> (\<forall>j<length blocks. \<exists>m. parseMaterial ps (blocks ! j) = Ok m
               \<and> cs ! j = (fl_candidate f)\<lparr>
                    cand_Source := (if cand_Source (fl_candidate f) = [] then pl_id f else cand_Source (fl_candidate f)),
                    cand_ID := (if cand_ID (fl_candidate f) \<noteq> [] then cand_ID (fl_candidate f)
                      else if length blocks = 1 then filepath_Base path
                      else filepath_Base path @ ''#'' @ decimal (int j + 1)),
                    cand_Status := (if cand_Status (fl_candidate f) = [] then KeyStatusActive
                      else cand_Status (fl_candidate f)),
                    cand_Material := Some m\<rparr>)))
     \<and> (\<forall>p. decode ps f path encoded \<noteq> Panic p)"
proof -
  have t: "(template f path j (length blocks))\<lparr>cand_Material := Some m\<rparr> = (fl_candidate f)\<lparr>
                    cand_Source := (if cand_Source (fl_candidate f) = [] then pl_id f else cand_Source (fl_candidate f)),
                    cand_ID := (if cand_ID (fl_candidate f) \<noteq> [] then cand_ID (fl_candidate f)
                      else if length blocks = 1 then filepath_Base path
                      else filepath_Base path @ ''#'' @ decimal (int j + 1)),
                    cand_Status := (if cand_Status (fl_candidate f) = [] then KeyStatusActive
                      else cand_Status (fl_candidate f)),
                    cand_Material := Some m\<rparr>" if "j < length blocks" for j m and blocks :: "bytes list"
    using that by (auto simp: template_def Let_def firstNonEmpty_def fileKeyID_def)
  show ?thesis unfolding decode_Ok [OF assms] using decode_not_Panic [OF assms] by (auto simp: t)
qed

theorem file_decode_exact_witness:
  "file_blocks sample_parsers [1] [[1]] \<and> length [sample_file_key ''a'' 1] = length [[1 :: byte]]"
proof -
  have "\<exists>blocks. file_blocks sample_parsers [1] blocks \<and> length [sample_file_key ''a'' 1] = length blocks"
    using file_decode_exact [OF sample_pem, of sample_file "''d/a''" "[1]" "[sample_file_key ''a'' 1]"] sample_decode(1)
    by blast
  moreover have "file_blocks sample_parsers [1] blocks \<Longrightarrow> blocks = [[1]]" for blocks
    by (auto simp: file_blocks_def sample_parsers_def elim: pem_split.cases split: if_splits)
  ultimately show ?thesis by auto
qed

text \<open>C35: However loads, the watcher, changes of the callback and closing interleave, a source has at most one
  watcher. As long as no \<^verbatim>\<open>Load\<close> ran beside a watcher, the recorded snapshot is that of the keys the store
  was given last, whenever the watcher is not just about to record another, so a poll compares the files
  with what the store has; a poll that finds them changed hands the new keys over if the callback accepts
  them, and a failed read or a refused callback changes nothing. Once the source has been closed, at most
  one more list of keys, read before, reaches the store.\<close>

theorem file_source_polling:
  assumes "poll_initial poll_view S0" "(poll_step (file_ops ps) poll_view)\<^sup>*\<^sup>* S0 S"
  shows "length (py_watchers S) \<le> 1
     \<and> (\<not> py_overlap S \<longrightarrow> (\<forall>d. py_watchers S \<noteq> [Recording d]) \<longrightarrow>
          (py_handed S = [] \<and> pl_snapshot (py_source S) = [])
          \<or> (\<exists>keys rest. py_handed S = (keys, pl_snapshot (py_source S)) # rest))
     \<and> (\<forall>fs ctx keys d cb. py_watchers S = [Waiting] \<longrightarrow> \<not> pl_cancelled (py_source S) \<longrightarrow>
          pl_callback (py_source S) = Some cb \<longrightarrow> file_load ps fs ctx (py_source S) = Ok (keys, d) \<longrightarrow>
          (\<exists>S'. (poll_step (file_ops ps) poll_view)\<^sup>*\<^sup>* S S' \<and> pl_snapshot (py_source S') = d
             \<and> py_handed S' = (if d = pl_snapshot (py_source S) then py_handed S else (keys, d) # py_handed S)))
     \<and> (pl_closed (py_source S) \<longrightarrow> (\<forall>S'. (poll_step (file_ops ps) poll_view)\<^sup>*\<^sup>* S S' \<longrightarrow>
          length (py_handed S') \<le> length (py_handed S) + 1))"
proof -
  note polling = fpoll.polling [OF assms, unfolded poll_view_simps]
  have "op_fetch (file_ops ps) True f (fs, ctx) = Inr (keys, d)"
    if "\<not> pl_cancelled f" "file_load ps fs ctx f = Ok (keys, d)" for f fs ctx keys d
    using that by (simp add: file_ops_def read_result_def)
  then show ?thesis using polling by blast
qed

theorem file_source_polling_witness:
  "\<exists>S. (poll_step (file_ops sample_parsers) poll_view)\<^sup>*\<^sup>*
        \<lparr>py_source = sample_file\<lparr>pl_callback := Some ''f''\<rparr>, py_watchers = [], py_loads = [], py_handed = [], py_overlap = False\<rparr> S
     \<and> py_watchers S = [Waiting] \<and> pl_snapshot (py_source S) \<noteq> []
     \<and> (\<exists>keys rest. py_handed S = (keys, pl_snapshot (py_source S)) # rest)"
proof -
  let ?ops = "file_ops sample_parsers"
  let ?f = "sample_file\<lparr>pl_callback := Some ''f''\<rparr>"
  let ?keys = "[sample_file_key ''a'' 1, sample_file_key ''b'' 2]"
  let ?d = "hex_EncodeToString (written_for [''d/a'', ''d/b''] [[1], [2]])"
  let ?S0 = "\<lparr>py_source = ?f, py_watchers = [], py_loads = [], py_handed = [], py_overlap = False\<rparr>"
  let ?S1 = "?S0\<lparr>py_loads := [(?keys, ?d)]\<rparr>"
  let ?f2 = "?f\<lparr>pl_snapshot := ?d, pl_started := True, pl_watches := 1\<rparr>"
  let ?S2 = "\<lparr>py_source = ?f2, py_watchers = [Waiting], py_loads = [], py_handed = [(?keys, ?d)], py_overlap = False\<rparr>"
  have init: "poll_initial poll_view ?S0" by (simp add: poll_initial_def sample_file_def)
  have d: "?d \<noteq> []" by (simp add: written_for_def)
  have load: "file_load sample_parsers sample_files background ?f = Ok (?keys, ?d)"
    using sample_load by (simp add: file_load_callback)
  have open_f: "\<not> pl_closed ?f" by (simp add: sample_file_def)
  have s1: "poll_step ?ops poll_view ?S0 ?S1"
    using poll_step.load_read [of poll_view ?S0 ?ops "(sample_files, background)" ?keys ?d] load open_f
    by (simp add: file_ops_def read_result_def)
  have c: "file_commit ?keys ?d ?f = (?f2, Ok ?keys)"
    using d by (simp add: file_commit_def startMonitorLocked_def sample_file_def)
  have s2: "poll_step ?ops poll_view ?S1 ?S2"
    using poll_step.load_commit [of ?keys ?d ?S1 ?ops ?f2 ?keys poll_view] c
    by (simp add: file_ops_def poll_spawned_def sample_file_def)
  have run: "(poll_step ?ops poll_view)\<^sup>*\<^sup>* ?S0 ?S2"
    using s1 s2 by (meson converse_rtranclp_into_rtranclp rtranclp.rtrancl_refl)
  from file_source_polling [OF init run] run d show ?thesis by (intro exI [of _ ?S2]) auto
qed

end
