(* ===== verification/Base64.thy ===== *)
theory Base64
  imports Go_Std
begin

text \<open>
  The package \<^verbatim>\<open>encoding/base64\<close>, as far as the JOSE codecs and the signers use it: the unpadded URL
  alphabet of \<^verbatim>\<open>RawURLEncoding\<close> and the padded alphabet of \<^verbatim>\<open>StdEncoding\<close>. The decoder is the lenient one
  of the library: it skips carriage returns and line feeds, and ignores the unused bits of the last
  character.
\<close>

record base64_encoding =
  b64_alphabet :: string
  b64_padded :: bool

definition RawURLEncoding :: base64_encoding where
  "RawURLEncoding = \<lparr>b64_alphabet = ''ABCDEFGHIJKLMNOPQRSTUVWXYZabcdefghijklmnopqrstuvwxyz0123456789-_'',
     b64_padded = False\<rparr>"

definition StdEncoding :: base64_encoding where
  "StdEncoding = \<lparr>b64_alphabet = ''ABCDEFGHIJKLMNOPQRSTUVWXYZabcdefghijklmnopqrstuvwxyz0123456789+/'',
     b64_padded = True\<rparr>"

section \<open>Encoding\<close>

definition b64_char :: "base64_encoding \<Rightarrow> nat \<Rightarrow> char" where
  "b64_char enc v = b64_alphabet enc ! v"

fun b64_EncodeToString :: "base64_encoding \<Rightarrow> bytes \<Rightarrow> string" where
  "b64_EncodeToString enc [] = []"
| "b64_EncodeToString enc [a] =
     [b64_char enc (unat a div 4), b64_char enc (unat a mod 4 * 16)]
     @ (if b64_padded enc then ''=='' else [])"
| "b64_EncodeToString enc [a, b] =
     [b64_char enc (unat a div 4), b64_char enc (unat a mod 4 * 16 + unat b div 16),
      b64_char enc (unat b mod 16 * 4)]
     @ (if b64_padded enc then ''='' else [])"
| "b64_EncodeToString enc (a # b # c # rest) =
     [b64_char enc (unat a div 4), b64_char enc (unat a mod 4 * 16 + unat b div 16),
      b64_char enc (unat b mod 16 * 4 + unat c div 64), b64_char enc (unat c mod 64)]
     @ b64_EncodeToString enc rest"

section \<open>Decoding\<close>

fun index_of :: "'a \<Rightarrow> 'a list \<Rightarrow> nat option" where
  "index_of x [] = None"
| "index_of x (y # ys) = (if x = y then Some 0 else map_option Suc (index_of x ys))"

definition b64_value :: "base64_encoding \<Rightarrow> char \<Rightarrow> nat option" where
  "b64_value enc c = index_of c (b64_alphabet enc)"

definition first_byte :: "nat \<Rightarrow> nat \<Rightarrow> byte" where
  "first_byte v w = word_of_nat (v * 4 + w div 16)"

definition second_byte :: "nat \<Rightarrow> nat \<Rightarrow> byte" where
  "second_byte w x = word_of_nat (w mod 16 * 16 + x div 4)"

definition third_byte :: "nat \<Rightarrow> nat \<Rightarrow> byte" where
  "third_byte x y = word_of_nat (x mod 4 * 64 + y)"

text \<open>The groups of four characters, the last of which may be shorter or padded.\<close>

fun b64_groups :: "base64_encoding \<Rightarrow> string \<Rightarrow> bytes option" where
  "b64_groups enc [] = Some []"
| "b64_groups enc [c] = None"
| "b64_groups enc [c, d] =
     (if b64_padded enc then None
      else (case (b64_value enc c, b64_value enc d) of
              (Some v, Some w) \<Rightarrow> Some [first_byte v w]
            | _ \<Rightarrow> None))"
| "b64_groups enc [c, d, e] =
     (if b64_padded enc then None
      else (case (b64_value enc c, b64_value enc d, b64_value enc e) of
              (Some v, Some w, Some x) \<Rightarrow> Some [first_byte v w, second_byte w x]
            | _ \<Rightarrow> None))"
| "b64_groups enc (c # d # e # f # rest) =
     (case (b64_value enc c, b64_value enc d) of
        (Some v, Some w) \<Rightarrow>
          (case b64_value enc e of
             None \<Rightarrow>
               if b64_padded enc \<and> e = CHR ''='' \<and> f = CHR ''='' \<and> rest = [] then Some [first_byte v w]
               else None
           | Some x \<Rightarrow>
               (case b64_value enc f of
                  None \<Rightarrow>
                    if b64_padded enc \<and> f = CHR ''='' \<and> rest = [] then Some [first_byte v w, second_byte w x]
                    else None
                | Some y \<Rightarrow>
                    map_option (\<lambda>bs. first_byte v w # second_byte w x # third_byte x y # bs)
                      (b64_groups enc rest)))
      | _ \<Rightarrow> None)"

definition b64_CorruptInputError :: error where
  "b64_CorruptInputError = External 64"

definition b64_DecodeString :: "base64_encoding \<Rightarrow> string \<Rightarrow> error + bytes" where
  "b64_DecodeString enc s =
     (case b64_groups enc (filter (\<lambda>c. c \<noteq> CHR 0x0A \<and> c \<noteq> CHR 0x0D) s) of
        None \<Rightarrow> Inl b64_CorruptInputError
      | Some bs \<Rightarrow> Inr bs)"

section \<open>The round trip\<close>

definition sound_encoding :: "base64_encoding \<Rightarrow> bool" where
  "sound_encoding enc \<longleftrightarrow> length (b64_alphabet enc) = 64 \<and> distinct (b64_alphabet enc)
     \<and> CHR ''='' \<notin> set (b64_alphabet enc) \<and> CHR 0x0A \<notin> set (b64_alphabet enc) \<and> CHR 0x0D \<notin> set (b64_alphabet enc)"

lemma sound_encodings: "sound_encoding RawURLEncoding" "sound_encoding StdEncoding"
  by code_simp+

lemma index_of_nth: "distinct xs \<Longrightarrow> i < length xs \<Longrightarrow> index_of (xs ! i) xs = Some i"
proof (induction xs arbitrary: i)
  case (Cons x xs)
  then show ?case by (cases i) auto
qed simp

lemma index_of_None: "x \<notin> set xs \<Longrightarrow> index_of x xs = None"
  by (induction xs) auto

lemma b64_value_char: "sound_encoding enc \<Longrightarrow> v < 64 \<Longrightarrow> b64_value enc (b64_char enc v) = Some v"
  by (simp add: b64_value_def b64_char_def sound_encoding_def index_of_nth)

lemma b64_value_pad: "sound_encoding enc \<Longrightarrow> b64_value enc (CHR ''='') = None"
  by (simp add: b64_value_def sound_encoding_def index_of_None)

lemma b64_char_in: "sound_encoding enc \<Longrightarrow> v < 64 \<Longrightarrow> b64_char enc v \<in> set (b64_alphabet enc)"
  by (simp add: b64_char_def sound_encoding_def)

lemma byte_bound [simp]: "unat (b :: byte) < 256"
  using unsigned_less [of b, where 'a = nat] by simp

lemma byte_quotients:
  "unat (b :: byte) div 4 < 64" "unat b div 16 < 16" "unat b div 64 < 4"
  using byte_bound [of b] by (simp_all add: div_less_iff_less_mult del: byte_bound)

lemma sextets:
  "unat (a :: byte) div 4 < 64" "unat (a :: byte) mod 4 * 16 < 64"
  "unat (a :: byte) mod 4 * 16 + unat (b :: byte) div 16 < 64"
  "unat (b :: byte) mod 16 * 4 < 64" "unat (b :: byte) mod 16 * 4 + unat (c :: byte) div 64 < 64"
  "unat (c :: byte) mod 64 < 64"
proof -
  have "unat a mod 4 * 16 \<le> 48" "unat b mod 16 * 4 \<le> 60"
    using mod_less_divisor [of 4 "unat a"] mod_less_divisor [of 16 "unat b"] by linarith+
  then show "unat (a :: byte) mod 4 * 16 < 64" "unat (b :: byte) mod 16 * 4 < 64"
    "unat (a :: byte) mod 4 * 16 + unat (b :: byte) div 16 < 64"
    "unat (b :: byte) mod 16 * 4 + unat (c :: byte) div 64 < 64"
    using byte_quotients [of b] byte_quotients [of c] by linarith+
qed (simp_all add: byte_quotients)

lemma bytes_again:
  "first_byte (unat a div 4) (unat a mod 4 * 16) = a"
  "first_byte (unat a div 4) (unat a mod 4 * 16 + unat b div 16) = a"
  "second_byte (unat a mod 4 * 16 + unat b div 16) (unat b mod 16 * 4) = b"
  "second_byte (unat a mod 4 * 16 + unat b div 16) (unat b mod 16 * 4 + unat c div 64) = b"
  "third_byte (unat b mod 16 * 4 + unat c div 64) (unat c mod 64) = c"
proof -
  note small = byte_quotients(2) [of b] byte_quotients(3) [of c]
  have sums: "unat a div 4 * 4 + (unat a mod 4 * 16 + unat b div 16) div 16 = unat a"
    "(unat a mod 4 * 16 + unat b div 16) mod 16 * 16 + (unat b mod 16 * 4 + unat c div 64) div 4 = unat b"
    "(unat b mod 16 * 4 + unat c div 64) mod 4 * 64 + unat c mod 64 = unat c"
    using small by (simp_all add: mod_mult_self3 div_mult_self3)
  show "first_byte (unat a div 4) (unat a mod 4 * 16) = a"
    by (simp add: first_byte_def flip: word_unat_eq_iff)
  show "first_byte (unat a div 4) (unat a mod 4 * 16 + unat b div 16) = a"
    unfolding first_byte_def sums by simp
  show "second_byte (unat a mod 4 * 16 + unat b div 16) (unat b mod 16 * 4) = b"
    using small by (simp add: second_byte_def)
  show "second_byte (unat a mod 4 * 16 + unat b div 16) (unat b mod 16 * 4 + unat c div 64) = b"
    unfolding second_byte_def sums by simp
  show "third_byte (unat b mod 16 * 4 + unat c div 64) (unat c mod 64) = c"
    unfolding third_byte_def sums by simp
qed

lemma b64_groups_encode:
  "sound_encoding enc \<Longrightarrow> b64_groups enc (b64_EncodeToString enc bs) = Some bs"
  by (induction enc bs rule: b64_EncodeToString.induct)
    (simp_all add: b64_value_char b64_value_pad sextets bytes_again)

text \<open>An encoded string has characters of the alphabet and padding only.\<close>

lemma b64_EncodeToString_chars:
  "sound_encoding enc \<Longrightarrow> set (b64_EncodeToString enc bs) \<subseteq> set (b64_alphabet enc) \<union> {CHR ''=''}"
  by (induction enc bs rule: b64_EncodeToString.induct) (auto simp: b64_char_in sextets)

lemma b64_EncodeToString_Nil_iff [simp]: "b64_EncodeToString enc bs = [] \<longleftrightarrow> bs = []"
  by (cases "(enc, bs)" rule: b64_EncodeToString.cases) auto

lemma b64_roundtrip:
  assumes "sound_encoding enc"
  shows "b64_DecodeString enc (b64_EncodeToString enc bs) = Inr bs"
proof -
  have "filter (\<lambda>c. c \<noteq> CHR 0x0A \<and> c \<noteq> CHR 0x0D) (b64_EncodeToString enc bs) = b64_EncodeToString enc bs"
    using b64_EncodeToString_chars [OF assms, of bs] assms
    by (auto simp: filter_id_conv sound_encoding_def)
  then show ?thesis by (simp add: b64_DecodeString_def b64_groups_encode assms)
qed

lemmas b64_roundtrips [simp] = sound_encodings [THEN b64_roundtrip]

end
