(* ===== verification/Json.thy ===== *)
theory Json
  imports Go_Std
begin

text \<open>
  The package \<^verbatim>\<open>encoding/json\<close>, as far as the codecs of JWKs, key sets and JWS headers use it. Values are
  the datatype \<open>json\<close>; \<open>json_text\<close> is the compact form that \<^verbatim>\<open>Marshal\<close> writes, with its escapes for HTML;
  the parser is the full grammar of the decoder, with its limit on nesting, its treatment of malformed
  UTF-8 and of surrogates. Structs are described by their fields, each with the name of its tag and the
  way a value is stored in it.
\<close>

section \<open>UTF-8\<close>

abbreviation code :: "char \<Rightarrow> nat" where
  "code \<equiv> of_char"

definition continuation :: "char \<Rightarrow> bool" where
  "continuation c \<longleftrightarrow> 0x80 \<le> code c \<and> code c \<le> 0xBF"

text \<open>The bounds of the second byte, which exclude overlong forms, surrogates and code points that are too big.\<close>

definition second_low :: "nat \<Rightarrow> nat" where
  "second_low b = (if b = 0xE0 then 0xA0 else if b = 0xF0 then 0x90 else 0x80)"

definition second_high :: "nat \<Rightarrow> nat" where
  "second_high b = (if b = 0xED then 0x9F else if b = 0xF4 then 0x8F else 0xBF)"

text \<open>The number of bytes of the first character, and 0 when the first byte begins no valid one.\<close>

fun rune_size :: "string \<Rightarrow> nat" where
  "rune_size [] = 0"
| "rune_size (c # cs) =
     (if code c < 0x80 then 1
      else if 0xC2 \<le> code c \<and> code c \<le> 0xDF then
        (if 1 \<le> length cs \<and> continuation (cs ! 0) then 2 else 0)
      else if 0xE0 \<le> code c \<and> code c \<le> 0xEF then
        (if 2 \<le> length cs \<and> second_low (code c) \<le> code (cs ! 0) \<and> code (cs ! 0) \<le> second_high (code c)
            \<and> continuation (cs ! 1) then 3 else 0)
      else if 0xF0 \<le> code c \<and> code c \<le> 0xF4 then
        (if 3 \<le> length cs \<and> second_low (code c) \<le> code (cs ! 0) \<and> code (cs ! 0) \<le> second_high (code c)
            \<and> continuation (cs ! 1) \<and> continuation (cs ! 2) then 4 else 0)
      else 0)"

definition replacement :: string where
  "replacement = [CHR 0xEF, CHR 0xBF, CHR 0xBD]"

lemma rune_size_bound: "rune_size s \<le> length s"
  by (cases s) auto

lemma rune_size_prefix:
  assumes "0 < rune_size s"
  shows "rune_size (take (rune_size s) s @ t) = rune_size s"
  using assms by (cases s) (auto simp: nth_append numeral_2_eq_2 numeral_3_eq_3 nth_Cons' split: if_splits)

text \<open>A string with every malformed byte replaced.\<close>

function to_valid :: "string \<Rightarrow> string" where
  "to_valid [] = []"
| "to_valid (c # cs) =
     (if rune_size (c # cs) = 0 then replacement @ to_valid cs
      else take (rune_size (c # cs)) (c # cs) @ to_valid (drop (rune_size (c # cs)) (c # cs)))"
  by pat_completeness auto
termination by (relation "measure length") auto

definition valid_utf8 :: "string \<Rightarrow> bool" where
  "valid_utf8 s \<longleftrightarrow> to_valid s = s"

declare rune_size.simps(2) [simp del] to_valid.simps(2) [simp del]

lemma rune_size_ASCII: "code c < 0x80 \<Longrightarrow> rune_size (c # cs) = 1"
  by (simp add: rune_size.simps)

lemma to_valid_ASCII: "code c < 0x80 \<Longrightarrow> to_valid (c # cs) = c # to_valid cs"
  by (simp add: to_valid.simps rune_size_ASCII)

definition ASCII :: "string \<Rightarrow> bool" where
  "ASCII s \<longleftrightarrow> (\<forall>c\<in>set s. code c < 0x80)"

lemma ASCII_simps [simp]: "ASCII []" "ASCII (c # cs) \<longleftrightarrow> code c < 0x80 \<and> ASCII cs"
  "ASCII (s @ t) \<longleftrightarrow> ASCII s \<and> ASCII t"
  by (auto simp: ASCII_def)

lemma to_valid_ASCII_string: "ASCII s \<Longrightarrow> to_valid s = s"
  by (induction s) (simp_all add: to_valid_ASCII)

lemma ASCII_valid: "ASCII s \<Longrightarrow> valid_utf8 s"
  by (simp add: valid_utf8_def to_valid_ASCII_string)

text \<open>The UTF-8 form of a code point.\<close>

definition encode_rune :: "nat \<Rightarrow> string" where
  "encode_rune n =
     (if n < 0x80 then [char_of n]
      else if n < 0x800 then [char_of (0xC0 + n div 0x40), char_of (0x80 + n mod 0x40)]
      else if n < 0x10000 then
        [char_of (0xE0 + n div 0x1000), char_of (0x80 + n div 0x40 mod 0x40), char_of (0x80 + n mod 0x40)]
      else
        [char_of (0xF0 + n div 0x40000), char_of (0x80 + n div 0x1000 mod 0x40),
         char_of (0x80 + n div 0x40 mod 0x40), char_of (0x80 + n mod 0x40)])"

section \<open>Values and their text\<close>

text \<open>
  A number is kept as its literal. Each element of an array is kept with its text, which is what a
  \<^verbatim>\<open>json.RawMessage\<close> holds.
\<close>

datatype json =
    JNull
  | JBool bool
  | JNumber string
  | JString string
  | JArray "(string \<times> json) list"
  | JObject "(string \<times> json) list"

definition backslash :: char where
  "backslash = CHR 0x5C"

text \<open>The escape of an ASCII character.\<close>

definition escape :: "char \<Rightarrow> string" where
  "escape c =
     (if c = CHR 0x22 \<or> c = backslash then [backslash, c]
      else if c = CHR 0x08 then [backslash, CHR ''b'']
      else if c = CHR 0x0C then [backslash, CHR ''f'']
      else if c = CHR 0x0A then [backslash, CHR ''n'']
      else if c = CHR 0x0D then [backslash, CHR ''r'']
      else if c = CHR 0x09 then [backslash, CHR ''t'']
      else if code c < 0x20 \<or> c = CHR ''<'' \<or> c = CHR ''>'' \<or> c = CHR ''&''
      then [backslash, CHR ''u'', CHR ''0'', CHR ''0'', hex_digit (code c div 16), hex_digit (code c mod 16)]
      else [c])"

text \<open>The line separators U+2028 and U+2029, which are escaped as well.\<close>

definition line_separators :: "string list" where
  "line_separators = [[CHR 0xE2, CHR 0x80, CHR 0xA8], [CHR 0xE2, CHR 0x80, CHR 0xA9]]"

function quote_chars :: "string \<Rightarrow> string" where
  "quote_chars [] = []"
| "quote_chars (c # cs) =
     (if code c < 0x80 then escape c @ quote_chars cs
      else if rune_size (c # cs) = 0 then backslash # ''ufffd'' @ quote_chars cs
      else
        (let rune = take (rune_size (c # cs)) (c # cs);
             rest = quote_chars (drop (rune_size (c # cs)) (c # cs))
         in if rune = line_separators ! 0 then backslash # ''u2028'' @ rest
            else if rune = line_separators ! 1 then backslash # ''u2029'' @ rest
            else rune @ rest))"
  by pat_completeness auto
termination by (relation "measure length") auto

declare quote_chars.simps(2) [simp del]

definition json_quote :: "string \<Rightarrow> string" where
  "json_quote s = CHR 0x22 # quote_chars s @ [CHR 0x22]"

fun comma_separated :: "string list \<Rightarrow> string" where
  "comma_separated [] = []"
| "comma_separated [s] = s"
| "comma_separated (s # ss) = s @ '','' @ comma_separated ss"

fun json_text :: "json \<Rightarrow> string" where
  "json_text JNull = ''null''"
| "json_text (JBool b) = (if b then ''true'' else ''false'')"
| "json_text (JNumber s) = s"
| "json_text (JString s) = json_quote s"
| "json_text (JArray xs) = ''['' @ comma_separated (map fst xs) @ '']''"
| "json_text (JObject ms) =
     ''{'' @ comma_separated (map (\<lambda>(name, v). json_quote name @ '':'' @ json_text v) ms) @ ''}''"

definition json_strings :: "string list \<Rightarrow> json" where
  "json_strings ss = JArray (map (\<lambda>s. (json_quote s, JString s)) ss)"

section \<open>The parser\<close>

definition is_space :: "char \<Rightarrow> bool" where
  "is_space c \<longleftrightarrow> c \<in> {CHR 0x20, CHR 0x09, CHR 0x0A, CHR 0x0D}"

definition skip_space :: "string \<Rightarrow> string" where
  "skip_space s = dropWhile is_space s"

definition is_digit :: "char \<Rightarrow> bool" where
  "is_digit c \<longleftrightarrow> 48 \<le> code c \<and> code c \<le> 57"

definition hex_value :: "char \<Rightarrow> nat option" where
  "hex_value c =
     (if 48 \<le> code c \<and> code c \<le> 57 then Some (code c - 48)
      else if 97 \<le> code c \<and> code c \<le> 102 then Some (code c - 87)
      else if 65 \<le> code c \<and> code c \<le> 70 then Some (code c - 55)
      else None)"

fun hex4 :: "string \<Rightarrow> nat option" where
  "hex4 (a # b # c # d # s) =
     (case (hex_value a, hex_value b, hex_value c, hex_value d) of
        (Some i, Some j, Some k, Some l) \<Rightarrow> Some (((i * 16 + j) * 16 + k) * 16 + l)
      | _ \<Rightarrow> None)"
| "hex4 s = None"

text \<open>The second half of a surrogate pair, and the code point that it makes with the first.\<close>

definition surrogate_pair :: "nat \<Rightarrow> string \<Rightarrow> nat option" where
  "surrogate_pair u s =
     (if 0xD800 \<le> u \<and> u < 0xDC00 \<and> starts_with [backslash, CHR ''u''] s then
        (case hex4 (drop 2 s) of
           Some v \<Rightarrow> if 0xDC00 \<le> v \<and> v < 0xE000 then Some (0x10000 + (u - 0xD800) * 0x400 + (v - 0xDC00)) else None
         | None \<Rightarrow> None)
      else None)"

definition simple_escape :: "char \<Rightarrow> char option" where
  "simple_escape c =
     (if c = CHR 0x22 \<or> c = backslash \<or> c = CHR ''/'' then Some c
      else if c = CHR ''b'' then Some (CHR 0x08)
      else if c = CHR ''f'' then Some (CHR 0x0C)
      else if c = CHR ''n'' then Some (CHR 0x0A)
      else if c = CHR ''r'' then Some (CHR 0x0D)
      else if c = CHR ''t'' then Some (CHR 0x09)
      else None)"

definition prepend :: "string \<Rightarrow> (string \<times> string) option \<Rightarrow> (string \<times> string) option" where
  "prepend s r = map_option (\<lambda>(t, rest). (s @ t, rest)) r"

text \<open>The characters of a string literal after its opening quote, and what follows the closing one.\<close>

function unquote_chars :: "string \<Rightarrow> (string \<times> string) option" where
  "unquote_chars [] = None"
| "unquote_chars (c # cs) =
     (if c = CHR 0x22 then Some ([], cs)
      else if c = backslash then
        (case cs of
           [] \<Rightarrow> None
         | d # ds \<Rightarrow>
             if d = CHR ''u'' then
               (case hex4 ds of
                  None \<Rightarrow> None
                | Some u \<Rightarrow>
                    (case surrogate_pair u (drop 4 ds) of
                       Some rune \<Rightarrow> prepend (encode_rune rune) (unquote_chars (drop 10 ds))
                     | None \<Rightarrow>
                         prepend (if 0xD800 \<le> u \<and> u < 0xE000 then replacement else encode_rune u)
                           (unquote_chars (drop 4 ds))))
             else
               (case simple_escape d of
                  None \<Rightarrow> None
                | Some e \<Rightarrow> prepend [e] (unquote_chars ds)))
      else if code c < 0x20 then None
      else if rune_size (c # cs) = 0 then prepend replacement (unquote_chars cs)
      else prepend (take (rune_size (c # cs)) (c # cs)) (unquote_chars (drop (rune_size (c # cs)) (c # cs))))"
  by pat_completeness auto
termination by (relation "measure length") auto

declare unquote_chars.simps(2) [simp del]

lemma prepend_Some: "prepend s r = Some (t, rest) \<longleftrightarrow> (\<exists>t'. r = Some (t', rest) \<and> t = s @ t')"
  by (auto simp: prepend_def)

lemma unquote_shorter: "unquote_chars s = Some (t, rest) \<Longrightarrow> length rest < length s"
proof (induction s arbitrary: t rule: length_induct)
  case (1 s)
  have IH: "length rest < length s" if "unquote_chars s' = Some (t', rest)" "length s' < length s" for s' t'
    using 1(1) that less_trans by blast
  show ?case
  proof (cases s)
    case (Cons c cs)
    have "rune_size (c # cs) \<noteq> 0 \<Longrightarrow> length (drop (rune_size (c # cs)) (c # cs)) < length s"
      using Cons by simp
    then show ?thesis
      using 1(2) unfolding Cons unquote_chars.simps(2)
      by (auto simp: prepend_Some Cons [symmetric] split: if_splits list.splits option.splits
        intro: IH) (use Cons IH in \<open>auto\<close>)
  qed (use 1(2) in simp)
qed

text \<open>The literal of a number: a sign, an integer part without leading zeros, a fraction, an exponent.\<close>

definition optional_sign :: "char list \<Rightarrow> string \<Rightarrow> string \<times> string" where
  "optional_sign signs s = (case s of c # cs \<Rightarrow> if c \<in> set signs then ([c], cs) else ([], s) | [] \<Rightarrow> ([], s))"

definition integer_part :: "string \<Rightarrow> (string \<times> string) option" where
  "integer_part s =
     (case s of
        [] \<Rightarrow> None
      | c # cs \<Rightarrow>
          if c = CHR ''0'' then Some ([c], cs)
          else if is_digit c then Some (takeWhile is_digit s, dropWhile is_digit s)
          else None)"

text \<open>A part that is absent, or an introduction followed by at least one digit.\<close>

definition optional_digits :: "char list \<Rightarrow> char list \<Rightarrow> string \<Rightarrow> (string \<times> string) option" where
  "optional_digits starts signs s =
     (case s of
        [] \<Rightarrow> Some ([], [])
      | c # cs \<Rightarrow>
          if c \<notin> set starts then Some ([], s)
          else
            (let (sign, ds) = optional_sign signs cs in
             if takeWhile is_digit ds = [] then None
             else Some ([c] @ sign @ takeWhile is_digit ds, dropWhile is_digit ds)))"

definition json_number :: "string \<Rightarrow> (string \<times> string) option" where
  "json_number s =
     (let (sign, s1) = optional_sign ''-'' s in
      (case integer_part s1 of
         None \<Rightarrow> None
       | Some (int_part, s2) \<Rightarrow>
      (case optional_digits ''.'' [] s2 of
         None \<Rightarrow> None
       | Some (fraction, s3) \<Rightarrow>
      (case optional_digits ''eE'' ''+-'' s3 of
         None \<Rightarrow> None
       | Some (exponent, rest) \<Rightarrow> Some (sign @ int_part @ fraction @ exponent, rest)))))"

lemma skip_space_length [simp]: "length (skip_space s) \<le> length s"
  by (simp add: skip_space_def length_dropWhile_le)

lemma skip_space_bounds:
  "length s < n \<Longrightarrow> Suc (2 * length (skip_space s)) \<le> 2 * n"
  "\<not> n \<le> length s \<Longrightarrow> 2 * length (skip_space s) \<le> Suc (Suc (2 * n))"
  "length s < n \<Longrightarrow> 2 * length (skip_space s) \<le> Suc (2 * n)"
  "length (skip_space s) \<le> Suc (length s)"
  using skip_space_length [of s] by linarith+

text \<open>
  The value at the start of a text that does not begin with white space, with what follows it; \<open>d\<close> is
  how many more arrays and objects may be open. The comparisons of lengths always hold, as shown below;
  they make the termination evident.
\<close>

function json_value :: "nat \<Rightarrow> string \<Rightarrow> (json \<times> string) option"
  and json_elements :: "nat \<Rightarrow> string \<Rightarrow> ((string \<times> json) list \<times> string) option"
  and json_members :: "nat \<Rightarrow> string \<Rightarrow> ((string \<times> json) list \<times> string) option" where
  "json_value d [] = None"
| "json_value d (c # cs) =
     (if c = CHR 0x22 then map_option (\<lambda>(t, rest). (JString t, rest)) (unquote_chars cs)
      else if c = CHR ''['' then
        (if d = 0 then None
         else if take 1 (skip_space cs) = '']'' then Some (JArray [], drop 1 (skip_space cs))
         else map_option (\<lambda>(xs, rest). (JArray xs, rest)) (json_elements (d - 1) (skip_space cs)))
      else if c = CHR ''{'' then
        (if d = 0 then None
         else if take 1 (skip_space cs) = ''}'' then Some (JObject [], drop 1 (skip_space cs))
         else map_option (\<lambda>(ms, rest). (JObject ms, rest)) (json_members (d - 1) (skip_space cs)))
      else if starts_with ''null'' (c # cs) then Some (JNull, drop 3 cs)
      else if starts_with ''true'' (c # cs) then Some (JBool True, drop 3 cs)
      else if starts_with ''false'' (c # cs) then Some (JBool False, drop 4 cs)
      else map_option (\<lambda>(t, rest). (JNumber t, rest)) (json_number (c # cs)))"
| "json_elements d s =
     (case json_value d s of
        None \<Rightarrow> None
      | Some (v, rest) \<Rightarrow>
          (let element = (take (length s - length rest) s, v) in
           (case skip_space rest of
              [] \<Rightarrow> None
            | c # cs \<Rightarrow>
                if c = CHR '']'' then Some ([element], cs)
                else if c = CHR '','' \<and> length cs < length s then
                  map_option (\<lambda>(xs, rest). (element # xs, rest)) (json_elements d (skip_space cs))
                else None)))"
| "json_members d [] = None"
| "json_members d (q # s) =
     (if q \<noteq> CHR 0x22 then None
      else
        (case unquote_chars s of
           None \<Rightarrow> None
         | Some (name, rest) \<Rightarrow>
             (case skip_space rest of
                [] \<Rightarrow> None
              | c # cs \<Rightarrow>
                  if c \<noteq> CHR '':'' \<or> length s \<le> length cs then None
                  else
                    (case json_value d (skip_space cs) of
                       None \<Rightarrow> None
                     | Some (v, rest') \<Rightarrow>
                         (case skip_space rest' of
                            [] \<Rightarrow> None
                          | e # es \<Rightarrow>
                              if e = CHR ''}'' then Some ([(name, v)], es)
                              else if e = CHR '','' \<and> length es < length s then
                                map_option (\<lambda>(ms, rest). ((name, v) # ms, rest)) (json_members d (skip_space es))
                              else None)))))"
  by pat_completeness auto

termination
  by (relation "measure (case_sum (\<lambda>(d, s). 2 * length s)
        (case_sum (\<lambda>(d, s). 2 * length s + 1) (\<lambda>(d, s). 2 * length s + 1)))")
    (auto simp: less_Suc_eq_le skip_space_bounds)

declare json_value.simps(2) [simp del] json_elements.simps [simp del] json_members.simps(2) [simp del]

text \<open>\<^verbatim>\<open>maxNestingDepth\<close> of the library.\<close>

definition json_max_depth :: nat where
  "json_max_depth = 10000"

definition json_SyntaxError :: error where
  "json_SyntaxError = External 65"

definition json_TypeError :: error where
  "json_TypeError = External 66"

definition json_parse :: "bytes \<Rightarrow> error + json" where
  "json_parse encoded =
     (case json_value json_max_depth (skip_space (string_of encoded)) of
        None \<Rightarrow> Inl json_SyntaxError
      | Some (v, rest) \<Rightarrow> if skip_space rest = [] then Inr v else Inl json_SyntaxError)"

section \<open>The comparisons of lengths hold\<close>

lemma integer_part_split: "integer_part s = Some (t, rest) \<Longrightarrow> s = t @ rest \<and> t \<noteq> []"
  by (auto simp: integer_part_def split: list.splits if_splits)

lemma optional_digits_split: "optional_digits starts signs s = Some (t, rest) \<Longrightarrow> s = t @ rest"
  by (auto simp: optional_digits_def optional_sign_def Let_def split: list.splits if_splits prod.splits)

lemma json_number_split: "json_number s = Some (t, rest) \<Longrightarrow> s = t @ rest \<and> t \<noteq> []"
  by (auto simp: json_number_def optional_sign_def dest!: integer_part_split optional_digits_split
      split: list.splits if_splits option.splits prod.splits)

lemma starts_with_length: "starts_with p s \<Longrightarrow> length p \<le> length s"
  by (metis starts_with_def length_take min.absorb_iff2)

lemma json_shorter:
  "json_value d s = Some (v, rest) \<Longrightarrow> length rest < length s"
  "json_elements d s = Some (xs, rest) \<Longrightarrow> length rest < length s"
  "json_members d s = Some (ms, rest) \<Longrightarrow> length rest < length s"
proof (induction d s and d s and d s arbitrary: v rest and xs rest and ms rest
    rule: json_value_json_elements_json_members.induct)
  case (2 d c cs)
  note sp = skip_space_length [of cs]
  have "length rest < Suc (length cs)" if "json_elements (d - 1) (skip_space cs) = Some (xs, rest)"
    "d \<noteq> 0" "c = CHR ''[''" "take 1 (skip_space cs) \<noteq> '']''" for xs rest
    using 2(1) [of xs rest] that by (simp add: order_less_le_trans [OF _ sp, THEN less_SucI])
  moreover have "length rest < Suc (length cs)" if "json_members (d - 1) (skip_space cs) = Some (ms, rest)"
    "d \<noteq> 0" "c = CHR ''{''" "take 1 (skip_space cs) \<noteq> ''}''" for ms rest
    using 2(2) [of ms rest] that by (simp add: order_less_le_trans [OF _ sp, THEN less_SucI])
  moreover have "length rest < length (c # cs)" if "json_number (c # cs) = Some (t, rest)" for t
    using json_number_split [OF that] by (cases t) auto
  moreover have "length (skip_space cs) - Suc 0 < Suc (length cs)" using sp by linarith
  ultimately show ?case
    using 2(3) unfolding json_value.simps
    by (auto dest: unquote_shorter starts_with_length split: if_splits)
next
  case (3 d s)
  obtain v r where v: "json_value d s = Some (v, r)" using 3(3)
    by (auto simp: json_elements.simps Let_def split: option.splits)
  obtain c cs where c: "skip_space r = c # cs" using 3(3) v
    by (auto simp: json_elements.simps Let_def split: list.splits)
  have l: "length cs < length s" using 3(1) [OF v] c skip_space_length [of r] by simp
  have r: "length rest < length s" if "json_elements d (skip_space cs) = Some (xs', rest)" "c = CHR '',''" for xs'
  proof -
    have "length rest < length (skip_space cs)" by (rule 3(2) [OF v _ refl c]) (use that l in auto)
    then show ?thesis using l skip_space_length [of cs] by (meson less_trans order_less_le_trans)
  qed
  show ?case
    using 3(3) l v c by (auto simp: json_elements.simps Let_def split: if_splits intro: r)
next
  case (5 d q s)
  obtain name r where n: "unquote_chars s = Some (name, r)" using 5(3)
    by (auto simp: json_members.simps split: option.splits if_splits)
  obtain c cs where c: "skip_space r = c # cs" using 5(3) n
    by (auto simp: json_members.simps split: list.splits if_splits)
  have l: "length cs < length s" using unquote_shorter [OF n] c skip_space_length [of r] by simp
  obtain v r' where v: "json_value d (skip_space cs) = Some (v, r')" "q = CHR 0x22" "c = CHR '':''" using 5(3) n c
    by (auto simp: json_members.simps split: option.splits if_splits)
  obtain e es where e: "skip_space r' = e # es" using 5(3) n c v l
    by (auto simp: json_members.simps split: list.splits if_splits)
  have "length r' < length (skip_space cs)" using 5(1) n c v l by auto
  then have l': "length es < length s" using e l skip_space_length [of r'] skip_space_length [of cs]
    unfolding e length_Cons by linarith
  have r: "length rest < Suc (length s)" if "json_members d (skip_space es) = Some (ms', rest)" "e = CHR '',''" for ms'
  proof -
    have "length rest < length (skip_space es)"
      by (rule 5(2) [OF _ n _ c _ v(1) _ e]) (use that l l' v in auto)
    then show ?thesis using l' skip_space_length [of es] by (meson less_trans order_less_le_trans less_SucI)
  qed
  show ?case
    using 5(3) n c v e l l' by (auto simp: json_members.simps split: if_splits intro: r)
qed auto

section \<open>Reading what was written\<close>

lemma hex_value_digit: "n < 16 \<Longrightarrow> hex_value (hex_digit n) = Some n"
proof -
  assume "n < 16"
  then have "code (hex_digit n) = (if n < 10 then 48 + n else 87 + n)" by (simp add: hex_digit_def)
  then show ?thesis using \<open>n < 16\<close> by (cases "n < 10") (simp_all add: hex_value_def)
qed

lemma hex4_digits:
  assumes "hex_value a = Some i" "hex_value b = Some j" "hex_value c = Some k" "hex_value d = Some l"
  shows "hex4 (a # b # c # d # s) = Some (((i * 16 + j) * 16 + k) * 16 + l)"
  using assms by simp

lemma hex4_escape:
  assumes "code c < 0x100"
  shows "hex4 (CHR ''0'' # CHR ''0'' # hex_digit (code c div 16) # hex_digit (code c mod 16) # s) = Some (code c)"
proof -
  have z: "hex_value (CHR ''0'') = Some 0" by code_simp
  have d: "code c div 16 < 16" "code c mod 16 < 16" using assms by (simp_all add: div_less_iff_less_mult)
  show ?thesis
    using hex4_digits [OF z z hex_value_digit [OF d(1)] hex_value_digit [OF d(2)]] by simp
qed

lemma unquote_ASCII:
  assumes "code c < 0x80" "\<not> code c < 0x20" "c \<noteq> CHR 0x22" "c \<noteq> backslash"
  shows "unquote_chars (c # s) = prepend [c] (unquote_chars s)"
  using assms by (simp add: unquote_chars.simps rune_size_ASCII)

lemma unquote_simple:
  assumes "simple_escape d = Some e"
  shows "unquote_chars (backslash # d # s) = prepend [e] (unquote_chars s)"
proof -
  have "simple_escape (CHR ''u'') = None" "backslash \<noteq> CHR 0x22" by code_simp+
  then show ?thesis using assms by (auto simp: unquote_chars.simps(2))
qed

lemma unquote_hex:
  assumes "hex4 ds = Some u" "surrogate_pair u (drop 4 ds) = None" "\<not> (0xD800 \<le> u \<and> u < 0xE000)"
  shows "unquote_chars (backslash # CHR ''u'' # ds) = prepend (encode_rune u) (unquote_chars (drop 4 ds))"
proof -
  have "backslash \<noteq> CHR 0x22" by code_simp
  then show ?thesis using assms by (auto simp: unquote_chars.simps(2))
qed

lemma surrogate_pair_None: "\<not> (0xD800 \<le> u \<and> u < 0xDC00) \<Longrightarrow> surrogate_pair u s = None"
  by (auto simp: surrogate_pair_def)

lemma simple_escapes:
  "simple_escape (CHR 0x22) = Some (CHR 0x22)" "simple_escape backslash = Some backslash"
  "simple_escape (CHR ''b'') = Some (CHR 0x08)" "simple_escape (CHR ''f'') = Some (CHR 0x0C)"
  "simple_escape (CHR ''n'') = Some (CHR 0x0A)" "simple_escape (CHR ''r'') = Some (CHR 0x0D)"
  "simple_escape (CHR ''t'') = Some (CHR 0x09)"
  by code_simp+

lemma unquote_escape:
  assumes "code c < 0x80"
  shows "unquote_chars (escape c @ s) = prepend [c] (unquote_chars s)"
proof -
  have e: "encode_rune (code c) = [c]" using assms by (simp add: encode_rune_def)
  have u: "unquote_chars (backslash # CHR ''u'' # CHR ''0'' # CHR ''0'' # hex_digit (code c div 16)
      # hex_digit (code c mod 16) # s) = prepend [c] (unquote_chars s)"
    using unquote_hex [OF hex4_escape [of c s] surrogate_pair_None] assms by (simp add: e)
  show ?thesis
  proof (cases "code c < 0x20 \<or> c = CHR ''<'' \<or> c = CHR ''>'' \<or> c = CHR ''&'' \<or> c = CHR 0x22 \<or> c = backslash")
    case True
    then show ?thesis unfolding escape_def
      by (auto simp: u unquote_simple [OF simple_escapes(1)] unquote_simple [OF simple_escapes(2)]
        unquote_simple [OF simple_escapes(3)] unquote_simple [OF simple_escapes(4)]
        unquote_simple [OF simple_escapes(5)] unquote_simple [OF simple_escapes(6)]
        unquote_simple [OF simple_escapes(7)])
  next
    case False
    moreover have "c \<noteq> CHR 0x08 \<and> c \<noteq> CHR 0x0C \<and> c \<noteq> CHR 0x0A \<and> c \<noteq> CHR 0x0D \<and> c \<noteq> CHR 0x09"
      using False by (intro conjI notI) simp_all
    ultimately show ?thesis using unquote_ASCII [OF assms] by (simp add: escape_def)
  qed
qed

lemma not_ASCII_special: "\<not> code c < 0x80 \<Longrightarrow> c \<noteq> CHR 0x22 \<and> c \<noteq> backslash \<and> \<not> code c < 0x20"
  by (auto simp: backslash_def)

lemma unquote_replacement: "unquote_chars (backslash # ''ufffd'' @ s) = prepend replacement (unquote_chars s)"
proof -
  have v: "hex_value (CHR ''f'') = Some 15" "hex_value (CHR ''d'') = Some 13" by code_simp+
  have "encode_rune 0xFFFD = replacement"
    by (simp add: encode_rune_def replacement_def char_of_eq_iff take_bit_eq_mod)
  then show ?thesis
    using unquote_hex [OF hex4_digits [OF v(1) v(1) v(1) v(2), of s] surrogate_pair_None] by simp
qed

lemma unquote_separators:
  "unquote_chars (backslash # ''u2028'' @ s) = prepend (line_separators ! 0) (unquote_chars s)"
  "unquote_chars (backslash # ''u2029'' @ s) = prepend (line_separators ! 1) (unquote_chars s)"
proof -
  have v: "hex_value (CHR ''2'') = Some 2" "hex_value (CHR ''0'') = Some 0" "hex_value (CHR ''8'') = Some 8"
    "hex_value (CHR ''9'') = Some 9" by code_simp+
  have "encode_rune 0x2028 = line_separators ! 0" "encode_rune 0x2029 = line_separators ! 1"
    by (simp_all add: encode_rune_def line_separators_def char_of_eq_iff take_bit_eq_mod)
  then show "unquote_chars (backslash # ''u2028'' @ s) = prepend (line_separators ! 0) (unquote_chars s)"
    "unquote_chars (backslash # ''u2029'' @ s) = prepend (line_separators ! 1) (unquote_chars s)"
    using unquote_hex [OF hex4_digits [OF v(1) v(2) v(1) v(3), of s] surrogate_pair_None]
      unquote_hex [OF hex4_digits [OF v(1) v(2) v(1) v(4), of s] surrogate_pair_None] by simp_all
qed

lemma unquote_rune:
  assumes "0 < rune_size s" "\<not> code (hd s) < 0x80"
  shows "unquote_chars (take (rune_size s) s @ t) = prepend (take (rune_size s) s) (unquote_chars t)"
proof -
  obtain c cs where t: "take (rune_size s) s = c # cs"
    using assms(1) rune_size_bound [of s] by (cases "take (rune_size s) s") auto
  then have s: "take (rune_size s) s = c # cs" "hd s = c" by (cases s; cases "rune_size s"; simp)+
  have "length (c # cs) = rune_size s" using rune_size_bound [of s] s(1) [symmetric] by simp
  then have "rune_size (c # cs @ t) = Suc (length cs)"
    using rune_size_prefix [OF assms(1), of t] s(1) by simp
  then show ?thesis
    unfolding s(1) using not_ASCII_special assms(2) s(2) by (simp add: unquote_chars.simps)
qed

lemma unquote_quote: "unquote_chars (quote_chars s @ CHR 0x22 # rest) = Some (to_valid s, rest)"
proof (induction s rule: quote_chars.induct)
  case 1
  then show ?case by (simp add: unquote_chars.simps)
next
  case (2 c cs)
  consider (ascii) "code c < 0x80" | (bad) "\<not> code c < 0x80" "rune_size (c # cs) = 0"
    | (rune) "\<not> code c < 0x80" "0 < rune_size (c # cs)" by auto
  then show ?case
  proof cases
    case ascii
    then show ?thesis using 2(1) by (simp add: quote_chars.simps(2) unquote_escape prepend_def to_valid_ASCII)
  next
    case bad
    then show ?thesis using 2(2) unquote_replacement
      by (simp add: quote_chars.simps(2) to_valid.simps prepend_def)
  next
    case rune
    let ?n = "rune_size (c # cs)"
    have IH: "unquote_chars (quote_chars (drop ?n (c # cs)) @ CHR 0x22 # rest) = Some (to_valid (drop ?n (c # cs)), rest)"
      using 2(3) rune by simp
    show ?thesis
      using rune unquote_rune [of "c # cs"] unquote_separators IH
      by (simp add: quote_chars.simps(2) Let_def prepend_def to_valid.simps)
  qed
qed

text \<open>
  What a parser makes of the text of a value: the same value, with malformed UTF-8 replaced. The nesting
  must be allowed, the text of each element must be its own, and there must be no number, whose end
  depends on what follows.
\<close>

fun json_wf :: "nat \<Rightarrow> json \<Rightarrow> bool" where
  "json_wf d (JNumber s) = False"
| "json_wf d (JArray xs) \<longleftrightarrow> 0 < d \<and> (\<forall>(t, v)\<in>set xs. t = json_text v \<and> json_wf (d - 1) v)"
| "json_wf d (JObject ms) \<longleftrightarrow> 0 < d \<and> (\<forall>(n, v)\<in>set ms. json_wf (d - 1) v)"
| "json_wf d v = True"

fun json_clean :: "json \<Rightarrow> json" where
  "json_clean (JString s) = JString (to_valid s)"
| "json_clean (JArray xs) = JArray (map (\<lambda>(t, v). (t, json_clean v)) xs)"
| "json_clean (JObject ms) = JObject (map (\<lambda>(n, v). (to_valid n, json_clean v)) ms)"
| "json_clean v = v"

lemma is_space_code: "is_space c \<Longrightarrow> code c \<le> 0x20"
  by (auto simp: is_space_def)

lemma skip_space_id: "\<not> is_space c \<Longrightarrow> skip_space (c # cs) = c # cs"
  by (simp add: skip_space_def)

lemma not_space [simp]:
  "\<not> is_space (CHR 0x22)" "\<not> is_space (CHR '','')" "\<not> is_space (CHR '':'')" "\<not> is_space (CHR ''['')"
  "\<not> is_space (CHR '']'')" "\<not> is_space (CHR ''{'')" "\<not> is_space (CHR ''}'')" "\<not> is_space (CHR ''n'')"
  "\<not> is_space (CHR ''t'')" "\<not> is_space (CHR ''f'')"
  by code_simp+

lemma json_text_start:
  "json_wf d v \<Longrightarrow> \<exists>c cs. json_text v = c # cs \<and> \<not> is_space c \<and> c \<noteq> CHR '']''"
  by (cases v) (simp_all add: json_quote_def)

lemma skip_space_text: "json_wf d v \<Longrightarrow> skip_space (json_text v @ rest) = json_text v @ rest"
  by (drule json_text_start) (auto simp: skip_space_id)

lemma json_elements_step:
  assumes "json_value d (json_text v @ c # cs) = Some (w, c # cs)" "\<not> is_space c" "json_wf d v"
  shows "json_elements d (json_text v @ c # cs) =
     (if c = CHR '']'' then Some ([(json_text v, w)], cs)
      else if c = CHR '','' then map_option (\<lambda>(xs, rest). ((json_text v, w) # xs, rest)) (json_elements d (skip_space cs))
      else None)"
  using assms by (subst json_elements.simps) (simp add: skip_space_id)

lemma json_members_step:
  assumes "json_value d (json_text v @ e # es) = Some (w, e # es)" "\<not> is_space e" "json_wf d v"
  shows "json_members d (json_quote n @ '':'' @ json_text v @ e # es) =
     (if e = CHR ''}'' then Some ([(to_valid n, w)], es)
      else if e = CHR '','' then map_option (\<lambda>(ms, rest). ((to_valid n, w) # ms, rest)) (json_members d (skip_space es))
      else None)"
proof -
  have "json_quote n @ '':'' @ json_text v @ e # es
      = CHR 0x22 # (quote_chars n @ CHR 0x22 # CHR '':'' # json_text v @ e # es)"
    by (simp add: json_quote_def)
  then show ?thesis
    using assms by (simp add: json_members.simps(2) unquote_quote skip_space_id skip_space_text)
qed

text \<open>A list of texts, the last of which is followed by the closing bracket and the others by a comma.\<close>

lemma json_elements_text:
  assumes "xs \<noteq> []" "\<forall>(t, v)\<in>set xs. t = json_text v \<and> json_wf d v"
    and "\<And>t v rest. (t, v) \<in> set xs \<Longrightarrow> json_value d (json_text v @ rest) = Some (json_clean v, rest)"
  shows "json_elements d (comma_separated (map fst xs) @ CHR '']'' # rest) =
       Some (map (\<lambda>(t, v). (t, json_clean v)) xs, rest)
     \<and> skip_space (comma_separated (map fst xs) @ CHR '']'' # rest) = comma_separated (map fst xs) @ CHR '']'' # rest"
  using assms
proof (induction xs rule: induct_list012)
  case (2 x)
  then have "json_value d (json_text (snd x) @ CHR '']'' # rest) = Some (json_clean (snd x), CHR '']'' # rest)"
    by (cases x) auto
  then show ?case using 2 json_elements_step [of d "snd x" "CHR '']''" rest]
    by (cases x) (simp add: skip_space_text)
next
  case (3 x y zs)
  have IH: "json_elements d (comma_separated (map fst (y # zs)) @ CHR '']'' # rest) =
       Some (map (\<lambda>(t, v). (t, json_clean v)) (y # zs), rest)
     \<and> skip_space (comma_separated (map fst (y # zs)) @ CHR '']'' # rest) = comma_separated (map fst (y # zs)) @ CHR '']'' # rest"
    by (rule 3(2)) (use 3(4,5) in auto)
  moreover have "json_value d (json_text (snd x) @ CHR '','' # s) = Some (json_clean (snd x), CHR '','' # s)" for s
    using 3(5) [of "fst x" "snd x"] by simp
  ultimately show ?case using 3(4) json_elements_step [of d "snd x" "CHR '',''"] skip_space_text [of d "snd x"]
    by (cases x) simp
qed simp

lemma json_members_text:
  assumes "ms \<noteq> []" "\<forall>(n, v)\<in>set ms. json_wf d v"
    and "\<And>n v rest. (n, v) \<in> set ms \<Longrightarrow> json_value d (json_text v @ rest) = Some (json_clean v, rest)"
  shows "json_members d (comma_separated (map (\<lambda>(n, v). json_quote n @ '':'' @ json_text v) ms) @ CHR ''}'' # rest) =
       Some (map (\<lambda>(n, v). (to_valid n, json_clean v)) ms, rest)
     \<and> (\<exists>u. comma_separated (map (\<lambda>(n, v). json_quote n @ '':'' @ json_text v) ms) = CHR 0x22 # u)"
  using assms
proof (induction ms rule: induct_list012)
  case (2 x)
  then have "json_value d (json_text (snd x) @ CHR ''}'' # rest) = Some (json_clean (snd x), CHR ''}'' # rest)"
    by (cases x) auto
  then show ?case using 2 json_members_step [of d "snd x" "CHR ''}''" rest "json_clean (snd x)" "fst x"]
    by (cases x) (auto simp: json_quote_def)
next
  case (3 x y zs)
  let ?text = "comma_separated (map (\<lambda>(n, v). json_quote n @ '':'' @ json_text v) (y # zs))"
  have IH: "json_members d (?text @ CHR ''}'' # rest) =
       Some (map (\<lambda>(n, v). (to_valid n, json_clean v)) (y # zs), rest) \<and> (\<exists>u. ?text = CHR 0x22 # u)"
    by (rule 3(2)) (use 3(4,5) in auto)
  then have "skip_space (?text @ CHR ''}'' # rest) = ?text @ CHR ''}'' # rest" by (auto simp: skip_space_id)
  moreover have "json_value d (json_text (snd x) @ CHR '','' # s) = Some (json_clean (snd x), CHR '','' # s)" for s
    using 3(5) [of "fst x" "snd x"] by simp
  ultimately show ?case
    using IH 3(4) json_members_step [of d "snd x" "CHR '',''" "?text @ CHR ''}'' # rest" "json_clean (snd x)" "fst x"]
    by (cases x) (auto simp: json_quote_def)
qed simp

lemma json_value_text: "json_wf d v \<Longrightarrow> json_value d (json_text v @ rest) = Some (json_clean v, rest)"
proof (induction v arbitrary: d rest)
  case (JString s)
  then show ?case by (simp add: json_quote_def json_value.simps unquote_quote [simplified])
next
  case (JArray xs)
  have IH: "json_value (d - 1) (json_text v @ rest) = Some (json_clean v, rest)" if "(t, v) \<in> set xs" for t v rest
    using JArray.IH [OF that] JArray.prems that by auto
  show ?case
  proof (cases xs)
    case Nil
    then show ?thesis using JArray.prems by (simp add: json_value.simps skip_space_id)
  next
    case (Cons x ys)
    have "json_elements (d - 1) (comma_separated (map fst xs) @ CHR '']'' # rest) =
        Some (map (\<lambda>(t, v). (t, json_clean v)) xs, rest)
      \<and> skip_space (comma_separated (map fst xs) @ CHR '']'' # rest) = comma_separated (map fst xs) @ CHR '']'' # rest"
      by (rule json_elements_text) (use Cons JArray.prems IH in auto)
    moreover obtain c cs where "fst x = c # cs" "c \<noteq> CHR '']''"
      using JArray.prems Cons json_text_start [of "d - 1" "snd x"] by (cases x) auto
    then have "take 1 (comma_separated (map fst xs) @ CHR '']'' # rest) \<noteq> '']''"
      using Cons by (cases ys) auto
    ultimately show ?thesis using JArray.prems by (simp add: json_value.simps(2))
  qed
next
  case (JObject ms)
  have IH: "json_value (d - 1) (json_text v @ rest) = Some (json_clean v, rest)" if "(t, v) \<in> set ms" for t v rest
    using JObject.IH [OF that] JObject.prems that by auto
  show ?case
  proof (cases ms)
    case Nil
    then show ?thesis using JObject.prems by (simp add: json_value.simps skip_space_id)
  next
    case (Cons x ys)
    let ?text = "comma_separated (map (\<lambda>(n, v). json_quote n @ '':'' @ json_text v) ms)"
    have "json_members (d - 1) (?text @ CHR ''}'' # rest) = Some (map (\<lambda>(n, v). (to_valid n, json_clean v)) ms, rest)
      \<and> (\<exists>u. ?text = CHR 0x22 # u)"
      by (rule json_members_text) (use Cons JObject.prems IH in auto)
    then show ?thesis using JObject.prems by (auto simp: json_value.simps(2) skip_space_id)
  qed
qed (simp_all add: json_value.simps starts_with_def)

lemma json_roundtrip:
  assumes "json_wf json_max_depth v"
  shows "json_parse (bytes_of (json_text v)) = Inr (json_clean v)"
  using json_value_text [OF assms, of "[]"] skip_space_text [OF assms, of "[]"]
  by (simp add: json_parse_def) (simp add: skip_space_def)

section \<open>Structs\<close>

text \<open>
  A field of a struct: the name of its tag and the storing of a value, with the error of a value of the
  wrong type, which \<^verbatim>\<open>Unmarshal\<close> remembers while it goes on.
\<close>

type_synonym 'r json_field = "string \<times> (json \<Rightarrow> 'r \<Rightarrow> 'r \<times> error option)"

text \<open>A field of type \<^verbatim>\<open>string\<close>: null leaves it as it is.\<close>

definition string_field :: "string \<Rightarrow> ((string \<Rightarrow> string) \<Rightarrow> 'r \<Rightarrow> 'r) \<Rightarrow> 'r json_field" where
  "string_field name upd =
     (name, \<lambda>v r. case v of
        JString s \<Rightarrow> (upd (\<lambda>_. s) r, None)
      | JNull \<Rightarrow> (r, None)
      | _ \<Rightarrow> (r, Some json_TypeError))"

text \<open>
  A field of type \<^verbatim>\<open>[]string\<close>: an element that is no string leaves what the slice already has at that
  place, from an earlier member of the same name.
\<close>

fun string_elements :: "string list \<Rightarrow> (string \<times> json) list \<Rightarrow> string list" where
  "string_elements old [] = []"
| "string_elements old ((t, v) # xs) =
     (case v of JString s \<Rightarrow> s | _ \<Rightarrow> (case old of [] \<Rightarrow> [] | s # _ \<Rightarrow> s)) # string_elements (tl old) xs"

definition element_error :: "string \<times> json \<Rightarrow> bool" where
  "element_error x = (case snd x of JString s \<Rightarrow> False | JNull \<Rightarrow> False | _ \<Rightarrow> True)"

definition strings_field :: "string \<Rightarrow> ((string list \<Rightarrow> string list) \<Rightarrow> 'r \<Rightarrow> 'r) \<Rightarrow> 'r json_field" where
  "strings_field name upd =
     (name, \<lambda>v r. case v of
        JArray xs \<Rightarrow> (upd (\<lambda>old. string_elements old xs) r,
                     if list_ex element_error xs then Some json_TypeError else None)
      | JNull \<Rightarrow> (upd (\<lambda>_. []) r, None)
      | _ \<Rightarrow> (r, Some json_TypeError))"

text \<open>A field of type \<^verbatim>\<open>[]json.RawMessage\<close>; \<open>None\<close> is a nil slice.\<close>

definition raw_messages_field ::
    "string \<Rightarrow> ((bytes list option \<Rightarrow> bytes list option) \<Rightarrow> 'r \<Rightarrow> 'r) \<Rightarrow> 'r json_field" where
  "raw_messages_field name upd =
     (name, \<lambda>v r. case v of
        JArray xs \<Rightarrow> (upd (\<lambda>_. Some (map (bytes_of \<circ> fst) xs)) r, None)
      | JNull \<Rightarrow> (upd (\<lambda>_. None) r, None)
      | _ \<Rightarrow> (r, Some json_TypeError))"

text \<open>
  Names are compared exactly and then with simple folding; the two letters outside ASCII whose folding
  is in ASCII are the long s and the Kelvin sign.
\<close>

function fold_name :: "string \<Rightarrow> string" where
  "fold_name [] = []"
| "fold_name (c # cs) =
     (if 97 \<le> code c \<and> code c \<le> 122 then char_of (code c - 32) # fold_name cs
      else if c = CHR 0xC5 \<and> starts_with [CHR 0xBF] cs then CHR ''S'' # fold_name (drop 1 cs)
      else if c = CHR 0xE2 \<and> starts_with [CHR 0x84, CHR 0xAA] cs then CHR ''K'' # fold_name (drop 2 cs)
      else c # fold_name cs)"
  by pat_completeness auto
termination by (relation "measure length") auto

definition find_field :: "string \<Rightarrow> 'r json_field list \<Rightarrow> 'r json_field option" where
  "find_field name fields =
     (case find (\<lambda>f. fst f = name) fields of
        Some f \<Rightarrow> Some f
      | None \<Rightarrow> find (\<lambda>f. fold_name (fst f) = fold_name name) fields)"

text \<open>The first error is the one that is returned.\<close>

fun unmarshal_members ::
    "'r json_field list \<Rightarrow> (string \<times> json) list \<Rightarrow> 'r \<times> error option \<Rightarrow> 'r \<times> error option" where
  "unmarshal_members fields [] re = re"
| "unmarshal_members fields ((name, v) # ms) (r, err) =
     (case find_field name fields of
        None \<Rightarrow> unmarshal_members fields ms (r, err)
      | Some f \<Rightarrow>
          (let (r', err') = snd f v r in
           unmarshal_members fields ms (r', if err = None then err' else err)))"

text \<open>\<^verbatim>\<open>json.Unmarshal(encoded, &r)\<close> for a struct: what \<open>r\<close> is afterwards, and the error.\<close>

definition json_Unmarshal :: "'r json_field list \<Rightarrow> bytes \<Rightarrow> 'r \<Rightarrow> 'r \<times> error option" where
  "json_Unmarshal fields encoded r =
     (case json_parse encoded of
        Inl err \<Rightarrow> (r, Some err)
      | Inr v \<Rightarrow>
          (case v of
             JObject ms \<Rightarrow> unmarshal_members fields ms (r, None)
           | JNull \<Rightarrow> (r, None)
           | _ \<Rightarrow> (r, Some json_TypeError)))"

text \<open>The members that \<^verbatim>\<open>Marshal\<close> writes, for fields with and without \<^verbatim>\<open>omitempty\<close>.\<close>

definition string_member :: "string \<Rightarrow> string \<Rightarrow> (string \<times> json) list" where
  "string_member name s = [(name, JString s)]"

definition nonempty_member :: "string \<Rightarrow> string \<Rightarrow> (string \<times> json) list" where
  "nonempty_member name s = (if s = [] then [] else [(name, JString s)])"

definition nonempty_strings :: "string \<Rightarrow> string list \<Rightarrow> (string \<times> json) list" where
  "nonempty_strings name ss = (if ss = [] then [] else [(name, json_strings ss)])"

text \<open>\<^verbatim>\<open>json.Marshal\<close> never fails for the structs and maps of strings of this repository.\<close>

definition json_Marshal :: "(string \<times> json) list \<Rightarrow> bytes" where
  "json_Marshal members = bytes_of (json_text (JObject members))"

lemma unmarshal_append:
  "unmarshal_members fields (xs @ ys) re = unmarshal_members fields ys (unmarshal_members fields xs re)"
proof (induction xs arbitrary: re)
  case (Cons x xs)
  then show ?case by (cases x; cases re) (simp split: option.split prod.split)
qed simp

text \<open>A marshalled struct of strings and lists of strings is read member by member.\<close>

definition plain_members :: "(string \<times> json) list \<Rightarrow> bool" where
  "plain_members ms \<longleftrightarrow> (\<forall>(n, v)\<in>set ms. (\<exists>s. v = JString s) \<or> (\<exists>ss. v = json_strings ss))"

lemma plain_simps [simp]:
  "plain_members []" "plain_members (xs @ ys) \<longleftrightarrow> plain_members xs \<and> plain_members ys"
  "plain_members (string_member n s)" "plain_members (nonempty_member n s)" "plain_members (nonempty_strings n ss)"
  by (simp add: plain_members_def) (simp add: plain_members_def ball_Un,
    auto simp: plain_members_def string_member_def nonempty_member_def nonempty_strings_def)

definition clean_members :: "(string \<times> json) list \<Rightarrow> (string \<times> json) list" where
  "clean_members ms = map (\<lambda>(n, v). (to_valid n, json_clean v)) ms"

lemma clean_append [simp]: "clean_members (xs @ ys) = clean_members xs @ clean_members ys"
  by (simp add: clean_members_def)

lemma plain_wf: "plain_members ms \<Longrightarrow> 2 \<le> d \<Longrightarrow> json_wf d (JObject ms)"
  by (auto simp: plain_members_def json_strings_def)

lemma Unmarshal_Marshal:
  assumes "plain_members ms"
  shows "json_Unmarshal fields (json_Marshal ms) r = unmarshal_members fields (clean_members ms) (r, None)"
proof -
  have "json_wf json_max_depth (JObject ms)" using assms by (rule plain_wf) (simp add: json_max_depth_def)
  then show ?thesis
    by (simp add: json_Unmarshal_def json_Marshal_def json_roundtrip del: json_text.simps) (simp add: clean_members_def)
qed

lemma string_elements_strings: "string_elements [] (map (\<lambda>s. (t s, JString (g s))) ss) = map g ss"
  by (induction ss) auto

lemma clean_json_strings: "json_clean (json_strings ss) = JArray (map (\<lambda>s. (json_quote s, JString (to_valid s))) ss)"
  by (simp add: json_strings_def)

text \<open>Reading one member for the first time, by the exact name of its field.\<close>

lemma unmarshal_string_member:
  assumes "ASCII n" "find_field n fields = Some (string_field n upd)"
  shows "unmarshal_members fields (clean_members (string_member n s)) (r, None) = (upd (\<lambda>_. to_valid s) r, None)"
  using assms by (simp add: clean_members_def string_member_def to_valid_ASCII_string string_field_def)

lemma unmarshal_nonempty_member:
  assumes "ASCII n" "find_field n fields = Some (string_field n upd)" "upd (\<lambda>_. []) r = r"
  shows "unmarshal_members fields (clean_members (nonempty_member n s)) (r, None) = (upd (\<lambda>_. to_valid s) r, None)"
  using assms by (simp add: clean_members_def nonempty_member_def to_valid_ASCII_string string_field_def)

lemma unmarshal_nonempty_strings:
  assumes "ASCII n" "find_field n fields = Some (strings_field n upd)" "upd (\<lambda>_. []) r = r"
    and "\<And>f. upd f r = upd (\<lambda>_. f []) r"
  shows "unmarshal_members fields (clean_members (nonempty_strings n ss)) (r, None) = (upd (\<lambda>_. map to_valid ss) r, None)"
proof -
  have "\<not> list_ex element_error (map (\<lambda>s. (json_quote s, JString (to_valid s))) ss)"
    by (auto simp: list_ex_iff element_error_def)
  then show ?thesis
    using assms(1-3) assms(4) [of "\<lambda>old. string_elements old (map (\<lambda>s. (json_quote s, JString (to_valid s))) ss)"]
    by (auto simp: clean_members_def nonempty_strings_def to_valid_ASCII_string strings_field_def clean_json_strings
        string_elements_strings)
qed

end
