(* ===== verification/Jose_Common.thy ===== *)
theory Jose_Common
  imports Registry Base64 Json
begin

text \<open>
  What the JOSE codecs of the packages \<^verbatim>\<open>backend/symetric\<close>, \<^verbatim>\<open>backend/ec\<close> and \<^verbatim>\<open>backend/rsa\<close> have in
  common. Each package has its own copy of these functions, over its own JWK struct; the structs begin
  with the same five fields, so one definition over the extensible record \<open>jwk_header\<close> models all
  copies, and each package's theory names its own instance.
\<close>

section \<open>The common fields of a JWK\<close>

record jwk_header =
  jwk_kty :: string
  jwk_kid :: string
  jwk_use :: string
  jwk_key_ops :: "string list"
  jwk_alg :: string

text \<open>The fields of certificates, which the EC and the RSA struct share.\<close>

record certificate_jwk = jwk_header +
  jwk_x5c :: "string list"
  jwk_x5t :: string
  jwk_x5tS256 :: string

definition header_fields :: "'a jwk_header_scheme json_field list" where
  "header_fields =
     [string_field ''kty'' jwk_kty_update, string_field ''kid'' jwk_kid_update,
      string_field ''use'' jwk_use_update, strings_field ''key_ops'' jwk_key_ops_update,
      string_field ''alg'' jwk_alg_update]"

definition header_members :: "'a jwk_header_scheme \<Rightarrow> (string \<times> json) list" where
  "header_members jwk =
     string_member ''kty'' (jwk_kty jwk) @ nonempty_member ''kid'' (jwk_kid jwk)
     @ nonempty_member ''use'' (jwk_use jwk) @ nonempty_strings ''key_ops'' (jwk_key_ops jwk)
     @ nonempty_member ''alg'' (jwk_alg jwk)"

definition certificate_fields :: "'a certificate_jwk_scheme json_field list" where
  "certificate_fields =
     [strings_field ''x5c'' jwk_x5c_update, string_field ''x5t'' jwk_x5t_update,
      string_field ''x5t#S256'' jwk_x5tS256_update]"

definition certificate_members :: "'a certificate_jwk_scheme \<Rightarrow> (string \<times> json) list" where
  "certificate_members jwk =
     nonempty_strings ''x5c'' (jwk_x5c jwk) @ nonempty_member ''x5t'' (jwk_x5t jwk)
     @ nonempty_member ''x5t#S256'' (jwk_x5tS256 jwk)"

section \<open>Restrictions\<close>

text \<open>
  The loop of \<^verbatim>\<open>setJWKMetadata\<close>: whether all restrictions have the use and the algorithm of the first
  one, and the operations without duplicates.
\<close>

fun metadata_loop ::
    "KeyUse \<Rightarrow> KeyAlg \<Rightarrow> Capability list \<Rightarrow> bool \<times> bool \<times> string list \<Rightarrow> bool \<times> bool \<times> string list" where
  "metadata_loop use algorithm [] result = result"
| "metadata_loop use algorithm (restriction # restrictions) (consistentUse, consistentAlgorithm, operations) =
     metadata_loop use algorithm restrictions
       (consistentUse \<and> cap_Use restriction = use,
        consistentAlgorithm \<and> cap_Algorithm restriction = algorithm,
        if cap_Operation restriction \<noteq> [] \<and> cap_Operation restriction \<notin> set operations
        then operations @ [cap_Operation restriction] else operations)"

definition setJWKMetadata :: "'a jwk_header_scheme \<Rightarrow> Capability list \<Rightarrow> 'a jwk_header_scheme" where
  "setJWKMetadata jwk restrictions =
     (if length restrictions = 0 then jwk
      else
        (let use = cap_Use (restrictions ! 0);
             algorithm = cap_Algorithm (restrictions ! 0);
             (consistentUse, consistentAlgorithm, operations) =
               metadata_loop use algorithm restrictions (True, True, jwk_key_ops jwk);
             jwk1 = jwk\<lparr>jwk_key_ops := operations\<rparr>;
             jwk2 = (if consistentUse
                     then if use = KeyUseSigning then jwk1\<lparr>jwk_use := ''sig''\<rparr>
                          else if use = KeyUseEncryption then jwk1\<lparr>jwk_use := ''enc''\<rparr>
                          else jwk1
                     else jwk1)
         in if consistentAlgorithm then jwk2\<lparr>jwk_alg := algorithm\<rparr> else jwk2))"

definition default_use :: "string \<Rightarrow> KeyUse" where
  "default_use operation =
     (if operation = KeyOpEncrypt \<or> operation = KeyOpDecrypt then KeyUseEncryption else KeyUseSigning)"

fun restrictions_loop :: "'a jwk_header_scheme \<Rightarrow> string list \<Rightarrow> Capability list \<Rightarrow> Capability list" where
  "restrictions_loop jwk [] restrictions = restrictions"
| "restrictions_loop jwk (operation # operations) restrictions =
     (let use = (if jwk_use jwk = ''sig'' then KeyUseSigning
                 else if jwk_use jwk = ''enc'' then KeyUseEncryption
                 else default_use operation)
      in restrictions_loop jwk operations (restrictions @ [Cap use operation (jwk_alg jwk)]))"

definition restrictionsFromJWK :: "'a jwk_header_scheme \<Rightarrow> Capability list" where
  "restrictionsFromJWK jwk =
     (if jwk_alg jwk = [] \<or> length (jwk_key_ops jwk) = 0 then []
      else restrictions_loop jwk (jwk_key_ops jwk) [])"

section \<open>The parameters\<close>

text \<open>
  What the codecs call in the standard library besides its text formats: the X.509 parser, SHA-1 and
  SHA-256, the operations of the curves, and the validation and the precomputation of RSA keys.
\<close>

record jose_primitives =
  jp_ParseCertificate :: certificate_parser
  jp_sha1_Sum :: "bytes \<Rightarrow> bytes"
  jp_sha256_Sum256 :: "bytes \<Rightarrow> bytes"
  jp_IsOnCurve :: "elliptic_curve \<Rightarrow> int \<Rightarrow> int \<Rightarrow> bool"
  jp_ScalarBaseMult :: "elliptic_curve \<Rightarrow> bytes \<Rightarrow> int \<times> int"
  jp_rsa_Validate :: "rsa_PrivateKey \<Rightarrow> error option"
  jp_rsa_Precompute :: "rsa_PrivateKey \<Rightarrow> rsa_PrecomputedValues"

section \<open>The beginning of the calls\<close>

text \<open>
  The checks at the beginning of every \<^verbatim>\<open>Encode\<close>, with the name that the messages of the package begin
  with, and those of every \<^verbatim>\<open>Decode\<close>.
\<close>

definition encode_option :: "string \<Rightarrow> ctxt \<Rightarrow> JOSEEncodeOption list \<Rightarrow> JOSEEncodeOption res" where
  "encode_option name ctx options =
     (case ctx 0 of
        Some err \<Rightarrow> Err err
      | None \<Rightarrow>
          if length options > 1
          then Err (Errorf (name @ '': expected at most one option, got %d'') [IntArg (int (length options))])
          else
            (let option = (if length options = 1 then options ! 0 else \<lparr>opt_MaterialPolicy = ExportPublicMaterial\<rparr>)
             in if opt_MaterialPolicy option \<noteq> ExportPublicMaterial
                   \<and> opt_MaterialPolicy option \<noteq> ExportPrivateMaterial
                then Err (Errorf (name @ '': unsupported material export policy %d'')
                       [IntArg (uint (opt_MaterialPolicy option))])
                else Ok option))"

definition decode_option :: "string \<Rightarrow> ctxt \<Rightarrow> JOSEDecodeOption list \<Rightarrow> unit res" where
  "decode_option name ctx options =
     (case ctx 0 of
        Some err \<Rightarrow> Err err
      | None \<Rightarrow>
          if length options > 1
          then Err (Errorf (name @ '': expected at most one option, got %d'') [IntArg (int (length options))])
          else Ok ())"

text \<open>The fields of a certificate, and their checks against the certificate decoded from \<^verbatim>\<open>x5c\<close>.\<close>

definition setCertificate :: "jose_primitives \<Rightarrow> bytes \<Rightarrow> 'a certificate_jwk_scheme \<Rightarrow> 'a certificate_jwk_scheme" where
  "setCertificate jp raw jwk =
     jwk\<lparr>jwk_x5c := [b64_EncodeToString StdEncoding raw],
         jwk_x5t := b64_EncodeToString RawURLEncoding (jp_sha1_Sum jp raw),
         jwk_x5tS256 := b64_EncodeToString RawURLEncoding (jp_sha256_Sum256 jp raw)\<rparr>"

definition x5cCertificate :: "string \<Rightarrow> jose_primitives \<Rightarrow> 'a certificate_jwk_scheme \<Rightarrow> certificate res" where
  "x5cCertificate name jp jwk =
     (case b64_DecodeString StdEncoding (jwk_x5c jwk ! 0) of
        Inl err \<Rightarrow> Err (Wrapf (name @ '': decode x5c certificate: %w'') [] err)
      | Inr der \<Rightarrow>
          (case jp_ParseCertificate jp der of
             Inl err \<Rightarrow> Err (Wrapf (name @ '': parse x5c certificate: %w'') [] err)
           | Inr cert \<Rightarrow> Ok cert))"

definition checkThumbprints ::
    "string \<Rightarrow> jose_primitives \<Rightarrow> certificate \<Rightarrow> 'a certificate_jwk_scheme \<Rightarrow> unit res" where
  "checkThumbprints name jp cert jwk =
     (if jwk_x5t jwk \<noteq> [] \<and> jwk_x5t jwk \<noteq> b64_EncodeToString RawURLEncoding (jp_sha1_Sum jp (cert_Raw cert))
      then Err (Errorf (name @ '': x5t does not match x5c certificate'') [])
      else if jwk_x5tS256 jwk \<noteq> []
         \<and> jwk_x5tS256 jwk \<noteq> b64_EncodeToString RawURLEncoding (jp_sha256_Sum256 jp (cert_Raw cert))
      then Err (Errorf (name @ '': x5t#S256 does not match x5c certificate'') [])
      else Ok ())"

section \<open>Integers as bytes\<close>

text \<open>\<^verbatim>\<open>x.Bytes()\<close>: the absolute value without leading zeros.\<close>

fun nat_bytes :: "nat \<Rightarrow> bytes" where
  "nat_bytes n = (if n = 0 then [] else nat_bytes (n div 256) @ [word_of_nat n])"

declare nat_bytes.simps [simp del]

definition big_Bytes :: "int \<Rightarrow> bytes" where
  "big_Bytes x = nat_bytes (nat \<bar>x\<bar>)"

lemma SetBytes_nat_bytes: "SetBytes (nat_bytes n) = int n"
proof (induction n rule: nat_bytes.induct)
  case (1 n)
  show ?case
  proof (cases "n = 0")
    case False
    then have "SetBytes (nat_bytes n) = 256 * int (n div 256) + int (n mod 256)"
      using 1 by (subst nat_bytes.simps) (simp add: uint_nat unat_of_nat take_bit_eq_mod)
    then show ?thesis by (simp add: zdiv_int zmod_int)
  qed (simp add: nat_bytes.simps)
qed

lemma SetBytes_big_Bytes [simp]: "SetBytes (big_Bytes x) = \<bar>x\<bar>"
  by (simp add: big_Bytes_def SetBytes_nat_bytes)

lemma big_Bytes_Nil_iff [simp]: "big_Bytes x = [] \<longleftrightarrow> x = 0"
  by (simp add: big_Bytes_def nat_bytes.simps [of "nat \<bar>x\<bar>"])

lemma SetBytes_nonneg: "0 \<le> SetBytes bs"
  by (induction bs rule: rev_induct) simp_all

lemma SetBytes_less: "SetBytes bs < 256 ^ length bs"
proof (induction bs rule: rev_induct)
  case (snoc b bs)
  have "uint b < 256" using uint_lt2p [of b] by simp
  then show ?case using snoc by simp
qed simp

lemma be_bytes_SetBytes: "be_bytes (length bs) (SetBytes bs) = bs"
proof (induction bs rule: rev_induct)
  case (snoc b bs)
  have b: "0 \<le> uint b" "uint b < 256" using uint_lt2p [of b] by simp_all
  then have "(256 * SetBytes bs + uint b) div 256 = SetBytes bs" by simp
  moreover have "word_of_int (256 * SetBytes bs + uint b) = b"
    by (rule word_uint_eqI, simp only: uint_word_of_int) (use b in simp)
  ultimately show ?case using snoc by simp
qed simp

section \<open>Facts\<close>

definition distinct_first :: "'a list \<Rightarrow> 'a list" where
  "distinct_first xs = rev (remdups (rev xs))"

lemma set_distinct_first [simp]: "set (distinct_first xs) = set xs"
  by (simp add: distinct_first_def)

lemma distinct_first_id: "distinct xs \<Longrightarrow> distinct_first xs = xs"
  by (simp add: distinct_first_def distinct_remdups_id)

lemma distinct_distinct_first [simp]: "distinct (distinct_first xs)"
  by (simp add: distinct_first_def)

lemma distinct_first_snoc:
  "distinct_first (xs @ [x]) = (if x \<in> set xs then distinct_first xs else distinct_first xs @ [x])"
  by (simp add: distinct_first_def)

lemma metadata_loop_eq:
  "metadata_loop use algorithm rs (cu, ca, distinct_first ops) =
     (cu \<and> (\<forall>r\<in>set rs. cap_Use r = use), ca \<and> (\<forall>r\<in>set rs. cap_Algorithm r = algorithm),
      distinct_first (ops @ filter (\<lambda>p. p \<noteq> []) (map cap_Operation rs)))"
proof (induction rs arbitrary: cu ca ops)
  case (Cons r rs)
  show ?case
  proof (cases "cap_Operation r = []")
    case False
    have "(if cap_Operation r \<notin> set (distinct_first ops) then distinct_first ops @ [cap_Operation r]
        else distinct_first ops) = distinct_first (ops @ [cap_Operation r])"
      by (simp add: distinct_first_snoc)
    then show ?thesis using False Cons.IH [of _ _ "ops @ [cap_Operation r]"] by auto
  qed (simp add: Cons.IH)
qed simp

lemma restrictions_loop_eq:
  "restrictions_loop jwk ops rs = rs @ map (\<lambda>p. Cap
     (if jwk_use jwk = ''sig'' then KeyUseSigning else if jwk_use jwk = ''enc'' then KeyUseEncryption else default_use p)
     p (jwk_alg jwk)) ops"
  by (induction ops arbitrary: rs) (simp_all add: Let_def)

text \<open>What the fields of a fresh JWK are for given restrictions.\<close>

definition common_use :: "Capability list \<Rightarrow> string" where
  "common_use rs =
     (if rs \<noteq> [] \<and> (\<forall>r\<in>set rs. cap_Use r = KeyUseSigning) then ''sig''
      else if rs \<noteq> [] \<and> (\<forall>r\<in>set rs. cap_Use r = KeyUseEncryption) then ''enc'' else [])"

definition common_algorithm :: "Capability list \<Rightarrow> string" where
  "common_algorithm rs =
     (if rs \<noteq> [] \<and> (\<forall>r\<in>set rs. cap_Algorithm r = cap_Algorithm (hd rs)) then cap_Algorithm (hd rs) else [])"

definition operations_of :: "Capability list \<Rightarrow> string list" where
  "operations_of rs = distinct_first (filter (\<lambda>p. p \<noteq> []) (map cap_Operation rs))"

lemma KeyUses_differ: "KeyUseSigning \<noteq> KeyUseEncryption"
  by (simp add: use_defs)

lemma setJWKMetadata_eq:
  assumes "jwk_use jwk = []" "jwk_key_ops jwk = []" "jwk_alg jwk = []"
  shows "setJWKMetadata jwk rs = jwk\<lparr>jwk_use := common_use rs, jwk_key_ops := operations_of rs,
     jwk_alg := common_algorithm rs\<rparr>"
proof (cases rs)
  case Nil
  then show ?thesis using assms
    by (simp add: setJWKMetadata_def common_use_def operations_of_def common_algorithm_def distinct_first_def)
next
  case (Cons r rest)
  have loop: "metadata_loop u a rs (True, True, []) =
      (\<forall>r\<in>set rs. cap_Use r = u, \<forall>r\<in>set rs. cap_Algorithm r = a, operations_of rs)" for u a
    using metadata_loop_eq [of u a rs True True "[]"] by (simp add: operations_of_def distinct_first_def)
  have r: "rs ! 0 = r" "rs \<noteq> []" using Cons by simp_all
  have "common_use rs = (if \<forall>x\<in>set rs. cap_Use x = cap_Use r
      then if cap_Use r = KeyUseSigning then ''sig'' else if cap_Use r = KeyUseEncryption then ''enc'' else []
      else [])"
    using Cons KeyUses_differ by (auto simp: common_use_def)
  moreover have "common_algorithm rs = (if \<forall>x\<in>set rs. cap_Algorithm x = cap_Algorithm r then cap_Algorithm r else [])"
    using Cons by (simp add: common_algorithm_def)
  ultimately show ?thesis
    by (simp add: setJWKMetadata_def r loop Let_def assms)
qed

lemma restrictions_again:
  assumes "jwk_use jwk = common_use rs" "jwk_key_ops jwk = operations_of rs" "jwk_alg jwk = common_algorithm rs"
  shows "restrictionsFromJWK jwk =
     (if common_algorithm rs = [] then []
      else map (\<lambda>p. Cap (if common_use rs = ''sig'' then KeyUseSigning else if common_use rs = ''enc''
             then KeyUseEncryption else default_use p) p (common_algorithm rs)) (operations_of rs))"
  using assms by (simp add: restrictionsFromJWK_def restrictions_loop_eq)

section \<open>Headers through text\<close>

lemma fst_fields [simp]:
  "fst (string_field n upd) = n" "fst (strings_field n upd') = n" "fst (raw_messages_field n upd'') = n"
  by (simp_all add: string_field_def strings_field_def raw_messages_field_def)

lemma plain_header [simp]: "plain_members (header_members jwk)"
  by (simp add: header_members_def)

lemma plain_certificate [simp]: "plain_members (certificate_members jwk)"
  by (simp add: certificate_members_def)

lemma find_header:
  "find_field ''kty'' (header_fields @ others) = Some (string_field ''kty'' jwk_kty_update)"
  "find_field ''kid'' (header_fields @ others) = Some (string_field ''kid'' jwk_kid_update)"
  "find_field ''use'' (header_fields @ others) = Some (string_field ''use'' jwk_use_update)"
  "find_field ''key_ops'' (header_fields @ others) = Some (strings_field ''key_ops'' jwk_key_ops_update)"
  "find_field ''alg'' (header_fields @ others) = Some (string_field ''alg'' jwk_alg_update)"
  by (simp_all add: find_field_def header_fields_def)

lemma unmarshal_header:
  fixes r :: "'a jwk_header_scheme" and others :: "'a jwk_header_scheme json_field list"
  assumes "jwk_kid r = []" "jwk_use r = []" "jwk_key_ops r = []" "jwk_alg r = []"
  shows "unmarshal_members (header_fields @ others) (clean_members (header_members jwk)) (r, None) =
     (r\<lparr>jwk_kty := to_valid (jwk_kty jwk), jwk_kid := to_valid (jwk_kid jwk), jwk_use := to_valid (jwk_use jwk),
        jwk_key_ops := map to_valid (jwk_key_ops jwk), jwk_alg := to_valid (jwk_alg jwk)\<rparr>, None)"
proof -
  note finds = find_header [of others]
  have empty: "r'\<lparr>jwk_kid := []\<rparr> = r'" if "jwk_kid r' = []" for r' :: "'a jwk_header_scheme" using that by simp
  show ?thesis
    using assms unfolding header_members_def clean_append unmarshal_append
    by (simp add: unmarshal_string_member [OF _ finds(1)] unmarshal_nonempty_member [OF _ finds(2)]
      unmarshal_nonempty_member [OF _ finds(3)] unmarshal_nonempty_strings [OF _ finds(4)]
      unmarshal_nonempty_member [OF _ finds(5)])
qed

text \<open>A key whose strings are well-formed UTF-8, so that JSON keeps them.\<close>

definition valid_strings :: "Key \<Rightarrow> bool" where
  "valid_strings key \<longleftrightarrow> valid_utf8 (key_id key)
     \<and> (\<forall>r\<in>set (key_restrictions key). valid_utf8 (cap_Operation r) \<and> valid_utf8 (cap_Algorithm r))"

lemma valid_header:
  assumes "\<forall>r\<in>set rs. valid_utf8 (cap_Operation r) \<and> valid_utf8 (cap_Algorithm r)"
  shows "to_valid (common_use rs) = common_use rs" "map to_valid (operations_of rs) = operations_of rs"
    "to_valid (common_algorithm rs) = common_algorithm rs"
proof -
  show "to_valid (common_use rs) = common_use rs"
    by (simp add: common_use_def to_valid_ASCII_string)
  have "\<forall>p\<in>set (operations_of rs). to_valid p = p"
    using assms by (auto simp: operations_of_def valid_utf8_def)
  then show "map to_valid (operations_of rs) = operations_of rs" by (simp add: map_idI)
  show "to_valid (common_algorithm rs) = common_algorithm rs"
    using assms by (cases rs) (auto simp: common_algorithm_def valid_utf8_def)
qed

text \<open>The restrictions that a decoded JWK has, for those of the key that was encoded.\<close>

definition kept_restrictions :: "Capability list \<Rightarrow> Capability list" where
  "kept_restrictions rs =
     restrictionsFromJWK (setJWKMetadata
       \<lparr>jwk_kty = [], jwk_kid = [], jwk_use = [], jwk_key_ops = [], jwk_alg = []\<rparr> rs)"

lemma kept_restrictions_eq:
  "jwk_use jwk = common_use rs \<Longrightarrow> jwk_key_ops jwk = operations_of rs \<Longrightarrow> jwk_alg jwk = common_algorithm rs \<Longrightarrow>
     restrictionsFromJWK jwk = kept_restrictions rs"
  by (simp add: restrictions_again kept_restrictions_def setJWKMetadata_eq)

lemma b64_text_valid [simp]: "to_valid (b64_EncodeToString RawURLEncoding bs) = b64_EncodeToString RawURLEncoding bs"
  "to_valid (b64_EncodeToString StdEncoding bs) = b64_EncodeToString StdEncoding bs"
proof -
  have "ASCII (b64_alphabet RawURLEncoding @ ''='')" "ASCII (b64_alphabet StdEncoding @ ''='')" by code_simp+
  then have "ASCII (b64_EncodeToString RawURLEncoding bs)" "ASCII (b64_EncodeToString StdEncoding bs)"
    using b64_EncodeToString_chars [OF sound_encodings(1), of bs] b64_EncodeToString_chars [OF sound_encodings(2), of bs]
    unfolding ASCII_def by auto
  then show "to_valid (b64_EncodeToString RawURLEncoding bs) = b64_EncodeToString RawURLEncoding bs"
    "to_valid (b64_EncodeToString StdEncoding bs) = b64_EncodeToString StdEncoding bs"
    by (simp_all add: to_valid_ASCII_string)
qed

section \<open>The options of the calls\<close>

lemma encode_option_Ok_iff:
  "encode_option name ctx options = Ok option \<longleftrightarrow>
     ctx 0 = None
     \<and> (options = [] \<and> option = \<lparr>opt_MaterialPolicy = ExportPublicMaterial\<rparr> \<or> options = [option])
     \<and> opt_MaterialPolicy option \<in> {ExportPublicMaterial, ExportPrivateMaterial}"
  by (cases options) (auto simp: encode_option_def Let_def split: option.split if_splits)

lemma decode_option_Ok_iff: "decode_option name ctx options = Ok u \<longleftrightarrow> ctx 0 = None \<and> length options \<le> 1"
  by (auto simp: decode_option_def split: option.split)

lemma private_option_iff:
  "(\<exists>option. encode_option name ctx options = Ok option \<and> opt_MaterialPolicy option = ExportPrivateMaterial)
     \<longleftrightarrow> ctx 0 = None \<and> options = [\<lparr>opt_MaterialPolicy = ExportPrivateMaterial\<rparr>]"
proof -
  have "ExportPublicMaterial \<noteq> ExportPrivateMaterial"
    by (simp add: ExportPublicMaterial_def ExportPrivateMaterial_def)
  moreover have "option = \<lparr>opt_MaterialPolicy = ExportPrivateMaterial\<rparr>"
    if "opt_MaterialPolicy option = ExportPrivateMaterial" for option :: JOSEEncodeOption
    using that by (cases option) simp
  ultimately show ?thesis by (auto simp: encode_option_Ok_iff)
qed

text \<open>The policy that the options of a call amount to.\<close>

definition export_policy :: "JOSEEncodeOption list \<Rightarrow> MaterialExportPolicy" where
  "export_policy options =
     (if options = [] then ExportPublicMaterial else opt_MaterialPolicy (options ! 0))"

lemma encode_option_policy:
  "encode_option name ctx options = Ok option \<Longrightarrow> opt_MaterialPolicy option = export_policy options \<and> ctx 0 = None"
  by (auto simp: encode_option_Ok_iff export_policy_def)

text \<open>A certificate that the parser gives for its own bytes, as every parsed certificate is.\<close>

fun parsed_certificate :: "certificate_parser \<Rightarrow> material option \<Rightarrow> bool" where
  "parsed_certificate parse (Some (CertificateMaterial (Some (Some cert)))) \<longleftrightarrow> parse (cert_Raw cert) = Inr cert"
| "parsed_certificate parse m \<longleftrightarrow> True"

lemma Clone_parsed:
  assumes "parsed_certificate parse (Some m)" "\<And>k. m \<noteq> PrivateMaterial (Some (PrivRSA (Some k)))"
  shows "Clone parse m = m"
proof (cases "(parse, m)" rule: Clone.cases)
  case (2 parse' k)
  then show ?thesis using assms(2) by (cases k rule: clonePrivateKey.cases) auto
next
  case (6 parse' c)
  then show ?thesis using assms(1) by (cases c) auto
qed auto

text \<open>The certificate that \<open>setCertificate\<close> writes passes the checks of the decoder.\<close>

lemma certificate_again:
  assumes "jp_ParseCertificate jp raw = Inr cert" "cert_Raw cert = raw"
    "jwk_x5c jwk = [b64_EncodeToString StdEncoding raw]"
    "jwk_x5t jwk = b64_EncodeToString RawURLEncoding (jp_sha1_Sum jp raw)"
    "jwk_x5tS256 jwk = b64_EncodeToString RawURLEncoding (jp_sha256_Sum256 jp raw)"
  shows "x5cCertificate name jp jwk = Ok cert" "checkThumbprints name jp cert jwk = Ok ()"
  using assms by (simp_all add: x5cCertificate_def checkThumbprints_def)

lemma certificate_finds:
  "fst ` set (certificate_fields :: 'a certificate_jwk_scheme json_field list) = {''x5c'', ''x5t'', ''x5t#S256''}"
  by (auto simp: certificate_fields_def)

section \<open>Properties\<close>

text \<open>
  Restrictions that a JWK can express: one algorithm, operations with a name, and uses that a decoder finds
  again. Those among them without two restrictions for one operation come back as they were.
\<close>

definition expressible :: "Capability list \<Rightarrow> bool" where
  "expressible rs \<longleftrightarrow>
     (\<exists>a. a \<noteq> [] \<and> (\<forall>r\<in>set rs. cap_Algorithm r = a \<and> cap_Operation r \<noteq> []))
     \<and> ((\<forall>r\<in>set rs. cap_Use r = KeyUseSigning) \<or> (\<forall>r\<in>set rs. cap_Use r = KeyUseEncryption)
        \<or> (\<forall>r\<in>set rs. cap_Use r = default_use (cap_Operation r)))"

definition restorable :: "Capability list \<Rightarrow> bool" where
  "restorable rs \<longleftrightarrow> expressible rs \<and> distinct (map cap_Operation rs)"

lemma kept_map:
  "kept_restrictions rs =
     (if common_algorithm rs = [] then []
      else map (\<lambda>p. Cap (if common_use rs = ''sig'' then KeyUseSigning else if common_use rs = ''enc''
             then KeyUseEncryption else default_use p) p (common_algorithm rs)) (operations_of rs))"
  by (simp add: kept_restrictions_def setJWKMetadata_eq restrictions_again)

lemma Cap_simps [simp]: "cap_Use (Cap u p a) = u" "cap_Operation (Cap u p a) = p" "cap_Algorithm (Cap u p a) = a"
  by (simp_all add: Cap_def)

lemma Cap_eta: "Cap (cap_Use r) (cap_Operation r) (cap_Algorithm r) = r"
  by (simp add: Cap_def)

lemma map_distinct_first:
  "\<forall>x\<in>set xs. g (f x) = x \<Longrightarrow> List.map g (distinct_first (List.map f xs)) = distinct_first xs"
proof (induction xs rule: rev_induct)
  case (snoc x xs)
  then have "inj_on f (set (xs @ [x]))" by (blast intro: inj_on_inverseI)
  then have "f x \<in> f ` set xs \<longleftrightarrow> x \<in> set xs" by (auto simp: inj_on_def)
  then show ?case using snoc by (simp add: distinct_first_snoc)
qed (simp add: distinct_first_def)

lemma kept_expressible:
  assumes "expressible rs"
  shows "kept_restrictions rs = distinct_first rs"
proof (cases "rs = []")
  case True
  then show ?thesis by (simp add: kept_map common_algorithm_def distinct_first_def)
next
  case False
  obtain a where a: "a \<noteq> []" "\<forall>r\<in>set rs. cap_Algorithm r = a \<and> cap_Operation r \<noteq> []"
    using assms by (auto simp: expressible_def)
  let ?cap = "\<lambda>p. Cap (if common_use rs = ''sig'' then KeyUseSigning else if common_use rs = ''enc''
      then KeyUseEncryption else default_use p) p a"
  have alg: "common_algorithm rs = a" using a False by (cases rs) (auto simp: common_algorithm_def)
  have "filter (\<lambda>p. p \<noteq> []) (map cap_Operation rs) = map cap_Operation rs"
    using a by (auto simp: filter_id_conv)
  then have ops: "operations_of rs = distinct_first (map cap_Operation rs)" by (simp add: operations_of_def)
  have "?cap (cap_Operation r) = r" if "r \<in> set rs" for r
  proof -
    have "(if common_use rs = ''sig'' then KeyUseSigning else if common_use rs = ''enc''
        then KeyUseEncryption else default_use (cap_Operation r)) = cap_Use r"
      using assms that False KeyUses_differ by (auto simp: expressible_def common_use_def)
    then show ?thesis using a(2) that Cap_eta [of r] by auto
  qed
  then have "map ?cap (distinct_first (map cap_Operation rs)) = distinct_first rs"
    by (intro map_distinct_first) blast
  then show ?thesis using a(1) by (simp add: kept_map alg ops)
qed

lemma restored_iff:
  assumes "rs \<noteq> []"
  shows "kept_restrictions rs = rs \<longleftrightarrow> restorable rs"
proof
  assume kept: "kept_restrictions rs = rs"
  then have alg: "common_algorithm rs \<noteq> []" using assms by (auto simp: kept_map)
  let ?use = "\<lambda>p. if common_use rs = ''sig'' then KeyUseSigning else if common_use rs = ''enc''
             then KeyUseEncryption else default_use p"
  have rs: "rs = map (\<lambda>p. Cap (?use p) p (common_algorithm rs)) (operations_of rs)"
    using kept alg unfolding kept_map by simp
  then have "map cap_Operation rs = map cap_Operation (map (\<lambda>p. Cap (?use p) p (common_algorithm rs)) (operations_of rs))"
    by (rule arg_cong)
  then have ops: "map cap_Operation rs = operations_of rs" by (simp add: comp_def)
  have all: "cap_Algorithm r = common_algorithm rs \<and> cap_Use r = ?use (cap_Operation r) \<and> cap_Operation r \<in> set (operations_of rs)"
    if "r \<in> set rs" for r
  proof -
    have "r \<in> set (map (\<lambda>p. Cap (?use p) p (common_algorithm rs)) (operations_of rs))" using that rs by simp
    then show ?thesis by auto
  qed
  have "(\<forall>r\<in>set rs. cap_Use r = KeyUseSigning) \<or> (\<forall>r\<in>set rs. cap_Use r = KeyUseEncryption)
      \<or> (\<forall>r\<in>set rs. cap_Use r = default_use (cap_Operation r))"
    using all by (cases "common_use rs = ''sig''"; cases "common_use rs = ''enc''") auto
  moreover have "\<forall>r\<in>set rs. cap_Operation r \<noteq> []" using all by (auto simp: operations_of_def)
  moreover have "distinct (map cap_Operation rs)" unfolding ops by (simp add: operations_of_def)
  ultimately show "restorable rs" using all alg unfolding restorable_def expressible_def by blast
next
  assume r: "restorable rs"
  then have "distinct rs" by (simp add: restorable_def distinct_map)
  then show "kept_restrictions rs = rs"
    using r kept_expressible [of rs] by (simp add: restorable_def distinct_first_id)
qed

text \<open>
  What a JWK does with any list of restrictions: the list comes back as it was exactly if it is empty or
  \<open>restorable\<close>; and nothing comes back, so that the decoded key is an unrestricted one, exactly if the
  restrictions name several algorithms or none, or no operation.
\<close>

theorem jwk_restrictions_exact:
  "(kept_restrictions rs = rs \<longleftrightarrow> rs = [] \<or> restorable rs)
   \<and> (kept_restrictions rs = [] \<longleftrightarrow> common_algorithm rs = [] \<or> operations_of rs = [])"
  using restored_iff [of rs] by (cases "rs = []") (auto simp: kept_map common_algorithm_def)

text \<open>C38: A JWK preserves the restrictions of a key for one algorithm. If all restrictions name the same
  algorithm, each names an operation, and their uses are all signing, all encryption, or those that belong
  to the operations, then the restrictions decoded from the JWK are the same ones, in the same order and
  each once; a key with the decoded restrictions is selected for exactly the same capabilities as one with
  the restrictions that were encoded.\<close>

theorem jwk_restrictions_preserved:
  assumes "expressible rs" "jwk_use jwk = []" "jwk_key_ops jwk = []" "jwk_alg jwk = []"
  shows "set (restrictionsFromJWK (setJWKMetadata jwk rs)) = set rs
     \<and> distinct (restrictionsFromJWK (setJWKMetadata jwk rs))
     \<and> (distinct rs \<longrightarrow> restrictionsFromJWK (setJWKMetadata jwk rs) = rs)
     \<and> (WithCapability capability (key\<lparr>key_restrictions := restrictionsFromJWK (setJWKMetadata jwk rs)\<rparr>)
          \<longleftrightarrow> WithCapability capability (key\<lparr>key_restrictions := rs\<rparr>))"
proof -
  have "restrictionsFromJWK (setJWKMetadata jwk rs) = kept_restrictions rs"
    by (rule kept_restrictions_eq) (simp_all add: setJWKMetadata_eq [OF assms(2-4)])
  then have kept: "restrictionsFromJWK (setJWKMetadata jwk rs) = distinct_first rs"
    using kept_expressible [OF assms(1)] by simp
  have "distinct_first rs = [] \<longleftrightarrow> rs = []" by (metis set_distinct_first set_empty)
  then show ?thesis unfolding kept by (simp add: WithCapability_iff distinct_first_id)
qed

theorem jwk_restrictions_preserved_witness:
  "restrictionsFromJWK (setJWKMetadata
       \<lparr>jwk_kty = ''EC'', jwk_kid = [], jwk_use = [], jwk_key_ops = [], jwk_alg = []\<rparr>
       [Cap KeyUseSigning KeyOpSign ''ES256'', Cap KeyUseSigning KeyOpVerify ''ES256''])
     = [Cap KeyUseSigning KeyOpSign ''ES256'', Cap KeyUseSigning KeyOpVerify ''ES256'']
   \<and> set (restrictionsFromJWK (setJWKMetadata
       \<lparr>jwk_kty = ''oct'', jwk_kid = [], jwk_use = [], jwk_key_ops = [], jwk_alg = []\<rparr>
       [Cap KeyUseSigning KeyOpVerify ''X'', Cap KeyUseEncryption KeyOpDecrypt ''X'']))
     = {Cap KeyUseSigning KeyOpVerify ''X'', Cap KeyUseEncryption KeyOpDecrypt ''X''}"
proof -
  let ?rs = "[Cap KeyUseSigning KeyOpSign ''ES256'', Cap KeyUseSigning KeyOpVerify ''ES256'']"
  let ?rs' = "[Cap KeyUseSigning KeyOpVerify ''X'', Cap KeyUseEncryption KeyOpDecrypt ''X'']"
  have "expressible ?rs" "expressible ?rs'" by (simp_all add: expressible_def op_defs default_use_def)
  moreover have "distinct ?rs" by (simp add: Cap_def op_defs)
  ultimately show ?thesis
    using jwk_restrictions_preserved [of ?rs "\<lparr>jwk_kty = ''EC'', jwk_kid = [], jwk_use = [], jwk_key_ops = [], jwk_alg = []\<rparr>"]
      jwk_restrictions_preserved [of ?rs' "\<lparr>jwk_kty = ''oct'', jwk_kid = [], jwk_use = [], jwk_key_ops = [], jwk_alg = []\<rparr>"]
    by simp
qed

end
