(* ===== verification/Sym_Jose.thy ===== *)
theory Sym_Jose
  imports Jose_Common
begin

text \<open>
  The JOSE codec of the package \<^verbatim>\<open>backend/symetric\<close>: JWKs of type \<^verbatim>\<open>oct\<close>, which are exported only when
  private material may be.
\<close>

section \<open>The JWK\<close>

record symmetricJWK = jwk_header +
  jwk_k :: string

definition zero_symmetricJWK :: symmetricJWK where
  "zero_symmetricJWK =
     \<lparr>jwk_kty = [], jwk_kid = [], jwk_use = [], jwk_key_ops = [], jwk_alg = [], jwk_k = []\<rparr>"

definition symmetricJWK_fields :: "symmetricJWK json_field list" where
  "symmetricJWK_fields = header_fields @ [string_field ''k'' jwk_k_update]"

definition symmetricJWK_members :: "symmetricJWK \<Rightarrow> (string \<times> json) list" where
  "symmetricJWK_members jwk = header_members jwk @ string_member ''k'' (jwk_k jwk)"

section \<open>The encoder\<close>

definition setSymmetricJWKMetadata :: "symmetricJWK \<Rightarrow> Capability list \<Rightarrow> symmetricJWK" where
  "setSymmetricJWKMetadata = setJWKMetadata"

fun sym_SupportsMaterial :: "material \<Rightarrow> bool" where
  "sym_SupportsMaterial (SymmetricMaterial value) = True"
| "sym_SupportsMaterial value = False"

definition sym_Encode :: "certificate_parser \<Rightarrow> ctxt \<Rightarrow> Key \<Rightarrow> JOSEEncodeOption list \<Rightarrow> bytes res" where
  "sym_Encode parse ctx value options =
     bind_res (encode_option ''symetric JOSE encoder'' ctx options) (\<lambda>option.
       if opt_MaterialPolicy option \<noteq> ExportPrivateMaterial
       then Err (Errorf ''symetric JOSE encoder: symmetric material export is not permitted'' [])
       else
         (case Key_Material parse value of
            Some (SymmetricMaterial None) \<Rightarrow> Panic ''nil pointer dereference''
          | Some (SymmetricMaterial (Some k)) \<Rightarrow>
              if length k = 0 then Err (Errorf ''symetric JOSE encoder: key is empty'' [])
              else
                Ok (json_Marshal (symmetricJWK_members
                  (setSymmetricJWKMetadata
                    (zero_symmetricJWK\<lparr>jwk_kty := ''oct'', jwk_kid := key_id value,
                       jwk_k := b64_EncodeToString RawURLEncoding k\<rparr>)
                    (Key_Restrictions value))))
          | _ \<Rightarrow> Err (Errorf ''symetric JOSE encoder: material is not symmetric'' [])))"

definition sym_JOSEEncoder :: "certificate_parser \<Rightarrow> JOSEEncoder" where
  "sym_JOSEEncoder parse =
     \<lparr>jenc_SupportsMaterial = (\<lambda>m. Ok (sym_SupportsMaterial m)), jenc_Encode = sym_Encode parse\<rparr>"

section \<open>The decoder\<close>

definition sym_SupportsJOSEKeyType :: "string \<Rightarrow> bool" where
  "sym_SupportsJOSEKeyType keyType = (keyType = ''oct'')"

definition symmetricRestrictionsFromJWK :: "symmetricJWK \<Rightarrow> Capability list" where
  "symmetricRestrictionsFromJWK = restrictionsFromJWK"

definition sym_Decode :: "ctxt \<Rightarrow> bytes \<Rightarrow> JOSEDecodeOption list \<Rightarrow> KeyCandidate res" where
  "sym_Decode ctx encoded options =
     bind_res (decode_option ''symetric JOSE decoder'' ctx options) (\<lambda>_.
       (case json_Unmarshal symmetricJWK_fields encoded zero_symmetricJWK of
          (jwk, Some err) \<Rightarrow> Err (Wrapf ''symetric JOSE decoder: unmarshal JWK: %w'' [] err)
        | (jwk, None) \<Rightarrow>
            if \<not> sym_SupportsJOSEKeyType (jwk_kty jwk)
            then Err (Errorf ''symetric JOSE decoder: unsupported kty %q'' [StrArg (jwk_kty jwk)])
            else if jwk_k jwk = []
            then Err (Errorf ''symetric JOSE decoder: parameter %q is missing'' [StrArg ''k''])
            else
              (case b64_DecodeString RawURLEncoding (jwk_k jwk) of
                 Inl err \<Rightarrow> Err (Wrapf ''symetric JOSE decoder: decode parameter %q: %w'' [StrArg ''k''] err)
               | Inr decodedKey \<Rightarrow>
                   if length decodedKey = 0 then Err (Errorf ''symetric JOSE decoder: key is empty'' [])
                   else
                     Ok (zero_KeyCandidate\<lparr>
                       cand_ID := jwk_kid jwk,
                       cand_Restrictions := symmetricRestrictionsFromJWK jwk,
                       cand_Material := Some (SymmetricMaterial (Some decodedKey))\<rparr>))))"

definition sym_JOSEDecoder :: JOSEDecoder where
  "sym_JOSEDecoder =
     \<lparr>jdec_SupportsJOSEKeyType = sym_SupportsJOSEKeyType, jdec_Decode = sym_Decode\<rparr>"

section \<open>Facts\<close>

lemma plain_symmetricJWK [simp]: "plain_members (symmetricJWK_members jwk)"
  by (simp add: symmetricJWK_members_def)

lemma unmarshal_symmetricJWK:
  "unmarshal_members symmetricJWK_fields (clean_members (symmetricJWK_members jwk)) (zero_symmetricJWK, None) =
     (\<lparr>jwk_kty = to_valid (jwk_kty jwk), jwk_kid = to_valid (jwk_kid jwk), jwk_use = to_valid (jwk_use jwk),
       jwk_key_ops = map to_valid (jwk_key_ops jwk), jwk_alg = to_valid (jwk_alg jwk),
       jwk_k = to_valid (jwk_k jwk)\<rparr>, None)"
proof -
  have find: "find_field ''k'' symmetricJWK_fields = Some (string_field ''k'' jwk_k_update)"
    by (simp add: find_field_def symmetricJWK_fields_def header_fields_def)
  show ?thesis
    unfolding symmetricJWK_members_def clean_append unmarshal_append
    by (simp add: symmetricJWK_fields_def unmarshal_header zero_symmetricJWK_def,
      fold symmetricJWK_fields_def, simp add: unmarshal_string_member [OF _ find])
qed

lemma Key_Material_symmetric:
  "Key_Material parse key = Some (SymmetricMaterial k) \<longleftrightarrow> key_material key = Some (SymmetricMaterial k)"
proof -
  have "Clone parse m = SymmetricMaterial k \<longleftrightarrow> m = SymmetricMaterial k" for m
    by (cases "(parse, m)" rule: Clone.cases) auto
  then show ?thesis by (auto simp: Key_Material_def)
qed

text \<open>When the encoder succeeds, and with what.\<close>

definition sym_jwk_of :: "Key \<Rightarrow> bytes \<Rightarrow> symmetricJWK" where
  "sym_jwk_of key k =
     \<lparr>jwk_kty = ''oct'', jwk_kid = key_id key, jwk_use = common_use (key_restrictions key),
      jwk_key_ops = operations_of (key_restrictions key), jwk_alg = common_algorithm (key_restrictions key),
      jwk_k = b64_EncodeToString RawURLEncoding k\<rparr>"

lemma sym_Encode_Ok_iff:
  "sym_Encode parse ctx key options = Ok encoded \<longleftrightarrow>
     ctx 0 = None \<and> options = [\<lparr>opt_MaterialPolicy = ExportPrivateMaterial\<rparr>]
     \<and> (\<exists>k. key_material key = Some (SymmetricMaterial (Some k)) \<and> k \<noteq> []
          \<and> encoded = json_Marshal (symmetricJWK_members (sym_jwk_of key k)))"
proof -
  have jwk: "setSymmetricJWKMetadata (zero_symmetricJWK\<lparr>jwk_kty := ''oct'', jwk_kid := key_id key,
      jwk_k := b64_EncodeToString RawURLEncoding k\<rparr>) (Key_Restrictions key) = sym_jwk_of key k" for k
    by (simp add: setSymmetricJWKMetadata_def setJWKMetadata_eq zero_symmetricJWK_def Key_Restrictions_def sym_jwk_of_def)
  have "sym_Encode parse ctx key options = Ok encoded \<longleftrightarrow>
      (\<exists>option. encode_option ''symetric JOSE encoder'' ctx options = Ok option
         \<and> opt_MaterialPolicy option = ExportPrivateMaterial)
      \<and> (\<exists>k. Key_Material parse key = Some (SymmetricMaterial (Some k)) \<and> k \<noteq> []
         \<and> encoded = json_Marshal (symmetricJWK_members (sym_jwk_of key k)))"
    unfolding sym_Encode_def bind_res_Ok_iff
    by (auto simp: jwk split: option.splits material.splits)
  then show ?thesis by (simp add: private_option_iff Key_Material_symmetric)
qed

section \<open>Property\<close>

text \<open>What the encoder writes, the decoder reads back, under any live context.\<close>

lemma sym_reads:
  assumes "sym_Encode parse ctx key options = Ok encoded" "valid_strings key"
    and "ctx' 0 = None"
  shows "ctx 0 = None \<and> options = [\<lparr>opt_MaterialPolicy = ExportPrivateMaterial\<rparr>]
     \<and> (\<exists>k. k \<noteq> [] \<and> key_material key = Some (SymmetricMaterial (Some k))
        \<and> sym_Decode ctx' encoded [] = Ok (zero_KeyCandidate\<lparr>
             cand_ID := key_id key, cand_Restrictions := kept_restrictions (key_restrictions key),
             cand_Material := Some (SymmetricMaterial (Some k))\<rparr>))"
proof -
  obtain k where k: "ctx 0 = None" "options = [\<lparr>opt_MaterialPolicy = ExportPrivateMaterial\<rparr>]"
      "key_material key = Some (SymmetricMaterial (Some k))" "k \<noteq> []"
      "encoded = json_Marshal (symmetricJWK_members (sym_jwk_of key k))"
    using assms(1) unfolding sym_Encode_Ok_iff by blast
  have "(\<forall>r\<in>set (key_restrictions key). valid_utf8 (cap_Operation r) \<and> valid_utf8 (cap_Algorithm r))"
    "to_valid (key_id key) = key_id key"
    using assms(2) by (auto simp: valid_strings_def valid_utf8_def)
  note valid = valid_header [OF this(1)] this(2)
  have "json_Unmarshal symmetricJWK_fields encoded zero_symmetricJWK = (sym_jwk_of key k, None)"
    unfolding k(5) by (simp add: Unmarshal_Marshal unmarshal_symmetricJWK)
      (simp add: sym_jwk_of_def valid to_valid_ASCII_string)
  moreover have "symmetricRestrictionsFromJWK (sym_jwk_of key k) = kept_restrictions (key_restrictions key)"
    unfolding symmetricRestrictionsFromJWK_def by (rule kept_restrictions_eq) (simp_all add: sym_jwk_of_def)
  ultimately show ?thesis using k(1-4) assms(3)
    by (simp add: sym_Decode_def decode_option_def sym_SupportsJOSEKeyType_def)
      (simp add: sym_jwk_of_def)
qed

text \<open>The encoder of symmetric keys succeeds only when a single option permits private material, the context is
  live and the key is not empty; what it writes, the decoder reads back as a candidate with the key's
  identifier, its bytes, and its restrictions as far as a JWK can express them. Malformed UTF-8 in the
  identifier or the restrictions does not survive, so it is excluded.\<close>

theorem sym_jose_roundtrip:
  assumes "sym_Encode parse ctx key options = Ok encoded" "valid_strings key"
  shows "ctx 0 = None \<and> options = [\<lparr>opt_MaterialPolicy = ExportPrivateMaterial\<rparr>]
     \<and> (\<exists>k. k \<noteq> [] \<and> key_material key = Some (SymmetricMaterial (Some k))
        \<and> sym_Decode background encoded [] = Ok (zero_KeyCandidate\<lparr>
             cand_ID := key_id key, cand_Restrictions := kept_restrictions (key_restrictions key),
             cand_Material := Some (SymmetricMaterial (Some k))\<rparr>))"
  by (rule sym_reads [OF assms background_apply])

definition sample_symmetric_key :: Key where
  "sample_symmetric_key = key_New (\<lambda>_. Inl (External 0))
     (zero_KeyCandidate\<lparr>cand_ID := ''k1'', cand_Restrictions := [Cap KeyUseSigning KeyOpSign HS256],
        cand_Material := Some (SymmetricMaterial (Some [1, 2, 3]))\<rparr>) None"

theorem sym_jose_roundtrip_witness:
  "\<exists>encoded. sym_Encode (\<lambda>_. Inl (External 0)) background sample_symmetric_key
        [\<lparr>opt_MaterialPolicy = ExportPrivateMaterial\<rparr>] = Ok encoded
     \<and> (\<exists>c. sym_Decode background encoded [] = Ok c \<and> cand_ID c = ''k1''
        \<and> cand_Restrictions c = [Cap KeyUseSigning KeyOpSign HS256])"
proof -
  have m: "key_material sample_symmetric_key = Some (SymmetricMaterial (Some [1, 2, 3]))"
    "key_restrictions sample_symmetric_key = [Cap KeyUseSigning KeyOpSign HS256]"
    "key_id sample_symmetric_key = ''k1''"
    by (simp_all add: sample_symmetric_key_def key_New_def)
  obtain encoded where e: "sym_Encode (\<lambda>_. Inl (External 0)) background sample_symmetric_key
      [\<lparr>opt_MaterialPolicy = ExportPrivateMaterial\<rparr>] = Ok encoded"
    using sym_Encode_Ok_iff [of "\<lambda>_. Inl (External 0)" background sample_symmetric_key] m(1) by auto
  have valid: "valid_strings sample_symmetric_key"
    by (simp add: valid_strings_def m ASCII_valid op_defs HS256_def)
  have "restorable [Cap KeyUseSigning KeyOpSign HS256]"
    by (simp add: restorable_def expressible_def op_defs HS256_def)
  then have "kept_restrictions [Cap KeyUseSigning KeyOpSign HS256] = [Cap KeyUseSigning KeyOpSign HS256]"
    using restored_iff by blast
  then show ?thesis using sym_jose_roundtrip [OF e valid] e by (auto simp: m)
qed

end
