(* ===== verification/Ec_Jose.thy ===== *)
theory Ec_Jose
  imports Jose_Common
begin

text \<open>
  The JOSE codec of the package \<^verbatim>\<open>backend/ec\<close>: public keys, private keys and certificates on the three
  NIST curves as JWKs of type \<^verbatim>\<open>EC\<close>.
\<close>

section \<open>The JWK\<close>

record ecJWK = certificate_jwk +
  ejwk_crv :: string
  ejwk_x :: string
  ejwk_y :: string
  ejwk_d :: string

definition zero_ecJWK :: ecJWK where
  "zero_ecJWK =
     \<lparr>jwk_kty = [], jwk_kid = [], jwk_use = [], jwk_key_ops = [], jwk_alg = [],
      jwk_x5c = [], jwk_x5t = [], jwk_x5tS256 = [], ejwk_crv = [], ejwk_x = [], ejwk_y = [], ejwk_d = []\<rparr>"

definition ecJWK_fields :: "ecJWK json_field list" where
  "ecJWK_fields =
     header_fields
     @ [string_field ''crv'' ejwk_crv_update, string_field ''x'' ejwk_x_update, string_field ''y'' ejwk_y_update,
        string_field ''d'' ejwk_d_update]
     @ certificate_fields"

definition ecJWK_members :: "ecJWK \<Rightarrow> (string \<times> json) list" where
  "ecJWK_members jwk =
     header_members jwk
     @ string_member ''crv'' (ejwk_crv jwk) @ string_member ''x'' (ejwk_x jwk) @ string_member ''y'' (ejwk_y jwk)
     @ nonempty_member ''d'' (ejwk_d jwk)
     @ certificate_members jwk"

section \<open>Curves and coordinates\<close>

fun joseCurveName :: "elliptic_curve option \<Rightarrow> string option" where
  "joseCurveName (Some P256) = Some ''P-256''"
| "joseCurveName (Some P384) = Some ''P-384''"
| "joseCurveName (Some P521) = Some ''P-521''"
| "joseCurveName curve = None"

definition curveFromJOSEName :: "string \<Rightarrow> elliptic_curve option" where
  "curveFromJOSEName name =
     (if name = ''P-256'' then Some P256
      else if name = ''P-384'' then Some P384
      else if name = ''P-521'' then Some P521
      else None)"

text \<open>The bytes of a coordinate; a curve without parameters makes the expression panic.\<close>

definition coordinate_size :: "elliptic_curve \<Rightarrow> nat res" where
  "coordinate_size curve =
     (case Params curve of
        None \<Rightarrow> Panic ''nil pointer dereference''
      | Some params \<Rightarrow> Ok ((curve_BitSize params + 7) div 8))"

definition encodeCoordinate :: "int option \<Rightarrow> elliptic_curve \<Rightarrow> string res" where
  "encodeCoordinate value curve =
     bind_res (coordinate_size curve) (\<lambda>size.
       (case value of
          None \<Rightarrow> Panic ''nil pointer dereference''
        | Some v \<Rightarrow> bind_res (FillBytes v size) (\<lambda>encoded. Ok (b64_EncodeToString RawURLEncoding encoded))))"

definition decodeCoordinate :: "string \<Rightarrow> string \<Rightarrow> elliptic_curve \<Rightarrow> int res" where
  "decodeCoordinate name encoded curve =
     (if encoded = [] then Err (Errorf ''EC JOSE decoder: parameter %q is missing'' [StrArg name])
      else
        (case b64_DecodeString RawURLEncoding encoded of
           Inl err \<Rightarrow> Err (Wrapf ''EC JOSE decoder: decode parameter %q: %w'' [StrArg name] err)
         | Inr decoded \<Rightarrow>
             bind_res (coordinate_size curve) (\<lambda>wantSize.
               if length decoded \<noteq> wantSize
               then Err (Errorf ''EC JOSE decoder: parameter %q has length %d, want %d''
                      [StrArg name, IntArg (int (length decoded)), IntArg (int wantSize)])
               else Ok (SetBytes decoded))))"

section \<open>Keys\<close>

definition validatePrivateKey :: "jose_primitives \<Rightarrow> ecdsa_PrivateKey option \<Rightarrow> unit res" where
  "validatePrivateKey jp privateKey =
     (case privateKey of
        None \<Rightarrow> Err (Errorf ''private scalar is out of range'' [])
      | Some k \<Rightarrow>
          (case (ec_Curve (ec_PublicPart k), ec_D k) of
             (Some curve, Some d) \<Rightarrow>
               if d \<le> 0 then Err (Errorf ''private scalar is out of range'' [])
               else
                 (case Params curve of
                    None \<Rightarrow> Panic ''nil pointer dereference''
                  | Some params \<Rightarrow>
                      if int (curve_N params) \<le> d then Err (Errorf ''private scalar is out of range'' [])
                      else
                        (case (ec_X (ec_PublicPart k), ec_Y (ec_PublicPart k)) of
                           (Some x, Some y) \<Rightarrow>
                             if \<not> jp_IsOnCurve jp curve x y then Err (Errorf ''invalid public point'' [])
                             else if jp_ScalarBaseMult jp curve (big_Bytes d) \<noteq> (x, y)
                             then Err (Errorf ''private scalar does not match public point'' [])
                             else Ok ()
                         | _ \<Rightarrow> Err (Errorf ''invalid public point'' [])))
           | _ \<Rightarrow> Err (Errorf ''private scalar is out of range'' [])))"

text \<open>\<^verbatim>\<open>equalPublicKeys\<close>; \<^verbatim>\<open>Cmp\<close> of a nil coordinate panics.\<close>

definition equalPublicKeys :: "ecdsa_PublicKey option \<Rightarrow> ecdsa_PublicKey option \<Rightarrow> bool res" where
  "equalPublicKeys first second =
     (case (first, second) of
        (Some p, Some q) \<Rightarrow>
          if ec_Curve p \<noteq> ec_Curve q then Ok False
          else
            (case (ec_X p, ec_X q) of
               (Some px, Some qx) \<Rightarrow>
                 if px \<noteq> qx then Ok False
                 else (case (ec_Y p, ec_Y q) of
                         (Some py, Some qy) \<Rightarrow> Ok (py = qy)
                       | _ \<Rightarrow> Panic ''nil pointer dereference'')
             | _ \<Rightarrow> Panic ''nil pointer dereference'')
      | _ \<Rightarrow> Ok False)"

section \<open>The encoder\<close>

definition ec_setJWKMetadata :: "ecJWK \<Rightarrow> Capability list \<Rightarrow> ecJWK" where
  "ec_setJWKMetadata = setJWKMetadata"

definition ec_setPublicJWK :: "jose_primitives \<Rightarrow> ecJWK \<Rightarrow> ecdsa_PublicKey option \<Rightarrow> ecJWK res" where
  "ec_setPublicJWK jp jwk publicKey =
     (case publicKey of
        None \<Rightarrow> Panic ''nil pointer dereference''
      | Some k \<Rightarrow>
          (case (joseCurveName (ec_Curve k), ec_Curve k) of
             (Some curveName, Some curve) \<Rightarrow>
               (case (ec_X k, ec_Y k) of
                  (Some x, Some y) \<Rightarrow>
                    if \<not> jp_IsOnCurve jp curve x y then Err (Errorf ''EC JOSE encoder: invalid public key'' [])
                    else
                      bind_res (encodeCoordinate (Some x) curve) (\<lambda>encodedX.
                      bind_res (encodeCoordinate (Some y) curve) (\<lambda>encodedY.
                      Ok (jwk\<lparr>ejwk_crv := curveName, ejwk_x := encodedX, ejwk_y := encodedY\<rparr>)))
                | _ \<Rightarrow> Err (Errorf ''EC JOSE encoder: invalid public key'' []))
           | _ \<Rightarrow> Err (Errorf ''EC JOSE encoder: unsupported curve'' [])))"

fun ec_SupportsMaterial :: "material \<Rightarrow> bool res" where
  "ec_SupportsMaterial (PublicMaterial None) = Panic ''nil pointer dereference''"
| "ec_SupportsMaterial (PublicMaterial (Some k)) = Ok (case k of PubECDSA p \<Rightarrow> True | _ \<Rightarrow> False)"
| "ec_SupportsMaterial (PrivateMaterial None) = Panic ''nil pointer dereference''"
| "ec_SupportsMaterial (PrivateMaterial (Some k)) = Ok (case k of PrivECDSA p \<Rightarrow> True | _ \<Rightarrow> False)"
| "ec_SupportsMaterial (CertificateMaterial None) = Panic ''nil pointer dereference''"
| "ec_SupportsMaterial (CertificateMaterial (Some None)) = Ok False"
| "ec_SupportsMaterial (CertificateMaterial (Some (Some cert))) =
     Ok (case cert_PublicKey cert of PubECDSA p \<Rightarrow> True | _ \<Rightarrow> False)"
| "ec_SupportsMaterial value = Ok False"

text \<open>The type switch of \<^verbatim>\<open>Encode\<close> on the material.\<close>

fun ec_encode_material :: "jose_primitives \<Rightarrow> MaterialExportPolicy \<Rightarrow> ecJWK \<Rightarrow> material option \<Rightarrow> ecJWK res" where
  "ec_encode_material jp policy jwk (Some (PublicMaterial None)) = Panic ''nil pointer dereference''"
| "ec_encode_material jp policy jwk (Some (PublicMaterial (Some k))) =
     (case k of
        PubECDSA publicKey \<Rightarrow> ec_setPublicJWK jp jwk publicKey
      | _ \<Rightarrow> Err (Errorf ''EC JOSE encoder: material is not an EC public key'' []))"
| "ec_encode_material jp policy jwk (Some (PrivateMaterial None)) = Panic ''nil pointer dereference''"
| "ec_encode_material jp policy jwk (Some (PrivateMaterial (Some k))) =
     (case k of
        PrivECDSA privateKey \<Rightarrow>
          bind_res (map_err (Wrapf ''EC JOSE encoder: invalid private key: %w'' []) (validatePrivateKey jp privateKey)) (\<lambda>_.
          bind_res (ec_setPublicJWK jp jwk (Some (ec_PublicPart (the privateKey)))) (\<lambda>jwk.
            if policy = ExportPrivateMaterial
            then bind_res (encodeCoordinate (ec_D (the privateKey)) (the (ec_Curve (ec_PublicPart (the privateKey)))))
                   (\<lambda>encoded. Ok (jwk\<lparr>ejwk_d := encoded\<rparr>))
            else Ok jwk))
      | _ \<Rightarrow> Err (Errorf ''EC JOSE encoder: material is not an EC private key'' []))"
| "ec_encode_material jp policy jwk (Some (CertificateMaterial None)) = Panic ''nil pointer dereference''"
| "ec_encode_material jp policy jwk (Some (CertificateMaterial (Some None))) =
     Err (Errorf ''EC JOSE encoder: certificate is nil'' [])"
| "ec_encode_material jp policy jwk (Some (CertificateMaterial (Some (Some cert)))) =
     (case cert_PublicKey cert of
        PubECDSA publicKey \<Rightarrow>
          if length (cert_Raw cert) = 0 then Err (Errorf ''EC JOSE encoder: certificate DER is empty'' [])
          else bind_res (ec_setPublicJWK jp jwk publicKey) (\<lambda>jwk. Ok (setCertificate jp (cert_Raw cert) jwk))
      | _ \<Rightarrow> Err (Errorf ''EC JOSE encoder: certificate does not contain an EC public key'' []))"
| "ec_encode_material jp policy jwk value = Err (Errorf ''EC JOSE encoder: material is not supported'' [])"

definition ec_Encode :: "jose_primitives \<Rightarrow> ctxt \<Rightarrow> Key \<Rightarrow> JOSEEncodeOption list \<Rightarrow> bytes res" where
  "ec_Encode jp ctx value options =
     bind_res (encode_option ''EC JOSE encoder'' ctx options) (\<lambda>option.
     bind_res
       (ec_encode_material jp (opt_MaterialPolicy option)
         (ec_setJWKMetadata (zero_ecJWK\<lparr>jwk_kty := ''EC'', jwk_kid := key_id value\<rparr>) (Key_Restrictions value))
         (Key_Material (jp_ParseCertificate jp) value))
       (\<lambda>jwk. Ok (json_Marshal (ecJWK_members jwk))))"

definition ec_JOSEEncoder :: "jose_primitives \<Rightarrow> JOSEEncoder" where
  "ec_JOSEEncoder jp = \<lparr>jenc_SupportsMaterial = ec_SupportsMaterial, jenc_Encode = ec_Encode jp\<rparr>"

section \<open>The decoder\<close>

definition ec_SupportsJOSEKeyType :: "string \<Rightarrow> bool" where
  "ec_SupportsJOSEKeyType keyType = (keyType = ''EC'')"

definition ec_publicKeyFromJWK :: "jose_primitives \<Rightarrow> ecJWK \<Rightarrow> ecdsa_PublicKey res" where
  "ec_publicKeyFromJWK jp jwk =
     (case curveFromJOSEName (ejwk_crv jwk) of
        None \<Rightarrow> Err (Errorf ''EC JOSE decoder: unsupported curve %q'' [StrArg (ejwk_crv jwk)])
      | Some curve \<Rightarrow>
          bind_res (decodeCoordinate ''x'' (ejwk_x jwk) curve) (\<lambda>x.
          bind_res (decodeCoordinate ''y'' (ejwk_y jwk) curve) (\<lambda>y.
            if \<not> jp_IsOnCurve jp curve x y
            then Err (Errorf ''EC JOSE decoder: public point is not on curve %q'' [StrArg (ejwk_crv jwk)])
            else Ok \<lparr>ec_Curve = Some curve, ec_X = Some x, ec_Y = Some y\<rparr>)))"

definition ec_privateKeyFromJWK :: "jose_primitives \<Rightarrow> ecJWK \<Rightarrow> ecdsa_PublicKey \<Rightarrow> ecdsa_PrivateKey res" where
  "ec_privateKeyFromJWK jp jwk publicKey =
     bind_res (decodeCoordinate ''d'' (ejwk_d jwk) (the (ec_Curve publicKey))) (\<lambda>d.
       (let privateKey = \<lparr>ec_PublicPart = publicKey, ec_D = Some d\<rparr> in
        bind_res (map_err (Wrapf ''EC JOSE decoder: invalid private key: %w'' []) (validatePrivateKey jp (Some privateKey)))
          (\<lambda>_. Ok privateKey)))"

definition ec_restrictionsFromJWK :: "ecJWK \<Rightarrow> Capability list" where
  "ec_restrictionsFromJWK = restrictionsFromJWK"

definition ec_decode_material :: "jose_primitives \<Rightarrow> ecJWK \<Rightarrow> ecdsa_PublicKey \<Rightarrow> material res" where
  "ec_decode_material jp jwk publicKey =
     (if length (jwk_x5c jwk) > 0 \<and> ejwk_d jwk \<noteq> []
      then Err (Errorf ''EC JOSE decoder: JWK cannot contain both certificate and private key material'' [])
      else if length (jwk_x5c jwk) > 0
      then
        bind_res (x5cCertificate ''EC JOSE decoder'' jp jwk) (\<lambda>cert.
        bind_res (case cert_PublicKey cert of
                    PubECDSA certificateKey \<Rightarrow> equalPublicKeys certificateKey (Some publicKey)
                  | _ \<Rightarrow> Ok False) (\<lambda>same.
          if \<not> same then Err (Errorf ''EC JOSE decoder: x5c certificate does not match JWK public key'' [])
          else bind_res (checkThumbprints ''EC JOSE decoder'' jp cert jwk) (\<lambda>_.
            Ok (CertificateMaterial (Some (Some cert))))))
      else if ejwk_d jwk \<noteq> []
      then bind_res (ec_privateKeyFromJWK jp jwk publicKey) (\<lambda>privateKey.
             Ok (PrivateMaterial (Some (PrivECDSA (Some privateKey)))))
      else Ok (PublicMaterial (Some (PubECDSA (Some publicKey)))))"

definition ec_Decode :: "jose_primitives \<Rightarrow> ctxt \<Rightarrow> bytes \<Rightarrow> JOSEDecodeOption list \<Rightarrow> KeyCandidate res" where
  "ec_Decode jp ctx encoded options =
     bind_res (decode_option ''EC JOSE decoder'' ctx options) (\<lambda>_.
       (case json_Unmarshal ecJWK_fields encoded zero_ecJWK of
          (jwk, Some err) \<Rightarrow> Err (Wrapf ''EC JOSE decoder: unmarshal JWK: %w'' [] err)
        | (jwk, None) \<Rightarrow>
            if \<not> ec_SupportsJOSEKeyType (jwk_kty jwk)
            then Err (Errorf ''EC JOSE decoder: unsupported kty %q'' [StrArg (jwk_kty jwk)])
            else
              bind_res (ec_publicKeyFromJWK jp jwk) (\<lambda>publicKey.
              bind_res (ec_decode_material jp jwk publicKey) (\<lambda>decodedMaterial.
                Ok (zero_KeyCandidate\<lparr>
                  cand_ID := jwk_kid jwk,
                  cand_Restrictions := ec_restrictionsFromJWK jwk,
                  cand_Material := Some decodedMaterial\<rparr>)))))"

definition ec_JOSEDecoder :: "jose_primitives \<Rightarrow> JOSEDecoder" where
  "ec_JOSEDecoder jp =
     \<lparr>jdec_SupportsJOSEKeyType = ec_SupportsJOSEKeyType, jdec_Decode = ec_Decode jp\<rparr>"

section \<open>Facts\<close>

lemma plain_ecJWK [simp]: "plain_members (ecJWK_members jwk)"
  by (simp add: ecJWK_members_def)

lemma ecJWK_finds:
  "find_field ''crv'' ecJWK_fields = Some (string_field ''crv'' ejwk_crv_update)"
  "find_field ''x'' ecJWK_fields = Some (string_field ''x'' ejwk_x_update)"
  "find_field ''y'' ecJWK_fields = Some (string_field ''y'' ejwk_y_update)"
  "find_field ''d'' ecJWK_fields = Some (string_field ''d'' ejwk_d_update)"
  "find_field ''x5c'' ecJWK_fields = Some (strings_field ''x5c'' jwk_x5c_update)"
  "find_field ''x5t'' ecJWK_fields = Some (string_field ''x5t'' jwk_x5t_update)"
  "find_field ''x5t#S256'' ecJWK_fields = Some (string_field ''x5t#S256'' jwk_x5tS256_update)"
  by (simp_all add: find_field_def ecJWK_fields_def header_fields_def certificate_fields_def)

definition clean_ecJWK :: "ecJWK \<Rightarrow> ecJWK" where
  "clean_ecJWK jwk =
     \<lparr>jwk_kty = to_valid (jwk_kty jwk), jwk_kid = to_valid (jwk_kid jwk), jwk_use = to_valid (jwk_use jwk),
      jwk_key_ops = map to_valid (jwk_key_ops jwk), jwk_alg = to_valid (jwk_alg jwk),
      jwk_x5c = map to_valid (jwk_x5c jwk), jwk_x5t = to_valid (jwk_x5t jwk), jwk_x5tS256 = to_valid (jwk_x5tS256 jwk),
      ejwk_crv = to_valid (ejwk_crv jwk), ejwk_x = to_valid (ejwk_x jwk), ejwk_y = to_valid (ejwk_y jwk),
      ejwk_d = to_valid (ejwk_d jwk)\<rparr>"

lemma unmarshal_ecJWK:
  "unmarshal_members ecJWK_fields (clean_members (ecJWK_members jwk)) (zero_ecJWK, None) = (clean_ecJWK jwk, None)"
proof -
  note members = unmarshal_string_member [OF _ ecJWK_finds(1)] unmarshal_string_member [OF _ ecJWK_finds(2)]
    unmarshal_string_member [OF _ ecJWK_finds(3)] unmarshal_nonempty_member [OF _ ecJWK_finds(4)]
    unmarshal_nonempty_strings [OF _ ecJWK_finds(5)] unmarshal_nonempty_member [OF _ ecJWK_finds(6)]
    unmarshal_nonempty_member [OF _ ecJWK_finds(7)]
  have header: "unmarshal_members ecJWK_fields (clean_members (header_members jwk)) (zero_ecJWK, None) =
      (zero_ecJWK\<lparr>jwk_kty := to_valid (jwk_kty jwk), jwk_kid := to_valid (jwk_kid jwk), jwk_use := to_valid (jwk_use jwk),
        jwk_key_ops := map to_valid (jwk_key_ops jwk), jwk_alg := to_valid (jwk_alg jwk)\<rparr>, None)"
    unfolding ecJWK_fields_def by (rule unmarshal_header) (simp_all add: zero_ecJWK_def)
  show ?thesis
    unfolding ecJWK_members_def certificate_members_def clean_append unmarshal_append header
    by (simp add: zero_ecJWK_def members clean_ecJWK_def)
qed

lemma curve_name_again: "joseCurveName curve = Some name \<Longrightarrow> curveFromJOSEName name = curve \<and> ASCII name"
  by (cases curve rule: joseCurveName.cases) (auto simp: curveFromJOSEName_def)

lemma jose_curve_size:
  "joseCurveName (Some curve) = Some name \<Longrightarrow> \<exists>n. coordinate_size curve = Ok n \<and> 0 < n"
  by (cases curve) (auto simp: coordinate_size_def)

lemma coordinate_again:
  assumes "encodeCoordinate (Some v) curve = Ok encoded" "0 \<le> v" "coordinate_size curve = Ok n" "0 < n"
  shows "decodeCoordinate name encoded curve = Ok v \<and> to_valid encoded = encoded \<and> encoded \<noteq> []"
proof -
  obtain bs where bs: "FillBytes v n = Ok bs" "encoded = b64_EncodeToString RawURLEncoding bs"
    using assms by (auto simp: encodeCoordinate_def)
  have "v < 256 ^ n" using bs(1) assms(2) by (auto simp: FillBytes_def split: if_splits)
  then have "length bs = n" "SetBytes bs = v"
    using FillBytes_SetBytes [OF assms(2) \<open>v < 256 ^ n\<close>] bs(1) by simp_all
  then show ?thesis using bs(2) assms(3,4) by (auto simp: decodeCoordinate_def)
qed

text \<open>\<^verbatim>\<open>IsOnCurve\<close> rejects negative coordinates.\<close>

definition coordinates_nonneg :: "jose_primitives \<Rightarrow> bool" where
  "coordinates_nonneg jp \<longleftrightarrow> (\<forall>curve x y. jp_IsOnCurve jp curve x y \<longrightarrow> 0 \<le> x \<and> 0 \<le> y)"

lemma ec_setPublicJWK_again:
  assumes "ec_setPublicJWK jp jwk publicKey = Ok jwk'" "coordinates_nonneg jp"
  obtains k crv x y where "publicKey = Some k" "jwk' = jwk\<lparr>ejwk_crv := crv, ejwk_x := x, ejwk_y := y\<rparr>"
    "to_valid crv = crv" "to_valid x = x" "to_valid y = y" "joseCurveName (ec_Curve k) = Some crv"
    "\<And>other. ejwk_crv other = crv \<Longrightarrow> ejwk_x other = x \<Longrightarrow> ejwk_y other = y \<Longrightarrow> ec_publicKeyFromJWK jp other = Ok k"
proof -
  obtain k crv curve x y where k: "publicKey = Some k" "joseCurveName (ec_Curve k) = Some crv" "ec_Curve k = Some curve"
      "ec_X k = Some x" "ec_Y k = Some y" "jp_IsOnCurve jp curve x y"
    using assms(1) by (auto simp: ec_setPublicJWK_def split: option.splits if_splits)
  then obtain ex ey where e: "encodeCoordinate (Some x) curve = Ok ex" "encodeCoordinate (Some y) curve = Ok ey"
      "jwk' = jwk\<lparr>ejwk_crv := crv, ejwk_x := ex, ejwk_y := ey\<rparr>"
    using assms(1) by (auto simp: ec_setPublicJWK_def)
  have nonneg: "0 \<le> x" "0 \<le> y" using assms(2) k(6) by (auto simp: coordinates_nonneg_def)
  obtain n where n: "coordinate_size curve = Ok n" "0 < n" using jose_curve_size k(2,3) by metis
  note x = coordinate_again [OF e(1) nonneg(1) n] and y = coordinate_again [OF e(2) nonneg(2) n]
  have "k = \<lparr>ec_Curve = Some curve, ec_X = Some x, ec_Y = Some y\<rparr>" using k by simp
  moreover have "curveFromJOSEName crv = Some curve" "to_valid crv = crv"
    using curve_name_again [of "Some curve" crv] k(2,3) by (auto simp: to_valid_ASCII_string)
  ultimately show ?thesis
    by (intro that [OF k(1) e(3) _ _ _ k(2)]) (simp_all add: ec_publicKeyFromJWK_def x y k(6))
qed

lemma validatePrivateKey_Ok:
  assumes "validatePrivateKey jp privateKey = Ok u"
  obtains k curve d where "privateKey = Some k" "ec_Curve (ec_PublicPart k) = Some curve" "ec_D k = Some d" "0 < d"
  using assms by (auto simp: validatePrivateKey_def split: option.splits if_splits)

section \<open>Property\<close>

text \<open>The material that a decoded JWK has, for the material that was encoded.\<close>

fun ec_exported :: "MaterialExportPolicy \<Rightarrow> material \<Rightarrow> material" where
  "ec_exported policy (PrivateMaterial (Some (PrivECDSA (Some k)))) =
     (if policy = ExportPrivateMaterial then PrivateMaterial (Some (PrivECDSA (Some k)))
      else PublicMaterial (Some (PubECDSA (Some (ec_PublicPart k)))))"
| "ec_exported policy m = m"

lemma ec_setPublicJWK_frame:
  "ec_setPublicJWK jp jwk publicKey = Ok jwk' \<Longrightarrow> \<exists>crv x y. jwk' = jwk\<lparr>ejwk_crv := crv, ejwk_x := x, ejwk_y := y\<rparr>"
  by (auto simp: ec_setPublicJWK_def split: option.splits if_splits)

text \<open>The cases in which the encoder succeeds.\<close>

lemma ec_encode_material_cases:
  assumes "ec_encode_material jp policy jwk (Some m) = Ok jwk'"
  obtains (pub) publicKey where "m = PublicMaterial (Some (PubECDSA publicKey))"
      "ec_setPublicJWK jp jwk publicKey = Ok jwk'"
    | (priv) k jwk1 curve where "m = PrivateMaterial (Some (PrivECDSA (Some k)))"
        "validatePrivateKey jp (Some k) = Ok ()" "ec_setPublicJWK jp jwk (Some (ec_PublicPart k)) = Ok jwk1"
        "ec_Curve (ec_PublicPart k) = Some curve" "policy \<noteq> ExportPrivateMaterial \<Longrightarrow> jwk' = jwk1"
        "policy = ExportPrivateMaterial \<Longrightarrow> \<exists>d. encodeCoordinate (ec_D k) curve = Ok d \<and> jwk' = jwk1\<lparr>ejwk_d := d\<rparr>"
    | (certificate) cert publicKey jwk1 where "m = CertificateMaterial (Some (Some cert))" "cert_Raw cert \<noteq> []"
        "cert_PublicKey cert = PubECDSA publicKey" "ec_setPublicJWK jp jwk publicKey = Ok jwk1"
        "jwk' = setCertificate jp (cert_Raw cert) jwk1"
proof (cases m)
  case (PublicMaterial key)
  then show ?thesis using assms pub by (cases key) (auto split: public_key.splits)
next
  case (PrivateMaterial key)
  then obtain privateKey where p: "key = Some (PrivECDSA privateKey)"
    using assms by (cases key) (auto split: private_key.splits)
  with PrivateMaterial assms have v: "validatePrivateKey jp privateKey = Ok ()" by auto
  then obtain k curve where k: "privateKey = Some k" "ec_Curve (ec_PublicPart k) = Some curve"
    by (elim validatePrivateKey_Ok)
  with PrivateMaterial assms p obtain jwk1 where "ec_setPublicJWK jp jwk (Some (ec_PublicPart k)) = Ok jwk1"
    by auto
  then show ?thesis
    using priv [of k jwk1 curve] PrivateMaterial assms p k v by (auto split: if_splits)
next
  case (CertificateMaterial cert)
  then obtain c where c: "cert = Some (Some c)" using assms by (cases "(jp, policy, jwk, Some m)" rule: ec_encode_material.cases) auto
  with CertificateMaterial assms obtain publicKey where "cert_PublicKey c = PubECDSA publicKey"
    by (auto split: public_key.splits)
  then show ?thesis using certificate CertificateMaterial c assms by (auto split: if_splits)
qed (use assms in simp_all)

lemma ec_encode_material_header:
  assumes "ec_encode_material jp policy jwk (Some m) = Ok jwk'"
  shows "jwk_kty jwk' = jwk_kty jwk \<and> jwk_kid jwk' = jwk_kid jwk \<and> jwk_use jwk' = jwk_use jwk
     \<and> jwk_key_ops jwk' = jwk_key_ops jwk \<and> jwk_alg jwk' = jwk_alg jwk"
  using assms
proof (cases rule: ec_encode_material_cases)
  case (priv k jwk1 curve)
  then show ?thesis using ec_setPublicJWK_frame [OF priv(3)] by (cases "policy = ExportPrivateMaterial") auto
next
  case (certificate cert publicKey jwk1)
  then show ?thesis using ec_setPublicJWK_frame [OF certificate(4)] by (auto simp: setCertificate_def)
next
  case (pub publicKey)
  then show ?thesis using ec_setPublicJWK_frame [OF pub(2)] by auto
qed

text \<open>What the encoder writes for a material, a JWK without certificate and private fields gives back.\<close>

definition ec_texts_valid :: "ecJWK \<Rightarrow> bool" where
  "ec_texts_valid jwk \<longleftrightarrow>
     to_valid (ejwk_crv jwk) = ejwk_crv jwk \<and> to_valid (ejwk_x jwk) = ejwk_x jwk \<and> to_valid (ejwk_y jwk) = ejwk_y jwk
     \<and> to_valid (ejwk_d jwk) = ejwk_d jwk \<and> map to_valid (jwk_x5c jwk) = jwk_x5c jwk
     \<and> to_valid (jwk_x5t jwk) = jwk_x5t jwk \<and> to_valid (jwk_x5tS256 jwk) = jwk_x5tS256 jwk"

lemma ec_material_again:
  assumes "ec_encode_material jp policy jwk (Some m) = Ok jwk'" "coordinates_nonneg jp"
    "parsed_certificate (jp_ParseCertificate jp) (Some m)"
    and fresh: "ejwk_d jwk = []" "jwk_x5c jwk = []" "jwk_x5t jwk = []" "jwk_x5tS256 jwk = []"
  shows "\<exists>k. ec_publicKeyFromJWK jp jwk' = Ok k \<and> ec_decode_material jp jwk' k = Ok (ec_exported policy m)
     \<and> ec_texts_valid jwk'"
  using assms(1)
proof (cases rule: ec_encode_material_cases)
  case (pub publicKey)
  obtain k crv x y where k: "publicKey = Some k" "jwk' = jwk\<lparr>ejwk_crv := crv, ejwk_x := x, ejwk_y := y\<rparr>"
      "to_valid crv = crv" "to_valid x = x" "to_valid y = y" "ec_publicKeyFromJWK jp jwk' = Ok k"
    by (rule ec_setPublicJWK_again [OF pub(2) assms(2)]) auto
  have "ec_decode_material jp jwk' k = Ok (PublicMaterial (Some (PubECDSA (Some k))))"
    unfolding k(2) by (simp add: ec_decode_material_def fresh)
  moreover have "ec_texts_valid jwk'" unfolding k(2) using k(3-5) by (simp add: ec_texts_valid_def fresh)
  ultimately show ?thesis using k(1,6) pub(1) by simp
next
  case (priv k jwk1 curve)
  obtain crv x y where k: "jwk1 = jwk\<lparr>ejwk_crv := crv, ejwk_x := x, ejwk_y := y\<rparr>"
      "to_valid crv = crv" "to_valid x = x" "to_valid y = y" "joseCurveName (Some curve) = Some crv"
      "\<And>other. ejwk_crv other = crv \<Longrightarrow> ejwk_x other = x \<Longrightarrow> ejwk_y other = y
        \<Longrightarrow> ec_publicKeyFromJWK jp other = Ok (ec_PublicPart k)"
    by (rule ec_setPublicJWK_again [OF priv(3) assms(2)]) (use priv(4) in auto)
  show ?thesis
  proof (cases "policy = ExportPrivateMaterial")
    case True
    obtain d where d: "encodeCoordinate (ec_D k) curve = Ok d" "jwk' = jwk1\<lparr>ejwk_d := d\<rparr>" using priv(6) True by blast
    obtain v where v: "ec_D k = Some v" "0 < v" by (rule validatePrivateKey_Ok [OF priv(2)]) auto
    obtain n where n: "coordinate_size curve = Ok n" "0 < n" using jose_curve_size k(5) by blast
    note again = coordinate_again [OF d(1) [unfolded v(1)] _ n, of "''d''"] v(2)
    have pk: "ec_publicKeyFromJWK jp jwk' = Ok (ec_PublicPart k)" using d(2) k(1) by (intro k(6)) simp_all
    have "\<lparr>ec_PublicPart = ec_PublicPart k, ec_D = Some v\<rparr> = k" using v(1) by simp
    then have "ec_privateKeyFromJWK jp jwk' (ec_PublicPart k) = Ok k"
      using again priv(2,4) d(2) by (simp add: ec_privateKeyFromJWK_def)
    then have "ec_decode_material jp jwk' (ec_PublicPart k) = Ok (PrivateMaterial (Some (PrivECDSA (Some k))))"
      using again d(2) k(1) by (simp add: ec_decode_material_def fresh)
    moreover have "ec_texts_valid jwk'" using again d(2) k(1-4) by (simp add: ec_texts_valid_def fresh)
    ultimately show ?thesis using pk priv(1) True by simp
  next
    case False
    then have jwk': "jwk' = jwk\<lparr>ejwk_crv := crv, ejwk_x := x, ejwk_y := y\<rparr>" using priv(5) k(1) by simp
    have "ec_publicKeyFromJWK jp jwk' = Ok (ec_PublicPart k)" unfolding jwk' by (intro k(6)) simp_all
    moreover have "ec_decode_material jp jwk' (ec_PublicPart k) = Ok (PublicMaterial (Some (PubECDSA (Some (ec_PublicPart k)))))"
      unfolding jwk' by (simp add: ec_decode_material_def fresh)
    moreover have "ec_texts_valid jwk'" unfolding jwk' using k(2-4) by (simp add: ec_texts_valid_def fresh)
    ultimately show ?thesis using priv(1) False by simp
  qed
next
  case (certificate cert publicKey jwk1)
  obtain k crv x y where k: "publicKey = Some k" "jwk1 = jwk\<lparr>ejwk_crv := crv, ejwk_x := x, ejwk_y := y\<rparr>"
      "to_valid crv = crv" "to_valid x = x" "to_valid y = y"
      "\<And>other. ejwk_crv other = crv \<Longrightarrow> ejwk_x other = x \<Longrightarrow> ejwk_y other = y \<Longrightarrow> ec_publicKeyFromJWK jp other = Ok k"
    by (rule ec_setPublicJWK_again [OF certificate(4) assms(2)]) auto
  have jwk': "jwk' = setCertificate jp (cert_Raw cert) (jwk\<lparr>ejwk_crv := crv, ejwk_x := x, ejwk_y := y\<rparr>)"
    using certificate(5) k(2) by simp
  have pk: "ec_publicKeyFromJWK jp jwk' = Ok k" unfolding jwk' by (intro k(6)) (simp_all add: setCertificate_def)
  have parsed: "jp_ParseCertificate jp (cert_Raw cert) = Inr cert" using assms(3) certificate(1) by simp
  have again: "x5cCertificate ''EC JOSE decoder'' jp jwk' = Ok cert" "checkThumbprints ''EC JOSE decoder'' jp cert jwk' = Ok ()"
    using certificate_again [OF parsed refl, of jwk'] by (simp_all add: jwk' setCertificate_def)
  obtain px py where "ec_X k = Some px" "ec_Y k = Some py" using certificate(4) k(1)
    by (auto simp: ec_setPublicJWK_def split: option.splits)
  then have same: "equalPublicKeys (Some k) (Some k) = Ok True" by (simp add: equalPublicKeys_def)
  have "ec_decode_material jp jwk' k = Ok (CertificateMaterial (Some (Some cert)))"
    unfolding ec_decode_material_def using again certificate(3) k(1) same
    by (simp add: jwk' setCertificate_def fresh)
  moreover have "ec_texts_valid jwk'" unfolding jwk' using k(3-5) by (simp add: ec_texts_valid_def setCertificate_def fresh)
  ultimately show ?thesis using pk certificate(1) by simp
qed

lemma Key_Material_certificate:
  assumes "parsed_certificate parse (key_material key)" "\<And>k. key_material key \<noteq> Some (PrivateMaterial (Some (PrivRSA k)))"
  shows "Key_Material parse key = key_material key"
  using assms by (cases "key_material key") (auto simp: Key_Material_def Clone_parsed)

lemma ec_Encode_OkE:
  assumes "ec_Encode jp ctx key options = Ok encoded"
  obtains jwk where "ctx 0 = None" "encoded = json_Marshal (ecJWK_members jwk)"
    "ec_encode_material jp (export_policy options)
       (ec_setJWKMetadata (zero_ecJWK\<lparr>jwk_kty := ''EC'', jwk_kid := key_id key\<rparr>) (key_restrictions key))
       (Key_Material (jp_ParseCertificate jp) key) = Ok jwk"
proof -
  obtain option where o: "encode_option ''EC JOSE encoder'' ctx options = Ok option"
    using assms by (auto simp: ec_Encode_def)
  show ?thesis
    using assms that o encode_option_policy [OF o] by (auto simp: ec_Encode_def Key_Restrictions_def)
qed

text \<open>What the encoder writes, the decoder reads back, under any live context.\<close>

lemma ec_reads:
  assumes "ec_Encode jp ctx key options = Ok encoded" "valid_strings key" "coordinates_nonneg jp"
    and "parsed_certificate (jp_ParseCertificate jp) (key_material key)"
    and "ctx' 0 = None"
  shows "\<exists>m. key_material key = Some m
     \<and> ec_Decode jp ctx' encoded [] = Ok (zero_KeyCandidate\<lparr>
          cand_ID := key_id key, cand_Restrictions := kept_restrictions (key_restrictions key),
          cand_Material := Some (ec_exported (export_policy options) m)\<rparr>)"
proof -
  let ?jwk = "ec_setJWKMetadata (zero_ecJWK\<lparr>jwk_kty := ''EC'', jwk_kid := key_id key\<rparr>) (key_restrictions key)"
  obtain jwk where e: "encoded = json_Marshal (ecJWK_members jwk)"
      "ec_encode_material jp (export_policy options) ?jwk (Key_Material (jp_ParseCertificate jp) key) = Ok jwk"
    using assms(1) by (rule ec_Encode_OkE)
  obtain m where m: "key_material key = Some m" using e(2) by (cases "key_material key") (auto simp: Key_Material_def)
  have "m \<noteq> PrivateMaterial (Some (PrivRSA k))" for k
    using e(2) m by (cases k) (auto simp: Key_Material_def)
  then have mat: "Key_Material (jp_ParseCertificate jp) key = Some m" using Key_Material_certificate assms(4) m by auto
  have header: "?jwk = zero_ecJWK\<lparr>jwk_kty := ''EC'', jwk_kid := key_id key, jwk_use := common_use (key_restrictions key),
      jwk_key_ops := operations_of (key_restrictions key), jwk_alg := common_algorithm (key_restrictions key)\<rparr>"
    unfolding ec_setJWKMetadata_def by (subst setJWKMetadata_eq) (simp_all add: zero_ecJWK_def)
  note e' = e(2) [unfolded mat header]
  obtain k where k: "ec_publicKeyFromJWK jp jwk = Ok k" "ec_texts_valid jwk"
      "ec_decode_material jp jwk k = Ok (ec_exported (export_policy options) m)"
    using ec_material_again [OF e' assms(3) assms(4) [unfolded m]] by (auto simp: zero_ecJWK_def)
  note fields = ec_encode_material_header [OF e', simplified]
  have "(\<forall>r\<in>set (key_restrictions key). valid_utf8 (cap_Operation r) \<and> valid_utf8 (cap_Algorithm r))"
    "to_valid (key_id key) = key_id key"
    using assms(2) by (auto simp: valid_strings_def valid_utf8_def)
  note valid = valid_header [OF this(1)] this(2)
  have "clean_ecJWK jwk = jwk"
    using k(2) fields valid by (simp add: clean_ecJWK_def ec_texts_valid_def to_valid_ASCII_string)
  then have "json_Unmarshal ecJWK_fields encoded zero_ecJWK = (jwk, None)"
    unfolding e(1) by (simp add: Unmarshal_Marshal unmarshal_ecJWK)
  moreover have "ec_restrictionsFromJWK jwk = kept_restrictions (key_restrictions key)"
    unfolding ec_restrictionsFromJWK_def by (rule kept_restrictions_eq) (simp_all add: fields)
  ultimately show ?thesis
    using m k(1,3) fields assms(5) by (simp add: ec_Decode_def decode_option_def ec_SupportsJOSEKeyType_def)
qed

text \<open>C39: What the encoder of EC keys writes, the decoder reads back: the key's identifier, its restrictions
  as far as a JWK can express them, and its material, of which a private key is reduced to its public
  part unless the option permits private material. A certificate must be one that the parser gives for
  its own bytes, and strings must be well-formed UTF-8.\<close>

theorem ec_jose_roundtrip:
  assumes "ec_Encode jp ctx key options = Ok encoded" "valid_strings key" "coordinates_nonneg jp"
    and "parsed_certificate (jp_ParseCertificate jp) (key_material key)"
  shows "\<exists>m. key_material key = Some m
     \<and> ec_Decode jp background encoded [] = Ok (zero_KeyCandidate\<lparr>
          cand_ID := key_id key, cand_Restrictions := kept_restrictions (key_restrictions key),
          cand_Material := Some (ec_exported (export_policy options) m)\<rparr>)"
  by (rule ec_reads [OF assms background_apply])

text \<open>A curve on which every pair of non-negative numbers lies.\<close>

definition sample_jose :: jose_primitives where
  "sample_jose = \<lparr>
     jp_ParseCertificate = (\<lambda>_. Inl (External 0)), jp_sha1_Sum = (\<lambda>_. []), jp_sha256_Sum256 = (\<lambda>_. []),
     jp_IsOnCurve = (\<lambda>_ x y. 0 \<le> x \<and> 0 \<le> y), jp_ScalarBaseMult = (\<lambda>_ d. (SetBytes d, SetBytes d)),
     jp_rsa_Validate = (\<lambda>_. None),
     jp_rsa_Precompute = (\<lambda>_. \<lparr>rsa_Dp = Some 1, rsa_Dq = Some 2, rsa_Qinv = Some 3\<rparr>)\<rparr>"

definition sample_ec_jose_key :: Key where
  "sample_ec_jose_key = key_New (\<lambda>_. Inl (External 0))
     (zero_KeyCandidate\<lparr>cand_ID := ''e1'',
        cand_Material := Some (PrivateMaterial (Some (PrivECDSA (Some
          \<lparr>ec_PublicPart = \<lparr>ec_Curve = Some P256, ec_X = Some 5, ec_Y = Some 5\<rparr>, ec_D = Some 5\<rparr>))))\<rparr>) None"

lemma sample_jose_nonneg: "coordinates_nonneg sample_jose"
  by (simp add: coordinates_nonneg_def sample_jose_def)

lemma sample_coordinate: "\<exists>s. encodeCoordinate (Some 5) P256 = Ok s"
  by (simp add: encodeCoordinate_def coordinate_size_def FillBytes_def)

lemma sample_ec_encoded:
  "\<exists>encoded. ec_Encode sample_jose background sample_ec_jose_key [] = Ok encoded"
proof -
  obtain s where "encodeCoordinate (Some 5) P256 = Ok s" using sample_coordinate by blast
  then show ?thesis
    by (simp add: ec_Encode_def sample_ec_jose_key_def key_New_def Key_Material_def encode_option_def
      ExportPublicMaterial_def ExportPrivateMaterial_def validatePrivateKey_def ec_setPublicJWK_def)
      (simp add: sample_jose_def)
qed

theorem ec_jose_roundtrip_witness:
  "\<exists>encoded c. ec_Encode sample_jose background sample_ec_jose_key [] = Ok encoded
     \<and> ec_Decode sample_jose background encoded [] = Ok c
     \<and> cand_Material c = Some (PublicMaterial (Some (PubECDSA (Some
          \<lparr>ec_Curve = Some P256, ec_X = Some 5, ec_Y = Some 5\<rparr>))))"
proof -
  obtain encoded where e: "ec_Encode sample_jose background sample_ec_jose_key [] = Ok encoded"
    using sample_ec_encoded by blast
  have m: "key_material sample_ec_jose_key = Some (PrivateMaterial (Some (PrivECDSA (Some
      \<lparr>ec_PublicPart = \<lparr>ec_Curve = Some P256, ec_X = Some 5, ec_Y = Some 5\<rparr>, ec_D = Some 5\<rparr>))))"
    by (simp add: sample_ec_jose_key_def key_New_def)
  have "valid_strings sample_ec_jose_key"
    by (simp add: valid_strings_def sample_ec_jose_key_def zero_KeyCandidate_def ASCII_valid)
  moreover have "parsed_certificate (jp_ParseCertificate sample_jose) (key_material sample_ec_jose_key)"
    by (simp add: m)
  moreover have "export_policy [] \<noteq> ExportPrivateMaterial"
    by (simp add: export_policy_def ExportPublicMaterial_def ExportPrivateMaterial_def)
  ultimately show ?thesis using ec_jose_roundtrip [OF e _ sample_jose_nonneg] e by (auto simp: m)
qed

end
