(* ===== verification/Rsa_Jose.thy ===== *)
theory Rsa_Jose
  imports Jose_Common
begin

text \<open>
  The JOSE codec of the package \<^verbatim>\<open>backend/rsa\<close>: public keys, private keys of two primes and certificates as
  JWKs of type \<^verbatim>\<open>RSA\<close>.
\<close>

section \<open>The JWK\<close>

record rsaJWK = certificate_jwk +
  rjwk_n :: string
  rjwk_e :: string
  rjwk_d :: string
  rjwk_p :: string
  rjwk_q :: string
  rjwk_dp :: string
  rjwk_dq :: string
  rjwk_qi :: string

definition zero_rsaJWK :: rsaJWK where
  "zero_rsaJWK =
     \<lparr>jwk_kty = [], jwk_kid = [], jwk_use = [], jwk_key_ops = [], jwk_alg = [],
      jwk_x5c = [], jwk_x5t = [], jwk_x5tS256 = [],
      rjwk_n = [], rjwk_e = [], rjwk_d = [], rjwk_p = [], rjwk_q = [], rjwk_dp = [], rjwk_dq = [], rjwk_qi = []\<rparr>"

definition rsaJWK_fields :: "rsaJWK json_field list" where
  "rsaJWK_fields =
     header_fields
     @ [string_field ''n'' rjwk_n_update, string_field ''e'' rjwk_e_update, string_field ''d'' rjwk_d_update,
        string_field ''p'' rjwk_p_update, string_field ''q'' rjwk_q_update, string_field ''dp'' rjwk_dp_update,
        string_field ''dq'' rjwk_dq_update, string_field ''qi'' rjwk_qi_update]
     @ certificate_fields"

definition rsaJWK_members :: "rsaJWK \<Rightarrow> (string \<times> json) list" where
  "rsaJWK_members jwk =
     header_members jwk
     @ string_member ''n'' (rjwk_n jwk) @ string_member ''e'' (rjwk_e jwk)
     @ nonempty_member ''d'' (rjwk_d jwk) @ nonempty_member ''p'' (rjwk_p jwk) @ nonempty_member ''q'' (rjwk_q jwk)
     @ nonempty_member ''dp'' (rjwk_dp jwk) @ nonempty_member ''dq'' (rjwk_dq jwk) @ nonempty_member ''qi'' (rjwk_qi jwk)
     @ certificate_members jwk"

section \<open>The encoder\<close>

definition encodeBigInt :: "int option \<Rightarrow> string" where
  "encodeBigInt value =
     (case value of None \<Rightarrow> [] | Some v \<Rightarrow> b64_EncodeToString RawURLEncoding (big_Bytes v))"

definition rsa_setJWKMetadata :: "rsaJWK \<Rightarrow> Capability list \<Rightarrow> rsaJWK" where
  "rsa_setJWKMetadata = setJWKMetadata"

definition rsa_setPublicJWK :: "rsaJWK \<Rightarrow> rsa_PublicKey option \<Rightarrow> rsaJWK res" where
  "rsa_setPublicJWK jwk publicKey =
     (case publicKey of
        None \<Rightarrow> Panic ''nil pointer dereference''
      | Some k \<Rightarrow>
          Ok (jwk\<lparr>rjwk_n := encodeBigInt (rsa_N k),
                  rjwk_e := b64_EncodeToString RawURLEncoding (big_Bytes (rsa_E k))\<rparr>))"

fun rsa_SupportsMaterial :: "material \<Rightarrow> bool res" where
  "rsa_SupportsMaterial (PublicMaterial None) = Panic ''nil pointer dereference''"
| "rsa_SupportsMaterial (PublicMaterial (Some k)) = Ok (case k of PubRSA p \<Rightarrow> True | _ \<Rightarrow> False)"
| "rsa_SupportsMaterial (PrivateMaterial None) = Panic ''nil pointer dereference''"
| "rsa_SupportsMaterial (PrivateMaterial (Some k)) = Ok (case k of PrivRSA p \<Rightarrow> True | _ \<Rightarrow> False)"
| "rsa_SupportsMaterial (CertificateMaterial None) = Panic ''nil pointer dereference''"
| "rsa_SupportsMaterial (CertificateMaterial (Some None)) = Ok False"
| "rsa_SupportsMaterial (CertificateMaterial (Some (Some cert))) =
     Ok (case cert_PublicKey cert of PubRSA p \<Rightarrow> True | _ \<Rightarrow> False)"
| "rsa_SupportsMaterial value = Ok False"

text \<open>The private fields; the values for the remainder theorem are computed afresh, on a copy of the key.\<close>

definition rsa_setPrivateJWK :: "jose_primitives \<Rightarrow> rsaJWK \<Rightarrow> rsa_PrivateKey \<Rightarrow> rsaJWK res" where
  "rsa_setPrivateJWK jp jwk privateKey =
     (let precomputed = jp_rsa_Precompute jp (privateKey\<lparr>rsa_Precomputed := None\<rparr>) in
      if length (rsa_Primes privateKey) < 2 then Panic ''index out of range''
      else
        Ok (jwk\<lparr>
          rjwk_d := encodeBigInt (rsa_D privateKey),
          rjwk_p := encodeBigInt (rsa_Primes privateKey ! 0),
          rjwk_q := encodeBigInt (rsa_Primes privateKey ! 1),
          rjwk_dp := encodeBigInt (rsa_Dp precomputed),
          rjwk_dq := encodeBigInt (rsa_Dq precomputed),
          rjwk_qi := encodeBigInt (rsa_Qinv precomputed)\<rparr>))"

fun rsa_encode_material :: "jose_primitives \<Rightarrow> MaterialExportPolicy \<Rightarrow> rsaJWK \<Rightarrow> material option \<Rightarrow> rsaJWK res" where
  "rsa_encode_material jp policy jwk (Some (PublicMaterial None)) = Panic ''nil pointer dereference''"
| "rsa_encode_material jp policy jwk (Some (PublicMaterial (Some k))) =
     (case k of
        PubRSA publicKey \<Rightarrow> rsa_setPublicJWK jwk publicKey
      | _ \<Rightarrow> Err (Errorf ''RSA JOSE encoder: material is not an RSA public key'' []))"
| "rsa_encode_material jp policy jwk (Some (PrivateMaterial None)) = Panic ''nil pointer dereference''"
| "rsa_encode_material jp policy jwk (Some (PrivateMaterial (Some k))) =
     (case k of
        PrivRSA None \<Rightarrow> Panic ''nil pointer dereference''
      | PrivRSA (Some privateKey) \<Rightarrow>
          bind_res (map_err (Wrapf ''RSA JOSE encoder: invalid private key: %w'' [])
                      (of_error (jp_rsa_Validate jp privateKey))) (\<lambda>_.
          bind_res (rsa_setPublicJWK jwk (Some (rsa_PublicPart privateKey))) (\<lambda>jwk.
            if policy = ExportPrivateMaterial then rsa_setPrivateJWK jp jwk privateKey else Ok jwk))
      | _ \<Rightarrow> Err (Errorf ''RSA JOSE encoder: material is not an RSA private key'' []))"
| "rsa_encode_material jp policy jwk (Some (CertificateMaterial None)) = Panic ''nil pointer dereference''"
| "rsa_encode_material jp policy jwk (Some (CertificateMaterial (Some None))) =
     Err (Errorf ''RSA JOSE encoder: certificate is nil'' [])"
| "rsa_encode_material jp policy jwk (Some (CertificateMaterial (Some (Some cert)))) =
     (case cert_PublicKey cert of
        PubRSA publicKey \<Rightarrow>
          if length (cert_Raw cert) = 0 then Err (Errorf ''RSA JOSE encoder: certificate DER is empty'' [])
          else bind_res (rsa_setPublicJWK jwk publicKey) (\<lambda>jwk. Ok (setCertificate jp (cert_Raw cert) jwk))
      | _ \<Rightarrow> Err (Errorf ''RSA JOSE encoder: certificate does not contain an RSA public key'' []))"
| "rsa_encode_material jp policy jwk value = Err (Errorf ''RSA JOSE encoder: material is not supported'' [])"

definition rsa_Encode :: "jose_primitives \<Rightarrow> ctxt \<Rightarrow> Key \<Rightarrow> JOSEEncodeOption list \<Rightarrow> bytes res" where
  "rsa_Encode jp ctx value options =
     bind_res (encode_option ''RSA JOSE encoder'' ctx options) (\<lambda>option.
     bind_res
       (rsa_encode_material jp (opt_MaterialPolicy option)
         (rsa_setJWKMetadata (zero_rsaJWK\<lparr>jwk_kty := ''RSA'', jwk_kid := key_id value\<rparr>) (Key_Restrictions value))
         (Key_Material (jp_ParseCertificate jp) value))
       (\<lambda>jwk. Ok (json_Marshal (rsaJWK_members jwk))))"

definition rsa_JOSEEncoder :: "jose_primitives \<Rightarrow> JOSEEncoder" where
  "rsa_JOSEEncoder jp = \<lparr>jenc_SupportsMaterial = rsa_SupportsMaterial, jenc_Encode = rsa_Encode jp\<rparr>"

section \<open>The decoder\<close>

definition rsa_SupportsJOSEKeyType :: "string \<Rightarrow> bool" where
  "rsa_SupportsJOSEKeyType keyType = (keyType = ''RSA'')"

definition decodeBigInt :: "string \<Rightarrow> string \<Rightarrow> int res" where
  "decodeBigInt name encoded =
     (if encoded = [] then Err (Errorf ''RSA JOSE decoder: parameter %q is missing'' [StrArg name])
      else
        (case b64_DecodeString RawURLEncoding encoded of
           Inl err \<Rightarrow> Err (Wrapf ''RSA JOSE decoder: decode parameter %q: %w'' [StrArg name] err)
         | Inr decoded \<Rightarrow>
             (let value = SetBytes decoded in
              if value \<le> 0 then Err (Errorf ''RSA JOSE decoder: parameter %q must be positive'' [StrArg name])
              else Ok value)))"

definition rsa_publicKeyFromJWK :: "rsaJWK \<Rightarrow> rsa_PublicKey res" where
  "rsa_publicKeyFromJWK jwk =
     bind_res (decodeBigInt ''n'' (rjwk_n jwk)) (\<lambda>modulus.
     bind_res (decodeBigInt ''e'' (rjwk_e jwk)) (\<lambda>exponent.
       if \<not> (int64_min \<le> exponent \<and> exponent \<le> int64_max) \<or> exponent < 2 \<or> exponent > int64_max
       then Err (Errorf ''RSA JOSE decoder: invalid exponent'' [])
       else Ok \<lparr>rsa_N = Some modulus, rsa_E = exponent\<rparr>))"

definition has_private :: "rsaJWK \<Rightarrow> bool" where
  "has_private jwk \<longleftrightarrow> rjwk_d jwk \<noteq> [] \<or> rjwk_p jwk \<noteq> [] \<or> rjwk_q jwk \<noteq> [] \<or> rjwk_dp jwk \<noteq> []
     \<or> rjwk_dq jwk \<noteq> [] \<or> rjwk_qi jwk \<noteq> []"

definition same_number :: "int option \<Rightarrow> int \<Rightarrow> bool res" where
  "same_number value v =
     (case value of None \<Rightarrow> Panic ''nil pointer dereference'' | Some w \<Rightarrow> Ok (w = v))"

definition rsa_privateKeyFromJWK :: "jose_primitives \<Rightarrow> rsaJWK \<Rightarrow> rsa_PublicKey \<Rightarrow> rsa_PrivateKey res" where
  "rsa_privateKeyFromJWK jp jwk publicKey =
     (if rjwk_d jwk = [] \<or> rjwk_p jwk = [] \<or> rjwk_q jwk = [] \<or> rjwk_dp jwk = [] \<or> rjwk_dq jwk = [] \<or> rjwk_qi jwk = []
      then Err (Errorf ''RSA JOSE decoder: private JWK parameters d, p, q, dp, dq, and qi are required'' [])
      else
        bind_res (decodeBigInt ''d'' (rjwk_d jwk)) (\<lambda>privateExponent.
        bind_res (decodeBigInt ''p'' (rjwk_p jwk)) (\<lambda>prime1.
        bind_res (decodeBigInt ''q'' (rjwk_q jwk)) (\<lambda>prime2.
        (let privateKey = \<lparr>rsa_PublicPart = publicKey, rsa_D = Some privateExponent,
               rsa_Primes = [Some prime1, Some prime2], rsa_Precomputed = None\<rparr> in
         bind_res (map_err (Wrapf ''RSA JOSE decoder: invalid private key: %w'' [])
                     (of_error (jp_rsa_Validate jp privateKey))) (\<lambda>_.
         (let precomputed = jp_rsa_Precompute jp privateKey in
          bind_res (decodeBigInt ''dp'' (rjwk_dp jwk)) (\<lambda>exponent1.
          bind_res (decodeBigInt ''dq'' (rjwk_dq jwk)) (\<lambda>exponent2.
          bind_res (decodeBigInt ''qi'' (rjwk_qi jwk)) (\<lambda>coefficient.
          bind_res (same_number (rsa_Dp precomputed) exponent1) (\<lambda>same1.
          bind_res (if same1 then same_number (rsa_Dq precomputed) exponent2 else Ok False) (\<lambda>same2.
          bind_res (if same2 then same_number (rsa_Qinv precomputed) coefficient else Ok False) (\<lambda>same3.
            if \<not> same3 then Err (Errorf ''RSA JOSE decoder: private CRT parameters are inconsistent'' [])
            else Ok (privateKey\<lparr>rsa_Precomputed := Some precomputed\<rparr>))))))))))))))"

definition rsa_restrictionsFromJWK :: "rsaJWK \<Rightarrow> Capability list" where
  "rsa_restrictionsFromJWK = restrictionsFromJWK"

text \<open>The comparison of a certificate's key with the key of the JWK.\<close>

definition rsa_certificate_matches :: "public_key \<Rightarrow> rsa_PublicKey \<Rightarrow> bool res" where
  "rsa_certificate_matches key publicKey =
     (case key of
        PubRSA None \<Rightarrow> Panic ''nil pointer dereference''
      | PubRSA (Some certificateKey) \<Rightarrow>
          if rsa_E certificateKey \<noteq> rsa_E publicKey then Ok False
          else same_number (rsa_N certificateKey) (the (rsa_N publicKey))
      | _ \<Rightarrow> Ok False)"

definition rsa_decode_material :: "jose_primitives \<Rightarrow> rsaJWK \<Rightarrow> rsa_PublicKey \<Rightarrow> material res" where
  "rsa_decode_material jp jwk publicKey =
     (if length (jwk_x5c jwk) > 0 \<and> has_private jwk
      then Err (Errorf ''RSA JOSE decoder: JWK cannot contain both certificate and private key material'' [])
      else if length (jwk_x5c jwk) > 0
      then
        bind_res (x5cCertificate ''RSA JOSE decoder'' jp jwk) (\<lambda>cert.
        bind_res (rsa_certificate_matches (cert_PublicKey cert) publicKey) (\<lambda>same.
          if \<not> same then Err (Errorf ''RSA JOSE decoder: x5c certificate does not match JWK public key'' [])
          else bind_res (checkThumbprints ''RSA JOSE decoder'' jp cert jwk) (\<lambda>_.
            Ok (CertificateMaterial (Some (Some cert))))))
      else if has_private jwk
      then bind_res (rsa_privateKeyFromJWK jp jwk publicKey) (\<lambda>privateKey.
             Ok (PrivateMaterial (Some (PrivRSA (Some privateKey)))))
      else Ok (PublicMaterial (Some (PubRSA (Some publicKey)))))"

definition rsa_Decode :: "jose_primitives \<Rightarrow> ctxt \<Rightarrow> bytes \<Rightarrow> JOSEDecodeOption list \<Rightarrow> KeyCandidate res" where
  "rsa_Decode jp ctx encoded options =
     bind_res (decode_option ''RSA JOSE decoder'' ctx options) (\<lambda>_.
       (case json_Unmarshal rsaJWK_fields encoded zero_rsaJWK of
          (jwk, Some err) \<Rightarrow> Err (Wrapf ''RSA JOSE decoder: unmarshal JWK: %w'' [] err)
        | (jwk, None) \<Rightarrow>
            if \<not> rsa_SupportsJOSEKeyType (jwk_kty jwk)
            then Err (Errorf ''RSA JOSE decoder: unsupported kty %q'' [StrArg (jwk_kty jwk)])
            else
              bind_res (rsa_publicKeyFromJWK jwk) (\<lambda>publicKey.
              bind_res (rsa_decode_material jp jwk publicKey) (\<lambda>decodedMaterial.
                Ok (zero_KeyCandidate\<lparr>
                  cand_ID := jwk_kid jwk,
                  cand_Restrictions := rsa_restrictionsFromJWK jwk,
                  cand_Material := Some decodedMaterial\<rparr>)))))"

definition rsa_JOSEDecoder :: "jose_primitives \<Rightarrow> JOSEDecoder" where
  "rsa_JOSEDecoder jp =
     \<lparr>jdec_SupportsJOSEKeyType = rsa_SupportsJOSEKeyType, jdec_Decode = rsa_Decode jp\<rparr>"

section \<open>Facts\<close>

lemma plain_rsaJWK [simp]: "plain_members (rsaJWK_members jwk)"
  by (simp add: rsaJWK_members_def)

lemma rsaJWK_finds:
  "find_field ''n'' rsaJWK_fields = Some (string_field ''n'' rjwk_n_update)"
  "find_field ''e'' rsaJWK_fields = Some (string_field ''e'' rjwk_e_update)"
  "find_field ''d'' rsaJWK_fields = Some (string_field ''d'' rjwk_d_update)"
  "find_field ''p'' rsaJWK_fields = Some (string_field ''p'' rjwk_p_update)"
  "find_field ''q'' rsaJWK_fields = Some (string_field ''q'' rjwk_q_update)"
  "find_field ''dp'' rsaJWK_fields = Some (string_field ''dp'' rjwk_dp_update)"
  "find_field ''dq'' rsaJWK_fields = Some (string_field ''dq'' rjwk_dq_update)"
  "find_field ''qi'' rsaJWK_fields = Some (string_field ''qi'' rjwk_qi_update)"
  "find_field ''x5c'' rsaJWK_fields = Some (strings_field ''x5c'' jwk_x5c_update)"
  "find_field ''x5t'' rsaJWK_fields = Some (string_field ''x5t'' jwk_x5t_update)"
  "find_field ''x5t#S256'' rsaJWK_fields = Some (string_field ''x5t#S256'' jwk_x5tS256_update)"
  by (simp_all add: find_field_def rsaJWK_fields_def header_fields_def certificate_fields_def)

definition clean_rsaJWK :: "rsaJWK \<Rightarrow> rsaJWK" where
  "clean_rsaJWK jwk =
     \<lparr>jwk_kty = to_valid (jwk_kty jwk), jwk_kid = to_valid (jwk_kid jwk), jwk_use = to_valid (jwk_use jwk),
      jwk_key_ops = map to_valid (jwk_key_ops jwk), jwk_alg = to_valid (jwk_alg jwk),
      jwk_x5c = map to_valid (jwk_x5c jwk), jwk_x5t = to_valid (jwk_x5t jwk), jwk_x5tS256 = to_valid (jwk_x5tS256 jwk),
      rjwk_n = to_valid (rjwk_n jwk), rjwk_e = to_valid (rjwk_e jwk), rjwk_d = to_valid (rjwk_d jwk),
      rjwk_p = to_valid (rjwk_p jwk), rjwk_q = to_valid (rjwk_q jwk), rjwk_dp = to_valid (rjwk_dp jwk),
      rjwk_dq = to_valid (rjwk_dq jwk), rjwk_qi = to_valid (rjwk_qi jwk)\<rparr>"

lemma unmarshal_rsaJWK:
  "unmarshal_members rsaJWK_fields (clean_members (rsaJWK_members jwk)) (zero_rsaJWK, None) = (clean_rsaJWK jwk, None)"
proof -
  note members = unmarshal_string_member [OF _ rsaJWK_finds(1)] unmarshal_string_member [OF _ rsaJWK_finds(2)]
    unmarshal_nonempty_member [OF _ rsaJWK_finds(3)] unmarshal_nonempty_member [OF _ rsaJWK_finds(4)]
    unmarshal_nonempty_member [OF _ rsaJWK_finds(5)] unmarshal_nonempty_member [OF _ rsaJWK_finds(6)]
    unmarshal_nonempty_member [OF _ rsaJWK_finds(7)] unmarshal_nonempty_member [OF _ rsaJWK_finds(8)]
    unmarshal_nonempty_strings [OF _ rsaJWK_finds(9)] unmarshal_nonempty_member [OF _ rsaJWK_finds(10)]
    unmarshal_nonempty_member [OF _ rsaJWK_finds(11)]
  have header: "unmarshal_members rsaJWK_fields (clean_members (header_members jwk)) (zero_rsaJWK, None) =
      (zero_rsaJWK\<lparr>jwk_kty := to_valid (jwk_kty jwk), jwk_kid := to_valid (jwk_kid jwk), jwk_use := to_valid (jwk_use jwk),
        jwk_key_ops := map to_valid (jwk_key_ops jwk), jwk_alg := to_valid (jwk_alg jwk)\<rparr>, None)"
    unfolding rsaJWK_fields_def by (rule unmarshal_header) (simp_all add: zero_rsaJWK_def)
  show ?thesis
    unfolding rsaJWK_members_def certificate_members_def clean_append unmarshal_append header
    by (simp add: zero_rsaJWK_def members clean_rsaJWK_def)
qed

lemma decodeBigInt_again:
  "0 < v \<Longrightarrow> decodeBigInt name (b64_EncodeToString RawURLEncoding (big_Bytes v)) = Ok v"
  by (simp add: decodeBigInt_def)

lemma encodeBigInt_valid [simp]: "to_valid (encodeBigInt v) = encodeBigInt v"
  by (simp add: encodeBigInt_def split: option.split)

text \<open>
  Keys that the decoder can accept: a positive modulus and an exponent of at least two for a public key,
  and two primes and positive numbers for a private key.
\<close>

definition regular_public :: "rsa_PublicKey \<Rightarrow> bool" where
  "regular_public k \<longleftrightarrow> (\<exists>n>0. rsa_N k = Some n) \<and> 2 \<le> rsa_E k \<and> rsa_E k \<le> int64_max"

definition positive :: "int option \<Rightarrow> bool" where
  "positive v \<longleftrightarrow> (\<exists>w>0. v = Some w)"

definition regular_private :: "jose_primitives \<Rightarrow> rsa_PrivateKey \<Rightarrow> bool" where
  "regular_private jp k \<longleftrightarrow>
     (let pre = jp_rsa_Precompute jp (k\<lparr>rsa_Precomputed := None\<rparr>) in
      positive (rsa_D k) \<and> (\<exists>p q. rsa_Primes k = [p, q] \<and> positive p \<and> positive q)
      \<and> positive (rsa_Dp pre) \<and> positive (rsa_Dq pre) \<and> positive (rsa_Qinv pre))"

fun regular_material :: "jose_primitives \<Rightarrow> MaterialExportPolicy \<Rightarrow> material option \<Rightarrow> bool" where
  "regular_material jp policy (Some (PublicMaterial (Some (PubRSA (Some k))))) = regular_public k"
| "regular_material jp policy (Some (PrivateMaterial (Some (PrivRSA (Some k))))) \<longleftrightarrow>
     regular_public (rsa_PublicPart k) \<and> (policy = ExportPrivateMaterial \<longrightarrow> regular_private jp k)"
| "regular_material jp policy (Some (CertificateMaterial (Some (Some cert)))) \<longleftrightarrow>
     (\<exists>k. cert_PublicKey cert = PubRSA (Some k) \<and> regular_public k)"
| "regular_material jp policy m = False"

lemma rsa_public_again:
  assumes "regular_public k" "rjwk_n jwk = encodeBigInt (rsa_N k)"
    "rjwk_e jwk = b64_EncodeToString RawURLEncoding (big_Bytes (rsa_E k))"
  shows "rsa_publicKeyFromJWK jwk = Ok k"
  using assms decodeBigInt_again [of "rsa_E k"]
  by (cases k) (auto simp: regular_public_def rsa_publicKeyFromJWK_def encodeBigInt_def decodeBigInt_again int64_min_def)

lemma positiveE: "positive v \<Longrightarrow> (\<And>w. v = Some w \<Longrightarrow> 0 < w \<Longrightarrow> P) \<Longrightarrow> P"
  by (auto simp: positive_def)

lemma rsa_private_again:
  assumes "regular_private jp k" "jp_rsa_Validate jp (k\<lparr>rsa_Precomputed := None\<rparr>) = None"
    and "rsa_setPrivateJWK jp jwk k = Ok jwk'"
  shows "has_private jwk'
     \<and> rsa_privateKeyFromJWK jp jwk' (rsa_PublicPart k) =
         Ok (k\<lparr>rsa_Precomputed := Some (jp_rsa_Precompute jp (k\<lparr>rsa_Precomputed := None\<rparr>))\<rparr>)"
proof -
  let ?k = "k\<lparr>rsa_Precomputed := None\<rparr>" and ?pre = "jp_rsa_Precompute jp (k\<lparr>rsa_Precomputed := None\<rparr>)"
  obtain d p q dp dq qi where v: "rsa_D k = Some d" "0 < d" "rsa_Primes k = [Some p, Some q]" "0 < p" "0 < q"
      "rsa_Dp ?pre = Some dp" "0 < dp" "rsa_Dq ?pre = Some dq" "0 < dq" "rsa_Qinv ?pre = Some qi" "0 < qi"
    using assms(1) by (auto simp: regular_private_def Let_def elim!: positiveE)
  have k: "\<lparr>rsa_PublicPart = rsa_PublicPart k, rsa_D = Some d, rsa_Primes = [Some p, Some q], rsa_Precomputed = None\<rparr> = ?k"
    using v by (cases k) simp
  have jwk': "rjwk_d jwk' = b64_EncodeToString RawURLEncoding (big_Bytes d)"
    "rjwk_p jwk' = b64_EncodeToString RawURLEncoding (big_Bytes p)"
    "rjwk_q jwk' = b64_EncodeToString RawURLEncoding (big_Bytes q)"
    "rjwk_dp jwk' = b64_EncodeToString RawURLEncoding (big_Bytes dp)"
    "rjwk_dq jwk' = b64_EncodeToString RawURLEncoding (big_Bytes dq)"
    "rjwk_qi jwk' = b64_EncodeToString RawURLEncoding (big_Bytes qi)"
    using assms(3) v by (auto simp: rsa_setPrivateJWK_def Let_def encodeBigInt_def)
  show ?thesis
    using v(2,4,5,7,9,11) assms(2)
    by (simp add: has_private_def rsa_privateKeyFromJWK_def jwk' decodeBigInt_again k Let_def same_number_def v(6,8,10))
qed

lemma rsa_setPrivateJWK_frame:
  "rsa_setPrivateJWK jp jwk k = Ok jwk' \<Longrightarrow> \<exists>d p q dp dq qi. jwk' = jwk\<lparr>
     rjwk_d := encodeBigInt d, rjwk_p := encodeBigInt p, rjwk_q := encodeBigInt q,
     rjwk_dp := encodeBigInt dp, rjwk_dq := encodeBigInt dq, rjwk_qi := encodeBigInt qi\<rparr>"
  by (simp add: rsa_setPrivateJWK_def Let_def split: if_splits) blast

section \<open>Property\<close>

text \<open>The material that a decoded JWK has, for the material that was encoded.\<close>

fun rsa_exported :: "jose_primitives \<Rightarrow> MaterialExportPolicy \<Rightarrow> material \<Rightarrow> material" where
  "rsa_exported jp policy (PrivateMaterial (Some (PrivRSA (Some k)))) =
     (if policy = ExportPrivateMaterial
      then PrivateMaterial (Some (PrivRSA (Some
             (k\<lparr>rsa_Precomputed := Some (jp_rsa_Precompute jp (k\<lparr>rsa_Precomputed := None\<rparr>))\<rparr>))))
      else PublicMaterial (Some (PubRSA (Some (rsa_PublicPart k)))))"
| "rsa_exported jp policy m = m"

definition rsa_texts_valid :: "rsaJWK \<Rightarrow> bool" where
  "rsa_texts_valid jwk \<longleftrightarrow>
     to_valid (rjwk_n jwk) = rjwk_n jwk \<and> to_valid (rjwk_e jwk) = rjwk_e jwk \<and> to_valid (rjwk_d jwk) = rjwk_d jwk
     \<and> to_valid (rjwk_p jwk) = rjwk_p jwk \<and> to_valid (rjwk_q jwk) = rjwk_q jwk \<and> to_valid (rjwk_dp jwk) = rjwk_dp jwk
     \<and> to_valid (rjwk_dq jwk) = rjwk_dq jwk \<and> to_valid (rjwk_qi jwk) = rjwk_qi jwk
     \<and> map to_valid (jwk_x5c jwk) = jwk_x5c jwk
     \<and> to_valid (jwk_x5t jwk) = jwk_x5t jwk \<and> to_valid (jwk_x5tS256 jwk) = jwk_x5tS256 jwk"

definition fresh_rsaJWK :: "rsaJWK \<Rightarrow> bool" where
  "fresh_rsaJWK jwk \<longleftrightarrow> \<not> has_private jwk \<and> jwk_x5c jwk = [] \<and> jwk_x5t jwk = [] \<and> jwk_x5tS256 jwk = []"

text \<open>The material as the type switch of the encoder sees it, after the copying by \<^verbatim>\<open>Material()\<close>.\<close>

fun cloned_rsa :: "material \<Rightarrow> material" where
  "cloned_rsa (PrivateMaterial (Some (PrivRSA (Some k)))) =
     PrivateMaterial (Some (PrivRSA (Some (k\<lparr>rsa_Precomputed := None\<rparr>))))"
| "cloned_rsa m = m"

lemma clonePrivateKey_rsa: "clonePrivateKey (PrivRSA (Some k)) = PrivRSA (Some (k\<lparr>rsa_Precomputed := None\<rparr>))"
  by (cases k) simp

lemma Clone_rsa:
  assumes "parsed_certificate parse (Some m)" "regular_material jp policy (Some m)"
  shows "Clone parse m = cloned_rsa m"
  using assms
  by (cases "(jp, policy, Some m)" rule: regular_material.cases)
    (auto simp: clonePrivateKey_rsa simp del: clonePrivateKey.simps)

lemma rsa_material_again:
  assumes "rsa_encode_material jp policy jwk (Some (cloned_rsa m)) = Ok jwk'"
    "parsed_certificate (jp_ParseCertificate jp) (Some m)" "regular_material jp policy (Some m)" "fresh_rsaJWK jwk"
  shows "(\<exists>k. rsa_publicKeyFromJWK jwk' = Ok k \<and> rsa_decode_material jp jwk' k = Ok (rsa_exported jp policy m))
     \<and> rsa_texts_valid jwk'
     \<and> jwk_kty jwk' = jwk_kty jwk \<and> jwk_kid jwk' = jwk_kid jwk \<and> jwk_use jwk' = jwk_use jwk
     \<and> jwk_key_ops jwk' = jwk_key_ops jwk \<and> jwk_alg jwk' = jwk_alg jwk"
proof -
  have fresh: "rjwk_d jwk = []" "rjwk_p jwk = []" "rjwk_q jwk = []" "rjwk_dp jwk = []" "rjwk_dq jwk = []"
    "rjwk_qi jwk = []" "jwk_x5c jwk = []" "jwk_x5t jwk = []" "jwk_x5tS256 jwk = []"
    using assms(4) by (simp_all add: fresh_rsaJWK_def has_private_def)
  let ?pub = "\<lambda>k. jwk\<lparr>rjwk_n := encodeBigInt (rsa_N k), rjwk_e := b64_EncodeToString RawURLEncoding (big_Bytes (rsa_E k))\<rparr>"
  consider (pub) k where "m = PublicMaterial (Some (PubRSA (Some k)))" "regular_public k"
    | (priv) k where "m = PrivateMaterial (Some (PrivRSA (Some k)))" "regular_public (rsa_PublicPart k)"
        "policy = ExportPrivateMaterial \<longrightarrow> regular_private jp k"
    | (certificate) cert k where "m = CertificateMaterial (Some (Some cert))" "cert_PublicKey cert = PubRSA (Some k)"
        "regular_public k"
    using assms(3) by (cases "(jp, policy, Some m)" rule: regular_material.cases) auto
  then show ?thesis
  proof cases
    case pub
    then have jwk': "jwk' = ?pub k" using assms(1) by (simp add: rsa_setPublicJWK_def)
    have "rsa_publicKeyFromJWK jwk' = Ok k" by (rule rsa_public_again [OF pub(2)]) (simp_all add: jwk')
    moreover have "rsa_decode_material jp jwk' k = Ok m"
      by (simp add: rsa_decode_material_def jwk' fresh has_private_def pub(1))
    ultimately show ?thesis using pub(1) by (simp add: jwk' rsa_texts_valid_def fresh)
  next
    case priv
    let ?k = "k\<lparr>rsa_Precomputed := None\<rparr>"
    have part: "rsa_PublicPart ?k = rsa_PublicPart k" by simp
    show ?thesis
    proof (cases "policy = ExportPrivateMaterial")
      case False
      then have jwk': "jwk' = ?pub (rsa_PublicPart k)"
        using assms(1) priv(1) by (auto simp: rsa_setPublicJWK_def)
      have "rsa_publicKeyFromJWK jwk' = Ok (rsa_PublicPart k)" by (rule rsa_public_again [OF priv(2)]) (simp_all add: jwk')
      moreover have "rsa_decode_material jp jwk' (rsa_PublicPart k) = Ok (rsa_exported jp policy m)"
        using False by (simp add: rsa_decode_material_def jwk' fresh has_private_def priv(1))
      ultimately show ?thesis by (simp add: jwk' rsa_texts_valid_def fresh)
    next
      case True
      then have set: "jp_rsa_Validate jp ?k = None" "rsa_setPrivateJWK jp (?pub (rsa_PublicPart k)) ?k = Ok jwk'"
        using assms(1) priv(1) by (auto simp: rsa_setPublicJWK_def)
      have reg: "regular_private jp ?k" using priv(3) True by (simp add: regular_private_def)
      obtain d p q dp dq qi where jwk': "jwk' = (?pub (rsa_PublicPart k))\<lparr>
          rjwk_d := encodeBigInt d, rjwk_p := encodeBigInt p, rjwk_q := encodeBigInt q,
          rjwk_dp := encodeBigInt dp, rjwk_dq := encodeBigInt dq, rjwk_qi := encodeBigInt qi\<rparr>"
        using rsa_setPrivateJWK_frame [OF set(2)] by blast
      note again = rsa_private_again [OF reg _ set(2)]
      have "has_private jwk'" "rsa_privateKeyFromJWK jp jwk' (rsa_PublicPart k) =
          Ok (k\<lparr>rsa_Precomputed := Some (jp_rsa_Precompute jp ?k)\<rparr>)"
        using again set(1) by simp_all
      then have "rsa_decode_material jp jwk' (rsa_PublicPart k) = Ok (rsa_exported jp policy m)"
        using True priv(1) by (simp add: rsa_decode_material_def jwk' fresh)
      moreover have "rsa_publicKeyFromJWK jwk' = Ok (rsa_PublicPart k)"
        by (rule rsa_public_again [OF priv(2)]) (simp_all add: jwk')
      ultimately show ?thesis by (simp add: jwk' rsa_texts_valid_def fresh)
    qed
  next
    case certificate
    then have jwk': "jwk' = setCertificate jp (cert_Raw cert) (?pub k)"
      using assms(1) by (auto simp: rsa_setPublicJWK_def split: if_splits)
    have "jp_ParseCertificate jp (cert_Raw cert) = Inr cert" using assms(2) certificate(1) by simp
    note again = certificate_again [OF this refl, of jwk' "''RSA JOSE decoder''"]
    obtain n where n: "rsa_N k = Some n" using certificate(3) by (auto simp: regular_public_def)
    have "rsa_decode_material jp jwk' k = Ok m"
      using again certificate(1,2) n
      by (simp add: rsa_decode_material_def jwk' setCertificate_def has_private_def fresh
        rsa_certificate_matches_def same_number_def)
    moreover have "rsa_publicKeyFromJWK jwk' = Ok k"
      by (rule rsa_public_again [OF certificate(3)]) (simp_all add: jwk' setCertificate_def)
    ultimately show ?thesis using certificate(1) by (simp add: jwk' setCertificate_def rsa_texts_valid_def fresh)
  qed
qed

text \<open>What the encoder writes, the decoder reads back, under any live context.\<close>

lemma rsa_reads:
  assumes "rsa_Encode jp ctx key options = Ok encoded" "valid_strings key"
    and "parsed_certificate (jp_ParseCertificate jp) (key_material key)"
    and "regular_material jp (export_policy options) (key_material key)"
    and "ctx' 0 = None"
  shows "\<exists>m. key_material key = Some m
     \<and> rsa_Decode jp ctx' encoded [] = Ok (zero_KeyCandidate\<lparr>
          cand_ID := key_id key, cand_Restrictions := kept_restrictions (key_restrictions key),
          cand_Material := Some (rsa_exported jp (export_policy options) m)\<rparr>)"
proof -
  obtain m where m: "key_material key = Some m" using assms(4) by (cases "key_material key") auto
  have mat: "Key_Material (jp_ParseCertificate jp) key = Some (cloned_rsa m)"
    using Clone_rsa assms(3,4) m by (auto simp: Key_Material_def)
  obtain option where o: "encode_option ''RSA JOSE encoder'' ctx options = Ok option"
    using assms(1) by (auto simp: rsa_Encode_def)
  have header: "rsa_setJWKMetadata (zero_rsaJWK\<lparr>jwk_kty := ''RSA'', jwk_kid := key_id key\<rparr>) (key_restrictions key)
      = zero_rsaJWK\<lparr>jwk_kty := ''RSA'', jwk_kid := key_id key, jwk_use := common_use (key_restrictions key),
      jwk_key_ops := operations_of (key_restrictions key), jwk_alg := common_algorithm (key_restrictions key)\<rparr>"
    unfolding rsa_setJWKMetadata_def by (subst setJWKMetadata_eq) (simp_all add: zero_rsaJWK_def)
  obtain jwk where e: "encoded = json_Marshal (rsaJWK_members jwk)"
      "rsa_encode_material jp (export_policy options) (zero_rsaJWK\<lparr>jwk_kty := ''RSA'', jwk_kid := key_id key,
        jwk_use := common_use (key_restrictions key), jwk_key_ops := operations_of (key_restrictions key),
        jwk_alg := common_algorithm (key_restrictions key)\<rparr>) (Some (cloned_rsa m)) = Ok jwk"
    using assms(1) encode_option_policy [OF o] o by (auto simp: rsa_Encode_def mat Key_Restrictions_def header)
  obtain k where k: "rsa_publicKeyFromJWK jwk = Ok k" "rsa_texts_valid jwk"
      "rsa_decode_material jp jwk k = Ok (rsa_exported jp (export_policy options) m)"
      "jwk_kty jwk = ''RSA''" "jwk_kid jwk = key_id key" "jwk_use jwk = common_use (key_restrictions key)"
      "jwk_key_ops jwk = operations_of (key_restrictions key)" "jwk_alg jwk = common_algorithm (key_restrictions key)"
    using rsa_material_again [OF e(2) assms(3) [unfolded m] assms(4) [unfolded m]]
    by (auto simp: fresh_rsaJWK_def has_private_def zero_rsaJWK_def)
  have "(\<forall>r\<in>set (key_restrictions key). valid_utf8 (cap_Operation r) \<and> valid_utf8 (cap_Algorithm r))"
    "to_valid (key_id key) = key_id key"
    using assms(2) by (auto simp: valid_strings_def valid_utf8_def)
  note valid = valid_header [OF this(1)] this(2)
  have "clean_rsaJWK jwk = jwk"
    using k(2,4-8) valid by (simp add: clean_rsaJWK_def rsa_texts_valid_def to_valid_ASCII_string)
  then have "json_Unmarshal rsaJWK_fields encoded zero_rsaJWK = (jwk, None)"
    unfolding e(1) by (simp add: Unmarshal_Marshal unmarshal_rsaJWK)
  moreover have "rsa_restrictionsFromJWK jwk = kept_restrictions (key_restrictions key)"
    unfolding rsa_restrictionsFromJWK_def by (rule kept_restrictions_eq) (simp_all add: k)
  ultimately show ?thesis
    using m k(1,3-5) assms(5) by (simp add: rsa_Decode_def decode_option_def rsa_SupportsJOSEKeyType_def)
qed

text \<open>C40: What the encoder of RSA keys writes, the decoder reads back: the key's identifier, its restrictions as
  far as a JWK can express them, and its material, of which a private key is reduced to its public part
  unless the option permits private material. The key must be one that a JWK can express: a positive
  modulus, an exponent of at least two, and when private fields are written two primes and positive
  numbers.\<close>

theorem rsa_jose_roundtrip:
  assumes "rsa_Encode jp ctx key options = Ok encoded" "valid_strings key"
    and "parsed_certificate (jp_ParseCertificate jp) (key_material key)"
    and "regular_material jp (export_policy options) (key_material key)"
  shows "\<exists>m. key_material key = Some m
     \<and> rsa_Decode jp background encoded [] = Ok (zero_KeyCandidate\<lparr>
          cand_ID := key_id key, cand_Restrictions := kept_restrictions (key_restrictions key),
          cand_Material := Some (rsa_exported jp (export_policy options) m)\<rparr>)"
  by (rule rsa_reads [OF assms background_apply])

definition sample_rsa_jose :: jose_primitives where
  "sample_rsa_jose = \<lparr>
     jp_ParseCertificate = (\<lambda>_. Inl (External 0)), jp_sha1_Sum = (\<lambda>_. []), jp_sha256_Sum256 = (\<lambda>_. []),
     jp_IsOnCurve = (\<lambda>_ _ _. False), jp_ScalarBaseMult = (\<lambda>_ _. (0, 0)), jp_rsa_Validate = (\<lambda>_. None),
     jp_rsa_Precompute = (\<lambda>_. \<lparr>rsa_Dp = Some 1, rsa_Dq = Some 3, rsa_Qinv = Some 2\<rparr>)\<rparr>"

definition sample_rsa_private :: rsa_PrivateKey where
  "sample_rsa_private =
     \<lparr>rsa_PublicPart = \<lparr>rsa_N = Some 15, rsa_E = 3\<rparr>, rsa_D = Some 3, rsa_Primes = [Some 3, Some 5], rsa_Precomputed = None\<rparr>"

definition sample_rsa_jose_key :: Key where
  "sample_rsa_jose_key = key_New (\<lambda>_. Inl (External 0))
     (zero_KeyCandidate\<lparr>cand_ID := ''r1'', cand_Material := Some (PrivateMaterial (Some (PrivRSA (Some sample_rsa_private))))\<rparr>) None"

theorem rsa_jose_roundtrip_witness:
  "\<exists>encoded c. rsa_Encode sample_rsa_jose background sample_rsa_jose_key
        [\<lparr>opt_MaterialPolicy = ExportPrivateMaterial\<rparr>] = Ok encoded
     \<and> rsa_Decode sample_rsa_jose background encoded [] = Ok c
     \<and> cand_Material c = Some (PrivateMaterial (Some (PrivRSA (Some
          (sample_rsa_private\<lparr>rsa_Precomputed := Some \<lparr>rsa_Dp = Some 1, rsa_Dq = Some 3, rsa_Qinv = Some 2\<rparr>\<rparr>)))))"
proof -
  let ?options = "[\<lparr>opt_MaterialPolicy = ExportPrivateMaterial\<rparr>]"
  have m: "key_material sample_rsa_jose_key = Some (PrivateMaterial (Some (PrivRSA (Some sample_rsa_private))))"
    by (simp add: sample_rsa_jose_key_def key_New_def sample_rsa_private_def)
  obtain encoded where e: "rsa_Encode sample_rsa_jose background sample_rsa_jose_key ?options = Ok encoded"
    using m by (simp add: rsa_Encode_def encode_option_def ExportPublicMaterial_def ExportPrivateMaterial_def
      Key_Material_def sample_rsa_jose_def rsa_setPublicJWK_def rsa_setPrivateJWK_def sample_rsa_private_def)
  have "valid_strings sample_rsa_jose_key"
    by (simp add: valid_strings_def sample_rsa_jose_key_def zero_KeyCandidate_def ASCII_valid)
  moreover have "parsed_certificate (jp_ParseCertificate sample_rsa_jose) (key_material sample_rsa_jose_key)"
    by (simp add: m)
  moreover have "regular_material sample_rsa_jose (export_policy ?options) (key_material sample_rsa_jose_key)"
    by (simp add: m regular_public_def regular_private_def positive_def sample_rsa_private_def sample_rsa_jose_def int64_max_def)
  ultimately show ?thesis
    using rsa_jose_roundtrip [OF e] e
    by (auto simp: m export_policy_def sample_rsa_jose_def)
qed

end
