(* ===== verification/Json_Compact.thy ===== *)
theory Json_Compact
  imports Json
begin

text \<open>
  Values of type \<^verbatim>\<open>json.RawMessage\<close> in \<^verbatim>\<open>json.Marshal\<close>: each is checked to be one JSON value and is
  written in compact form, without white space outside its strings and with the characters that are
  special in HTML escaped inside them. A text that \<^verbatim>\<open>Marshal\<close> itself has written is left as it is.
\<close>

section \<open>Compact form\<close>

text \<open>The flag tells whether the text is inside a string literal.\<close>

function compact_chars :: "bool \<Rightarrow> string \<Rightarrow> string" where
  "compact_chars inside [] = []"
| "compact_chars False (c # cs) =
     (if is_space c then compact_chars False cs else c # compact_chars (c = CHR 0x22) cs)"
| "compact_chars True (c # cs) =
     (if c = CHR 0x22 then c # compact_chars False cs
      else if c = backslash then c # take 1 cs @ compact_chars True (drop 1 cs)
      else if c = CHR ''<'' \<or> c = CHR ''>'' \<or> c = CHR ''&'' then escape c @ compact_chars True cs
      else if take 3 (c # cs) = line_separators ! 0 then backslash # ''u2028'' @ compact_chars True (drop 2 cs)
      else if take 3 (c # cs) = line_separators ! 1 then backslash # ''u2029'' @ compact_chars True (drop 2 cs)
      else c # compact_chars True cs)"
  by (metis (full_types) list.exhaust_sel surj_pair) auto
termination by (relation "measure (\<lambda>(inside, s). length s)") auto

declare compact_chars.simps(3) [simp del]

definition json_MarshalerError :: "error \<Rightarrow> error" where
  "json_MarshalerError err = Wrapf ''json: error calling MarshalJSON for type json.RawMessage: %w'' [] err"

text \<open>The nil message is written as null.\<close>

definition json_compact :: "bytes \<Rightarrow> error + string" where
  "json_compact raw =
     (if raw = [] then Inr ''null''
      else
        (case json_parse raw of
           Inl err \<Rightarrow> Inl (json_MarshalerError err)
         | Inr v \<Rightarrow> Inr (compact_chars False (string_of raw))))"

fun compact_all :: "bytes list \<Rightarrow> error + string list" where
  "compact_all [] = Inr []"
| "compact_all (raw # raws) =
     (case json_compact raw of
        Inl err \<Rightarrow> Inl err
      | Inr s \<Rightarrow> (case compact_all raws of Inl err \<Rightarrow> Inl err | Inr ss \<Rightarrow> Inr (s # ss)))"

text \<open>
  \<^verbatim>\<open>json.Marshal\<close> of a struct whose only field is a slice of messages. Only the texts of the elements
  of an array are written, so the values beside them are not needed.
\<close>

definition json_Marshal_raws :: "string \<Rightarrow> bytes list \<Rightarrow> error + bytes" where
  "json_Marshal_raws name raws =
     (case compact_all raws of
        Inl err \<Rightarrow> Inl err
      | Inr ss \<Rightarrow> Inr (bytes_of (json_text (JObject [(name, JArray (map (\<lambda>s. (s, JNull)) ss))]))))"

section \<open>What Marshal has written is compact\<close>

lemma compact_plain:
  assumes "c \<noteq> CHR 0x22" "c \<noteq> backslash" "c \<noteq> CHR ''<''" "c \<noteq> CHR ''>''" "c \<noteq> CHR ''&''" "c \<noteq> CHR 0xE2"
  shows "compact_chars True (c # cs) = c # compact_chars True cs"
  using assms by (simp add: compact_chars.simps(3) line_separators_def)

lemma compact_backslash: "compact_chars True (backslash # c # cs) = backslash # c # compact_chars True cs"
proof -
  have "backslash \<noteq> CHR 0x22" by code_simp
  then show ?thesis by (simp add: compact_chars.simps(3))
qed

lemma hex_digit_plain:
  assumes "n < 16"
  shows "compact_chars True (hex_digit n # cs) = hex_digit n # compact_chars True cs"
proof -
  have "code (hex_digit n) = (if n < 10 then 48 + n else 87 + n)" using assms by (simp add: hex_digit_def)
  then have "48 \<le> code (hex_digit n)" "code (hex_digit n) \<le> 57 \<or> 97 \<le> code (hex_digit n)" "code (hex_digit n) < 103"
    using assms by (auto split: if_splits)
  then have "hex_digit n \<notin> {CHR 0x22, backslash, CHR ''<'', CHR ''>'', CHR ''&'', CHR 0xE2}"
    by (auto simp: backslash_def)
  then show ?thesis by (intro compact_plain) auto
qed

lemma compact_escape:
  assumes "code c < 0x80"
  shows "compact_chars True (escape c @ cs) = escape c @ compact_chars True cs"
proof -
  have u: "compact_chars True (CHR ''0'' # s) = CHR ''0'' # compact_chars True s" for s
    by (rule compact_plain) (simp_all add: backslash_def)
  have d: "code c div 16 < 16" "code c mod 16 < 16" using assms by simp_all
  have "c \<noteq> CHR 0xE2" using assms by auto
  then show ?thesis
    unfolding escape_def if_distrib [of "\<lambda>t. compact_chars True (t @ cs)"] if_distrib [of "\<lambda>t. t @ compact_chars True cs"]
    by (intro if_cong refl) (simp_all add: compact_backslash u hex_digit_plain d compact_plain)
qed

lemma compact_ASCII_plain:
  assumes "\<forall>c\<in>set s. c \<notin> {CHR 0x22, backslash, CHR ''<'', CHR ''>'', CHR ''&'', CHR 0xE2}"
  shows "compact_chars True (s @ cs) = s @ compact_chars True cs"
  using assms by (induction s) (simp_all add: compact_plain)

lemma compact_u:
  assumes "\<forall>c\<in>set s. c \<notin> {CHR 0x22, backslash, CHR ''<'', CHR ''>'', CHR ''&'', CHR 0xE2}"
  shows "compact_chars True (backslash # CHR ''u'' # s @ cs) = backslash # CHR ''u'' # s @ compact_chars True cs"
  using compact_ASCII_plain [OF assms] by (simp add: compact_backslash)

lemma continuation_plain:
  "continuation c \<Longrightarrow> compact_chars True (c # cs) = c # compact_chars True cs"
  by (rule compact_plain) (auto simp: continuation_def backslash_def)

lemma compact_continuations:
  "\<forall>c\<in>set s. continuation c \<Longrightarrow> compact_chars True (s @ cs) = s @ compact_chars True cs"
  by (induction s) (simp_all add: continuation_plain)

lemma rune_continuations:
  assumes "0 < rune_size (c # cs)" "\<not> code c < 0x80"
  shows "\<forall>x\<in>set (take (rune_size (c # cs) - 1) cs). continuation x"
    and "c = CHR 0xE2 \<Longrightarrow> rune_size (c # cs) = 3"
proof -
  have second: "continuation x" if "second_low b \<le> code x" "code x \<le> second_high b" for b x
    using that by (auto simp: second_low_def second_high_def continuation_def split: if_splits)
  show "\<forall>x\<in>set (take (rune_size (c # cs) - 1) cs). continuation x"
    using assms second
    by (auto simp: rune_size.simps(2) numeral_2_eq_2 numeral_3_eq_3 Suc_le_length_iff split: if_splits)
  show "rune_size (c # cs) = 3" if "c = CHR 0xE2"
    using assms unfolding that by (simp add: rune_size.simps(2) split: if_splits)
qed

lemma compact_rune:
  assumes "0 < rune_size (c # cs)" "\<not> code c < 0x80"
    and "take (rune_size (c # cs)) (c # cs) \<noteq> line_separators ! 0"
    and "take (rune_size (c # cs)) (c # cs) \<noteq> line_separators ! 1"
  shows "compact_chars True (take (rune_size (c # cs)) (c # cs) @ t)
     = take (rune_size (c # cs)) (c # cs) @ compact_chars True t"
proof -
  let ?more = "take (rune_size (c # cs) - 1) cs"
  have rune: "take (rune_size (c # cs)) (c # cs) = c # ?more" using assms(1) by (cases "rune_size (c # cs)") auto
  have special: "c \<noteq> CHR 0x22" "c \<noteq> backslash" "c \<noteq> CHR ''<''" "c \<noteq> CHR ''>''" "c \<noteq> CHR ''&''"
    using assms(2) by (auto simp: backslash_def)
  have more: "compact_chars True (?more @ t) = ?more @ compact_chars True t"
    using rune_continuations(1) [OF assms(1,2)] by (rule compact_continuations)
  show ?thesis
  proof (cases "c = CHR 0xE2")
    case True
    then have "rune_size (c # cs) = 3" using rune_continuations(2) [OF assms(1,2)] by blast
    then have "take 3 (c # ?more @ t) = c # ?more" using rune_size_bound [of "c # cs"] by simp
    then show ?thesis
      using assms(3,4) special more unfolding rune append_Cons by (subst compact_chars.simps(3)) simp
  next
    case False
    then show ?thesis using special more compact_plain unfolding rune by simp
  qed
qed

lemma compact_quote: "compact_chars True (quote_chars s @ CHR 0x22 # rest) = quote_chars s @ CHR 0x22 # compact_chars False rest"
proof (induction s rule: quote_chars.induct)
  case 1
  then show ?case by (simp add: compact_chars.simps(3))
next
  case (2 c cs)
  have u: "compact_chars True (backslash # ''ufffd'' @ t) = backslash # ''ufffd'' @ compact_chars True t"
    "compact_chars True (backslash # ''u2028'' @ t) = backslash # ''u2028'' @ compact_chars True t"
    "compact_chars True (backslash # ''u2029'' @ t) = backslash # ''u2029'' @ compact_chars True t" for t
    using compact_u [of "''fffd''" t] compact_u [of "''2028''" t] compact_u [of "''2029''" t]
    by (simp_all add: backslash_def)
  consider (ascii) "code c < 0x80" | (bad) "\<not> code c < 0x80" "rune_size (c # cs) = 0"
    | (rune) "\<not> code c < 0x80" "0 < rune_size (c # cs)" by auto
  then show ?case
  proof cases
    case ascii
    then show ?thesis using 2(1) by (simp add: quote_chars.simps(2) compact_escape)
  next
    case bad
    then show ?thesis using 2(2) u by (simp add: quote_chars.simps(2))
  next
    case rune
    then show ?thesis
      using 2(3) u compact_rune [of c cs] by (simp add: quote_chars.simps(2) Let_def)
  qed
qed

definition stable :: "string \<Rightarrow> bool" where
  "stable s \<longleftrightarrow> (\<forall>rest. compact_chars False (s @ rest) = s @ compact_chars False rest)"

lemma stableD: "stable s \<Longrightarrow> compact_chars False (s @ rest) = s @ compact_chars False rest"
  by (simp add: stable_def)

lemma stable_append: "stable s \<Longrightarrow> stable t \<Longrightarrow> stable (s @ t)"
  by (simp add: stable_def)

lemma stable_quote: "stable (json_quote s)"
  by (simp add: stable_def json_quote_def compact_quote)

lemma stable_comma: "\<forall>s\<in>set ss. stable s \<Longrightarrow> stable (comma_separated ss)"
proof (induction ss rule: comma_separated.induct)
  case (3 s t ss)
  then have "stable (s @ '','' @ comma_separated (t # ss))"
    by (intro stable_append) (auto simp: stable_def)
  then show ?case by simp
qed (simp_all add: stable_def)

lemma stable_text: "json_wf d v \<Longrightarrow> stable (json_text v)"
proof (induction v arbitrary: d)
  case (JString s)
  then show ?case by (simp add: stable_quote)
next
  case (JArray xs)
  have "stable t" if "t \<in> set (map fst xs)" for t
  proof -
    obtain w where w: "(t, w) \<in> set xs" using \<open>t \<in> set (map fst xs)\<close> by auto
    then show ?thesis using JArray by fastforce
  qed
  then have "stable (comma_separated (map fst xs))" by (intro stable_comma) blast
  then have "stable (''['' @ comma_separated (map fst xs) @ '']'')"
    by (intro stable_append) (simp_all add: stable_def)
  then show ?case by simp
next
  case (JObject ms)
  have "stable (json_quote n @ '':'' @ json_text w)" if "(n, w) \<in> set ms" for n w
    using JObject that by (intro stable_append stable_quote) (fastforce simp: stable_def)+
  then have "stable (comma_separated (map (\<lambda>(n, v). json_quote n @ '':'' @ json_text v) ms))"
    by (intro stable_comma) auto
  then have "stable (''{'' @ comma_separated (map (\<lambda>(n, v). json_quote n @ '':'' @ json_text v) ms) @ ''}'')"
    by (intro stable_append) (simp_all add: stable_def)
  then show ?case by simp
qed (simp_all add: stable_def is_space_def)

text \<open>So a marshalled struct is written into an array as it is, and read from there as it is.\<close>

lemma json_compact_text:
  assumes "json_wf json_max_depth (JObject ms)"
  shows "json_compact (bytes_of (json_text (JObject ms))) = Inr (json_text (JObject ms))"
proof -
  have "bytes_of (json_text (JObject ms)) \<noteq> []" by (simp add: bytes_of_def)
  then show ?thesis
    using json_roundtrip [OF assms] stableD [OF stable_text [OF assms], of "[]"]
    by (simp add: json_compact_def del: json_text.simps)
qed

lemma compact_all_texts:
  assumes "\<forall>ms\<in>set mss. json_wf json_max_depth (JObject ms)"
  shows "compact_all (map json_Marshal mss) = Inr (map (\<lambda>ms. json_text (JObject ms)) mss)"
  using assms
proof (induction mss)
  case (Cons ms mss)
  then have "json_compact (json_Marshal ms) = Inr (json_text (JObject ms))"
    unfolding json_Marshal_def by (intro json_compact_text) simp
  then show ?case using Cons by (simp del: json_text.simps)
qed simp

end
