(* ===== verification/Jose_Contract.thy ===== *)
theory Jose_Contract
  imports Sym_Jose Ec_Jose Rsa_Jose Json_Compact
begin

text \<open>
  What the package \<^verbatim>\<open>jwks\<close> relies on when it encodes and decodes the keys of a set through the registered
  codecs: an encoder writes a JSON object with its key type, the decoder for that type reads it back,
  and without the permission to export private material the text depends on public material only. The
  codecs of the three backends interpret the locale.
\<close>

section \<open>The contract\<close>

text \<open>The members of a JWK: strings and lists of strings, the first of which is the key type.\<close>

definition jwk_members :: "string \<Rightarrow> (string \<times> json) list \<Rightarrow> bool" where
  "jwk_members kty ms \<longleftrightarrow>
     plain_members ms
     \<and> (\<exists>rest. ms = string_member ''kty'' kty @ rest \<and> (\<forall>(n, v)\<in>set rest. ASCII n \<and> fold_name n \<noteq> ''KTY''))"

definition exported_candidate :: "Key \<Rightarrow> material \<Rightarrow> KeyCandidate" where
  "exported_candidate key m = zero_KeyCandidate\<lparr>
     cand_ID := key_id key, cand_Restrictions := kept_restrictions (key_restrictions key),
     cand_Material := Some m\<rparr>"

text \<open>A key without its private part.\<close>

fun public_view :: "material \<Rightarrow> material" where
  "public_view (PrivateMaterial (Some (PrivRSA (Some k)))) = PublicMaterial (Some (PubRSA (Some (rsa_PublicPart k))))"
| "public_view (PrivateMaterial (Some (PrivECDSA (Some k)))) = PublicMaterial (Some (PubECDSA (Some (ec_PublicPart k))))"
| "public_view m = m"

definition public_key_of :: "Key \<Rightarrow> Key" where
  "public_key_of key = key\<lparr>key_material := map_option public_view (key_material key)\<rparr>"

locale jose_codec =
  fixes encoder :: JOSEEncoder
    and decoder :: JOSEDecoder
    and kty :: string
    and regular :: "JOSEEncodeOption list \<Rightarrow> Key \<Rightarrow> bool"
    and exported :: "MaterialExportPolicy \<Rightarrow> material \<Rightarrow> material"
  assumes key_type: "kty \<noteq> []" "ASCII kty"
    and claims: "jdec_SupportsJOSEKeyType decoder t \<longleftrightarrow> t = kty"
    and writes: "jenc_Encode encoder ctx key options = Ok encoded \<Longrightarrow>
      \<exists>ms. jwk_members kty ms \<and> encoded = json_Marshal ms"
    and reads: "jenc_Encode encoder ctx key options = Ok encoded \<Longrightarrow> regular options key \<Longrightarrow> ctx' 0 = None \<Longrightarrow>
      \<exists>m. key_material key = Some m
        \<and> jdec_Decode decoder ctx' encoded [] = Ok (exported_candidate key (exported (export_policy options) m))"
    and conceals: "jenc_Encode encoder ctx key options = Ok encoded \<Longrightarrow>
      export_policy options \<noteq> ExportPrivateMaterial \<Longrightarrow>
      jenc_Encode encoder ctx (public_key_of key) options = Ok encoded"
begin

text \<open>What is written is the same for all keys with the same public part.\<close>

lemma conceals_same:
  assumes "jenc_Encode encoder ctx key options = Ok encoded" "jenc_Encode encoder ctx key' options = Ok encoded'"
    and "public_key_of key = public_key_of key'" "export_policy options \<noteq> ExportPrivateMaterial"
  shows "encoded = encoded'"
  using conceals [OF assms(1,4)] conceals [OF assms(2,4)] assms(3) by simp

lemma writes_wf:
  assumes "jenc_Encode encoder ctx key options = Ok encoded"
  shows "\<exists>ms. jwk_members kty ms \<and> encoded = json_Marshal ms \<and> json_wf json_max_depth (JObject ms)"
proof -
  obtain ms where "jwk_members kty ms" "encoded = json_Marshal ms" using writes [OF assms] by blast
  moreover from this have "json_wf json_max_depth (JObject ms)"
    by (intro plain_wf) (simp_all add: jwk_members_def json_max_depth_def)
  ultimately show ?thesis by blast
qed

end

section \<open>The symmetric codec\<close>

text \<open>Keys that the decoders give back as they are.\<close>

definition regular_jose :: "jose_primitives \<Rightarrow> JOSEEncodeOption list \<Rightarrow> Key \<Rightarrow> bool" where
  "regular_jose jp options key \<longleftrightarrow>
     valid_strings key \<and> coordinates_nonneg jp
     \<and> parsed_certificate (jp_ParseCertificate jp) (key_material key)
     \<and> (\<forall>m. key_material key = Some m \<longrightarrow> rsa_SupportsMaterial m = Ok True \<longrightarrow>
          regular_material jp (export_policy options) (Some m))"

definition exported_material :: "jose_primitives \<Rightarrow> MaterialExportPolicy \<Rightarrow> material \<Rightarrow> material" where
  "exported_material jp policy m = rsa_exported jp policy (ec_exported policy m)"

lemma fold_name_simps:
  "fold_name ''kid'' = ''KID''" "fold_name ''use'' = ''USE''" "fold_name ''key_ops'' = ''KEY_OPS''"
  "fold_name ''alg'' = ''ALG''" "fold_name ''x5c'' = ''X5C''" "fold_name ''x5t'' = ''X5T''"
  "fold_name ''x5t#S256'' = ''X5T#S256''" "fold_name ''k'' = ''K''" "fold_name ''crv'' = ''CRV''"
  "fold_name ''x'' = ''X''" "fold_name ''y'' = ''Y''" "fold_name ''d'' = ''D''" "fold_name ''n'' = ''N''"
  "fold_name ''e'' = ''E''" "fold_name ''p'' = ''P''" "fold_name ''q'' = ''Q''" "fold_name ''dp'' = ''DP''"
  "fold_name ''dq'' = ''DQ''" "fold_name ''qi'' = ''QI''"
  by (simp_all add: char_of_eq_iff take_bit_eq_mod)

lemma member_names:
  "(n, v) \<in> set (string_member m s) \<Longrightarrow> n = m"
  "(n, v) \<in> set (nonempty_member m s) \<Longrightarrow> n = m"
  "(n, v) \<in> set (nonempty_strings m ss) \<Longrightarrow> n = m"
  by (auto simp: string_member_def nonempty_member_def nonempty_strings_def split: if_splits)

lemma header_names:
  "\<exists>rest. header_members jwk = string_member ''kty'' (jwk_kty jwk) @ rest
     \<and> (\<forall>(n, v)\<in>set rest. ASCII n \<and> fold_name n \<noteq> ''KTY'')"
  unfolding header_members_def
  by (rule exI, rule conjI [OF refl]) (auto simp: fold_name_simps simp del: fold_name.simps dest!: member_names)

lemma certificate_names:
  "\<forall>(n, v)\<in>set (certificate_members jwk). ASCII n \<and> fold_name n \<noteq> ''KTY''"
  unfolding certificate_members_def
  by (auto simp: fold_name_simps simp del: fold_name.simps dest!: member_names)

lemma jwk_membersI:
  assumes "plain_members others" "\<forall>(n, v)\<in>set others. ASCII n \<and> fold_name n \<noteq> ''KTY''" "jwk_kty jwk = kty"
  shows "jwk_members kty (header_members jwk @ others)"
proof -
  obtain rest where rest: "header_members jwk = string_member ''kty'' kty @ rest"
      "\<forall>(n, v)\<in>set rest. ASCII n \<and> fold_name n \<noteq> ''KTY''"
    using header_names [of jwk] assms(3) by auto
  have "plain_members (header_members jwk @ others)" using assms(1) by simp
  moreover have "header_members jwk @ others = string_member ''kty'' kty @ (rest @ others)" by (simp add: rest(1))
  moreover have "\<forall>(n, v)\<in>set (rest @ others). ASCII n \<and> fold_name n \<noteq> ''KTY''"
    using rest(2) assms(2) by (simp only: set_append ball_Un)
  ultimately show ?thesis unfolding jwk_members_def by blast
qed

lemma sym_writes:
  assumes "sym_Encode parse ctx key options = Ok encoded"
  shows "\<exists>ms. jwk_members ''oct'' ms \<and> encoded = json_Marshal ms"
proof -
  obtain k where "encoded = json_Marshal (symmetricJWK_members (sym_jwk_of key k))"
    using assms unfolding sym_Encode_Ok_iff by blast
  moreover have "jwk_members ''oct'' (symmetricJWK_members (sym_jwk_of key k))"
    unfolding symmetricJWK_members_def
    by (rule jwk_membersI) (auto simp: fold_name_simps sym_jwk_of_def simp del: fold_name.simps dest!: member_names)
  ultimately show ?thesis by blast
qed

interpretation sym_codec: jose_codec "sym_JOSEEncoder (jp_ParseCertificate jp)" sym_JOSEDecoder "''oct''"
  "regular_jose jp" "exported_material jp" for jp
proof
  fix ctx ctx' key options encoded
  assume e: "jenc_Encode (sym_JOSEEncoder (jp_ParseCertificate jp)) ctx key options = Ok encoded"
  then have e': "sym_Encode (jp_ParseCertificate jp) ctx key options = Ok encoded"
    by (simp add: sym_JOSEEncoder_def)
  show "\<exists>ms. jwk_members ''oct'' ms \<and> encoded = json_Marshal ms" by (rule sym_writes [OF e'])
  show "\<exists>m. key_material key = Some m \<and> jdec_Decode sym_JOSEDecoder ctx' encoded []
      = Ok (exported_candidate key (exported_material jp (export_policy options) m))"
    if "regular_jose jp options key" "ctx' 0 = None"
    using sym_reads [where ctx' = ctx', OF e'] that
    by (auto simp: regular_jose_def sym_JOSEDecoder_def exported_candidate_def exported_material_def)
  show "jenc_Encode (sym_JOSEEncoder (jp_ParseCertificate jp)) ctx (public_key_of key) options = Ok encoded"
    if "export_policy options \<noteq> ExportPrivateMaterial"
    using e' that unfolding sym_Encode_Ok_iff by (auto simp: export_policy_def)
qed (simp_all add: sym_JOSEDecoder_def sym_SupportsJOSEKeyType_def)

section \<open>The EC codec\<close>

lemma ec_writes:
  assumes "ec_Encode jp ctx key options = Ok encoded"
  shows "\<exists>ms. jwk_members ''EC'' ms \<and> encoded = json_Marshal ms"
proof -
  obtain jwk where e: "encoded = json_Marshal (ecJWK_members jwk)"
      "ec_encode_material jp (export_policy options)
        (ec_setJWKMetadata (zero_ecJWK\<lparr>jwk_kty := ''EC'', jwk_kid := key_id key\<rparr>) (key_restrictions key))
        (Key_Material (jp_ParseCertificate jp) key) = Ok jwk"
    using assms by (rule ec_Encode_OkE)
  obtain m where m: "Key_Material (jp_ParseCertificate jp) key = Some m"
    using e(2) by (cases "Key_Material (jp_ParseCertificate jp) key") auto
  have "jwk_kty jwk = ''EC''"
    using ec_encode_material_header [OF e(2) [unfolded m]] unfolding ec_setJWKMetadata_def
    by (subst (asm) setJWKMetadata_eq) (simp_all add: zero_ecJWK_def)
  then have "jwk_members ''EC'' (ecJWK_members jwk)"
    unfolding ecJWK_members_def using certificate_names [of jwk]
    by (intro jwk_membersI) (auto simp: fold_name_simps simp del: fold_name.simps dest!: member_names)
  then show ?thesis using e(1) by blast
qed

lemma ec_material_kinds:
  assumes "ec_encode_material jp policy jwk (Some m) = Ok jwk'"
  shows "rsa_exported jp' policy' (ec_exported policy m) = ec_exported policy m"
    and "m \<noteq> PrivateMaterial (Some (PrivRSA k))"
  using assms by (cases rule: ec_encode_material_cases; simp)+

lemma public_Key_Material:
  "Key_Material parse (public_key_of key) = map_option (\<lambda>m. Clone parse (public_view m)) (key_material key)"
  by (simp add: Key_Material_def public_key_of_def option.map_comp comp_def split: option.split)

lemma ec_Encode_cases:
  assumes "ec_Encode jp ctx key options = Ok encoded"
  obtains option m where "encode_option ''EC JOSE encoder'' ctx options = Ok option" "key_material key = Some m"
    "Clone (jp_ParseCertificate jp) m \<noteq> PrivateMaterial (Some (PrivRSA k))"
    "\<exists>jwk. ec_encode_material jp (opt_MaterialPolicy option)
        (ec_setJWKMetadata (zero_ecJWK\<lparr>jwk_kty := ''EC'', jwk_kid := key_id key\<rparr>) (key_restrictions key))
        (Some (Clone (jp_ParseCertificate jp) m)) = Ok jwk \<and> encoded = json_Marshal (ecJWK_members jwk)"
proof -
  obtain option jwk where o: "encode_option ''EC JOSE encoder'' ctx options = Ok option"
      "ec_encode_material jp (opt_MaterialPolicy option)
        (ec_setJWKMetadata (zero_ecJWK\<lparr>jwk_kty := ''EC'', jwk_kid := key_id key\<rparr>) (key_restrictions key))
        (Key_Material (jp_ParseCertificate jp) key) = Ok jwk" "encoded = json_Marshal (ecJWK_members jwk)"
    using assms by (auto simp: ec_Encode_def Key_Restrictions_def)
  then obtain m where m: "key_material key = Some m" by (cases "key_material key") (auto simp: Key_Material_def)
  then have "Key_Material (jp_ParseCertificate jp) key = Some (Clone (jp_ParseCertificate jp) m)"
    by (simp add: Key_Material_def)
  note o2 = o(2) [unfolded this]
  show ?thesis using that [OF o(1) m ec_material_kinds(2) [OF o2]] o2 o(3) by blast
qed

lemma Clone_private_rsa:
  "\<exists>k'. Clone parse (PrivateMaterial (Some (PrivRSA (Some k)))) = PrivateMaterial (Some (PrivRSA k'))"
  by (cases k) simp

text \<open>Without the private policy, the encoder writes for a private key what it writes for its public part.\<close>

lemma ec_material_conceals:
  assumes "ec_encode_material jp policy jwk (Some (Clone parse m)) = Ok jwk'" "policy \<noteq> ExportPrivateMaterial"
  shows "ec_encode_material jp policy jwk (Some (Clone parse (public_view m))) = Ok jwk'"
proof (cases "\<exists>k. m = PrivateMaterial (Some (PrivECDSA (Some k)))")
  case True
  then obtain k where m: "m = PrivateMaterial (Some (PrivECDSA (Some k)))" by blast
  have "Clone parse m = m" unfolding m by (cases k) simp
  then have e: "ec_encode_material jp policy jwk (Some m) = Ok jwk'" using assms(1) by simp
  have "Clone parse (public_view m) = public_view m" unfolding m by (cases k) simp
  then show ?thesis using e assms(2) unfolding m by (auto simp del: Clone.simps)
next
  case False
  moreover have "m \<noteq> PrivateMaterial (Some (PrivRSA (Some k)))" for k
    using ec_material_kinds(2) [OF assms(1)] Clone_private_rsa [of parse k] by metis
  ultimately have "public_view m = m" by (cases m rule: public_view.cases) auto
  then show ?thesis using assms(1) by simp
qed

interpretation ec_codec: jose_codec "ec_JOSEEncoder jp" "ec_JOSEDecoder jp" "''EC''"
  "regular_jose jp" "exported_material jp" for jp
proof
  fix ctx ctx' key options encoded
  assume "jenc_Encode (ec_JOSEEncoder jp) ctx key options = Ok encoded"
  then have e: "ec_Encode jp ctx key options = Ok encoded" by (simp add: ec_JOSEEncoder_def)
  show "\<exists>ms. jwk_members ''EC'' ms \<and> encoded = json_Marshal ms" by (rule ec_writes [OF e])
  obtain option m jwk where o: "encode_option ''EC JOSE encoder'' ctx options = Ok option" "key_material key = Some m"
    "ec_encode_material jp (opt_MaterialPolicy option)
        (ec_setJWKMetadata (zero_ecJWK\<lparr>jwk_kty := ''EC'', jwk_kid := key_id key\<rparr>) (key_restrictions key))
        (Some (Clone (jp_ParseCertificate jp) m)) = Ok jwk" "encoded = json_Marshal (ecJWK_members jwk)"
    by (rule ec_Encode_cases [OF e]) blast
  show "jenc_Encode (ec_JOSEEncoder jp) ctx (public_key_of key) options = Ok encoded"
    if "export_policy options \<noteq> ExportPrivateMaterial"
    using ec_material_conceals [OF o(3)] that encode_option_policy [OF o(1)] o
    by (simp add: ec_JOSEEncoder_def ec_Encode_def public_Key_Material Key_Restrictions_def)
      (simp add: public_key_of_def)
  show "\<exists>m. key_material key = Some m \<and> jdec_Decode (ec_JOSEDecoder jp) ctx' encoded []
      = Ok (exported_candidate key (exported_material jp (export_policy options) m))"
    if r: "regular_jose jp options key" "ctx' 0 = None"
  proof -
    have "Clone (jp_ParseCertificate jp) m = m"
    proof (rule Clone_parsed)
      show "parsed_certificate (jp_ParseCertificate jp) (Some m)" using r(1) o(2) by (simp add: regular_jose_def)
      show "m \<noteq> PrivateMaterial (Some (PrivRSA (Some k)))" for k
        using ec_material_kinds(2) [OF o(3)] Clone_private_rsa by metis
    qed
    then have "exported_material jp (export_policy options) m = ec_exported (export_policy options) m"
      using ec_material_kinds(1) [OF o(3)] encode_option_policy [OF o(1)] by (simp add: exported_material_def)
    then show ?thesis
      using ec_reads [where ctx' = ctx', OF e] r o(2)
      by (simp add: regular_jose_def ec_JOSEDecoder_def exported_candidate_def)
  qed
qed (simp_all add: ec_JOSEDecoder_def ec_SupportsJOSEKeyType_def)

section \<open>The RSA codec\<close>

lemma rsa_Encode_cases:
  assumes "rsa_Encode jp ctx key options = Ok encoded"
  obtains option m jwk where "encode_option ''RSA JOSE encoder'' ctx options = Ok option" "key_material key = Some m"
    "rsa_encode_material jp (opt_MaterialPolicy option)
        (rsa_setJWKMetadata (zero_rsaJWK\<lparr>jwk_kty := ''RSA'', jwk_kid := key_id key\<rparr>) (key_restrictions key))
        (Some (Clone (jp_ParseCertificate jp) m)) = Ok jwk"
    "encoded = json_Marshal (rsaJWK_members jwk)"
proof -
  obtain option jwk where o: "encode_option ''RSA JOSE encoder'' ctx options = Ok option"
      "rsa_encode_material jp (opt_MaterialPolicy option)
        (rsa_setJWKMetadata (zero_rsaJWK\<lparr>jwk_kty := ''RSA'', jwk_kid := key_id key\<rparr>) (key_restrictions key))
        (Key_Material (jp_ParseCertificate jp) key) = Ok jwk" "encoded = json_Marshal (rsaJWK_members jwk)"
    using assms by (auto simp: rsa_Encode_def Key_Restrictions_def)
  then obtain m where m: "key_material key = Some m" by (cases "key_material key") (auto simp: Key_Material_def)
  then have "Key_Material (jp_ParseCertificate jp) key = Some (Clone (jp_ParseCertificate jp) m)"
    by (simp add: Key_Material_def)
  then show ?thesis using that [OF o(1) m] o by simp
qed

lemma rsa_setPublicJWK_kty:
  "rsa_setPublicJWK jwk publicKey = Ok jwk' \<Longrightarrow> jwk_kty jwk' = jwk_kty jwk"
  by (auto simp: rsa_setPublicJWK_def split: option.splits)

text \<open>The cases in which the encoder succeeds.\<close>

lemma rsa_encode_material_cases:
  assumes "rsa_encode_material jp policy jwk (Some m) = Ok jwk'"
  obtains (pub) publicKey where "m = PublicMaterial (Some (PubRSA publicKey))"
      "rsa_setPublicJWK jwk publicKey = Ok jwk'"
    | (priv) k jwk1 where "m = PrivateMaterial (Some (PrivRSA (Some k)))"
        "rsa_setPublicJWK jwk (Some (rsa_PublicPart k)) = Ok jwk1" "policy \<noteq> ExportPrivateMaterial \<Longrightarrow> jwk' = jwk1"
        "policy = ExportPrivateMaterial \<Longrightarrow> rsa_setPrivateJWK jp jwk1 k = Ok jwk'"
    | (certificate) cert publicKey jwk1 where "m = CertificateMaterial (Some (Some cert))"
        "cert_PublicKey cert = PubRSA publicKey" "rsa_setPublicJWK jwk publicKey = Ok jwk1"
        "jwk' = setCertificate jp (cert_Raw cert) jwk1"
proof (cases "(jp, policy, jwk, Some m)" rule: rsa_encode_material.cases)
  case (2 jp' policy' jwk0 k)
  then show ?thesis using assms pub by (auto split: public_key.splits)
next
  case (4 jp' policy' jwk0 k)
  then obtain k' where "k = PrivRSA (Some k')" using assms by (auto split: private_key.splits option.splits)
  then show ?thesis using 4 assms priv [of k'] by (auto split: if_splits)
next
  case (7 jp' policy' jwk0 cert)
  then show ?thesis using assms certificate by (auto split: public_key.splits if_splits)
qed (use assms in auto)

lemma rsa_encode_material_kty:
  assumes "rsa_encode_material jp policy jwk (Some m) = Ok jwk'"
  shows "jwk_kty jwk' = jwk_kty jwk"
  using assms
proof (cases rule: rsa_encode_material_cases)
  case (priv k jwk1)
  then show ?thesis
    using rsa_setPublicJWK_kty [OF priv(2)] rsa_setPrivateJWK_frame [of jp jwk1 k jwk']
    by (cases "policy = ExportPrivateMaterial") auto
qed (auto dest: rsa_setPublicJWK_kty simp: setCertificate_def)

lemma rsa_writes:
  assumes "rsa_Encode jp ctx key options = Ok encoded"
  shows "\<exists>ms. jwk_members ''RSA'' ms \<and> encoded = json_Marshal ms"
proof -
  obtain option :: JOSEEncodeOption and m jwk where o:
    "rsa_encode_material jp (opt_MaterialPolicy option)
        (rsa_setJWKMetadata (zero_rsaJWK\<lparr>jwk_kty := ''RSA'', jwk_kid := key_id key\<rparr>) (key_restrictions key))
        (Some (Clone (jp_ParseCertificate jp) m)) = Ok jwk" "encoded = json_Marshal (rsaJWK_members jwk)"
    using rsa_Encode_cases [OF assms] by metis
  have "jwk_kty jwk = ''RSA''"
    using rsa_encode_material_kty [OF o(1)] unfolding rsa_setJWKMetadata_def
    by (subst (asm) setJWKMetadata_eq) (simp_all add: zero_rsaJWK_def)
  then have "jwk_members ''RSA'' (rsaJWK_members jwk)"
    unfolding rsaJWK_members_def using certificate_names [of jwk]
    by (intro jwk_membersI) (auto simp: fold_name_simps simp del: fold_name.simps dest!: member_names)
  then show ?thesis using o(2) by blast
qed

lemma Clone_private_part:
  "Clone parse m = PrivateMaterial (Some (PrivRSA (Some k))) \<Longrightarrow>
     \<exists>k'. m = PrivateMaterial (Some (PrivRSA (Some k'))) \<and> rsa_PublicPart k' = rsa_PublicPart k"
  by (cases "(parse, m)" rule: Clone.cases) (auto elim!: clonePrivateKey.elims)

lemma Clone_public_view:
  "Clone parse (PublicMaterial (Some k)) = PublicMaterial (Some k)"
  by simp

lemma rsa_material_conceals:
  assumes "rsa_encode_material jp policy jwk (Some (Clone parse m)) = Ok jwk'" "policy \<noteq> ExportPrivateMaterial"
  shows "rsa_encode_material jp policy jwk (Some (Clone parse (public_view m))) = Ok jwk'"
  using assms(1)
proof (cases rule: rsa_encode_material_cases)
  case (priv k jwk1)
  then obtain k' where k': "m = PrivateMaterial (Some (PrivRSA (Some k')))" "rsa_PublicPart k' = rsa_PublicPart k"
    using Clone_private_part by blast
  have "jwk' = jwk1" using priv(3) assms(2) by blast
  then show ?thesis using priv(2) k' by (simp del: Clone.simps add: Clone_public_view)
next
  case (pub publicKey)
  then have "public_view m = m" by (cases m rule: public_view.cases) auto
  then show ?thesis using assms(1) by simp
next
  case (certificate cert publicKey jwk1)
  then have "public_view m = m" by (cases m rule: public_view.cases) auto
  then show ?thesis using assms(1) by simp
qed

interpretation rsa_codec: jose_codec "rsa_JOSEEncoder jp" "rsa_JOSEDecoder jp" "''RSA''"
  "regular_jose jp" "exported_material jp" for jp
proof
  fix ctx ctx' key options encoded
  assume "jenc_Encode (rsa_JOSEEncoder jp) ctx key options = Ok encoded"
  then have e: "rsa_Encode jp ctx key options = Ok encoded" by (simp add: rsa_JOSEEncoder_def)
  show "\<exists>ms. jwk_members ''RSA'' ms \<and> encoded = json_Marshal ms" by (rule rsa_writes [OF e])
  obtain option m jwk where o: "encode_option ''RSA JOSE encoder'' ctx options = Ok option" "key_material key = Some m"
    "rsa_encode_material jp (opt_MaterialPolicy option)
        (rsa_setJWKMetadata (zero_rsaJWK\<lparr>jwk_kty := ''RSA'', jwk_kid := key_id key\<rparr>) (key_restrictions key))
        (Some (Clone (jp_ParseCertificate jp) m)) = Ok jwk" "encoded = json_Marshal (rsaJWK_members jwk)"
    by (rule rsa_Encode_cases [OF e])
  show "jenc_Encode (rsa_JOSEEncoder jp) ctx (public_key_of key) options = Ok encoded"
    if "export_policy options \<noteq> ExportPrivateMaterial"
    using rsa_material_conceals [OF o(3)] that encode_option_policy [OF o(1)] o
    by (simp add: rsa_JOSEEncoder_def rsa_Encode_def public_Key_Material Key_Restrictions_def)
      (simp add: public_key_of_def)
  show "\<exists>m. key_material key = Some m \<and> jdec_Decode (rsa_JOSEDecoder jp) ctx' encoded []
      = Ok (exported_candidate key (exported_material jp (export_policy options) m))"
    if r: "regular_jose jp options key" "ctx' 0 = None"
  proof -
    have p: "parsed_certificate (jp_ParseCertificate jp) (Some m)" using r(1) o(2) by (simp add: regular_jose_def)
    have "(\<exists>k. m = PrivateMaterial (Some (PrivRSA (Some k)))) \<or> (\<exists>k. m = PublicMaterial (Some (PubRSA k)))
        \<or> (\<exists>c k. m = CertificateMaterial (Some (Some c)) \<and> cert_PublicKey c = PubRSA k)"
      using o(3)
    proof (cases rule: rsa_encode_material_cases)
      case (priv k jwk1)
      then show ?thesis using Clone_private_part by blast
    next
      case (pub publicKey)
      then show ?thesis by (cases "(jp_ParseCertificate jp, m)" rule: Clone.cases) auto
    next
      case (certificate cert publicKey jwk1)
      moreover from this have "Clone (jp_ParseCertificate jp) m = m"
        by (intro Clone_parsed [OF p]) auto
      ultimately show ?thesis by auto
    qed
    then have m: "rsa_SupportsMaterial m = Ok True" "ec_exported policy m = m" for policy by auto
    then show ?thesis
      using rsa_reads [where ctx' = ctx', OF e] r o(2)
      by (simp add: regular_jose_def rsa_JOSEDecoder_def exported_candidate_def exported_material_def)
  qed
qed (simp_all add: rsa_JOSEDecoder_def rsa_SupportsJOSEKeyType_def)

end
