(* ===== verification/Middleware.thy ===== *)
theory Middleware
  imports Prelude
begin

text \<open>
  The options of the packages \<^verbatim>\<open>jwks\<close>, \<^verbatim>\<open>jwksendpoint\<close> and \<^verbatim>\<open>jws\<close>. Their constructors apply
  configuration options in order; their operations wrap a core function in runtime options, from the
  last one to the first. Each package has its own copy of both loops, so each loop is one definition
  here, over the messages of the package.
\<close>

section \<open>Categories of errors\<close>

text \<open>
  \<^verbatim>\<open>vapi.NewErrorCategory\<close> belongs to another module, so the function that it is, from a category and
  an error to an error, is a parameter of the definitions that use it.
\<close>

datatype error_category = ErrMisconfigured | ErrMalformed | ErrInternal

type_synonym categorize = "error_category \<Rightarrow> error \<Rightarrow> error"

section \<open>Configuration options\<close>

text \<open>
  A configuration option changes what is being configured or returns an error, which ends the
  construction. \<open>None\<close> is a nil option; \<open>is_nil\<close> and \<open>failed\<close> make the errors of the option at an index.
\<close>

type_synonym 'c config_option = "('c \<Rightarrow> 'c res) option"

fun config_loop ::
    "(nat \<Rightarrow> error) \<Rightarrow> (nat \<Rightarrow> error \<Rightarrow> error) \<Rightarrow> nat \<Rightarrow> 'c config_option list \<Rightarrow> 'c \<Rightarrow> 'c res" where
  "config_loop is_nil failed index [] c = Ok c"
| "config_loop is_nil failed index (option # options) c =
     (case option of
        None \<Rightarrow> Err (is_nil index)
      | Some apply_option \<Rightarrow>
          bind_res (map_err (failed index) (apply_option c)) (config_loop is_nil failed (Suc index) options))"

section \<open>Runtime options\<close>

text \<open>
  A runtime option wraps a function, and may return a nil one. The loop runs over the indices below \<open>i\<close>
  from the highest to the lowest.
\<close>

type_synonym 'f middleware = "('f \<Rightarrow> 'f option) option"

fun wrap_loop :: "(nat \<Rightarrow> error) \<Rightarrow> (nat \<Rightarrow> error) \<Rightarrow> 'f middleware list \<Rightarrow> nat \<Rightarrow> 'f \<Rightarrow> error + 'f" where
  "wrap_loop is_nil returned_nil options 0 next_func = Inr next_func"
| "wrap_loop is_nil returned_nil options (Suc index) next_func =
     (case options ! index of
        None \<Rightarrow> Inl (is_nil index)
      | Some option \<Rightarrow>
          (case option next_func of
             None \<Rightarrow> Inl (returned_nil index)
           | Some wrapped \<Rightarrow> wrap_loop is_nil returned_nil options index wrapped))"

definition wrap_all :: "(nat \<Rightarrow> error) \<Rightarrow> (nat \<Rightarrow> error) \<Rightarrow> 'f middleware list \<Rightarrow> 'f \<Rightarrow> error + 'f" where
  "wrap_all is_nil returned_nil options next_func =
     wrap_loop is_nil returned_nil options (length options) next_func"

section \<open>Facts\<close>

lemma config_loop_Ok:
  "config_loop is_nil failed index (map Some fs) c = Ok c'
     \<longleftrightarrow> fold (\<lambda>f r. bind_res r f) fs (Ok c) = Ok c'"
proof (induction fs arbitrary: index c)
  case (Cons f fs)
  have stuck: "fold (\<lambda>f r. bind_res r f) fs r \<noteq> Ok c'" if "\<not> is_ok r" for r
    using that by (induction fs arbitrary: r) (auto elim: is_ok.elims)
  show ?case
  proof (cases "f c")
    case (Ok c1)
    then show ?thesis using Cons.IH [of "Suc index" c1] by simp
  qed (use stuck in \<open>auto dest: spec\<close>)
qed simp

lemma wrap_loop_prefix:
  "i \<le> length options \<Longrightarrow>
     wrap_loop is_nil returned_nil (options @ more) i f = wrap_loop is_nil returned_nil options i f"
proof (induction i arbitrary: f)
  case (Suc i)
  then have "(options @ more) ! i = options ! i" "i \<le> length options" by (simp_all add: nth_append)
  then show ?case using Suc.IH by (simp split: option.split)
qed simp

lemma wrap_loop_append:
  "wrap_loop is_nil returned_nil (options @ more) (length options + i) f =
     (case wrap_loop (\<lambda>k. is_nil (length options + k)) (\<lambda>k. returned_nil (length options + k)) more i f of
        Inl err \<Rightarrow> Inl err
      | Inr g \<Rightarrow> wrap_loop is_nil returned_nil options (length options) g)"
proof (induction i arbitrary: f)
  case 0
  then show ?case by (simp add: wrap_loop_prefix)
next
  case (Suc i)
  then show ?case by (simp add: nth_append split: option.split)
qed

text \<open>The options of a list wrap what the options behind it make of the function.\<close>

lemma wrap_all_append:
  "wrap_all is_nil returned_nil (options @ more) f =
     (case wrap_all (\<lambda>k. is_nil (length options + k)) (\<lambda>k. returned_nil (length options + k)) more f of
        Inl err \<Rightarrow> Inl err
      | Inr g \<Rightarrow> wrap_all is_nil returned_nil options g)"
  using wrap_loop_append [of is_nil returned_nil options more "length more" f]
  unfolding wrap_all_def by simp

lemma wrap_all_Nil [simp]: "wrap_all is_nil returned_nil [] f = Inr f"
  by (simp add: wrap_all_def)

lemma wrap_loop_cong_errors:
  "wrap_loop is_nil returned_nil options i f = Inr g \<Longrightarrow> wrap_loop is_nil' returned_nil' options i f = Inr g"
  by (induction i arbitrary: f) (auto split: option.splits)

text \<open>So the first option is the outermost one, and there is no error when no option is or returns nil.\<close>

lemma wrap_all_Cons:
  "wrap_all is_nil returned_nil (Some option # options) f = Inr h \<longleftrightarrow>
     (\<exists>g. wrap_all is_nil returned_nil options f = Inr g \<and> option g = Some h)"
proof -
  have "wrap_all is_nil returned_nil ([Some option] @ options) f = Inr h \<longleftrightarrow>
      (\<exists>g. wrap_all (\<lambda>k. is_nil (Suc k)) (\<lambda>k. returned_nil (Suc k)) options f = Inr g \<and> option g = Some h)"
    unfolding wrap_all_append by (auto simp: wrap_all_def split: sum.splits option.splits)
  then show ?thesis
    unfolding wrap_all_def using wrap_loop_cong_errors by (metis append_Cons append_Nil)
qed

lemma wrap_all_total:
  "wrap_all is_nil returned_nil (map (\<lambda>g. Some (\<lambda>f. Some (g f))) gs) f = Inr (foldr (\<lambda>g f. g f) gs f)"
  by (induction gs) (simp_all add: wrap_all_Cons)

end
