(* ===== verification/Jwks.thy ===== *)
theory Jwks
  imports Jose_Contract Middleware
begin

text \<open>
  The package \<^verbatim>\<open>jwks\<close> without its response writer: JSON Web Key Sets, their encoder and their decoder
  (\<^verbatim>\<open>jwks.go\<close>, \<^verbatim>\<open>encoder.go\<close>, \<^verbatim>\<open>decoder.go\<close> and their configuration options). The codecs of the keys are
  those that are registered in \<^verbatim>\<open>backend\<close>.
\<close>

section \<open>Key sets\<close>

text \<open>\<open>None\<close> is a nil slice.\<close>

record 'k JWKS =
  jwks_Keys :: "'k list option"

definition JWKSKind :: string where
  "JWKSKind = ''oauth2:jwks''"

definition JWKS_Kind :: "'k JWKS \<Rightarrow> string" where
  "JWKS_Kind artifact = JWKSKind"

text \<open>What the functions of the package use besides their arguments: the registered codecs, the parser of
  certificates and the categories of errors.\<close>

record jwks_env =
  je_codecs :: codecs
  je_parse :: certificate_parser
  je_category :: categorize

section \<open>The encoder\<close>

type_synonym EncodeFunc = "ctxt \<Rightarrow> Key JWKS option \<Rightarrow> JOSEEncodeOption list \<Rightarrow> bytes res"
type_synonym EncoderOption = "EncodeFunc middleware"

record jwks_Encoder =
  enc_runtimeOptions :: "EncoderOption list"

type_synonym EncoderConfigOption = "jwks_Encoder config_option"

definition WithEncoderRuntimeOptions :: "EncoderOption list \<Rightarrow> EncoderConfigOption" where
  "WithEncoderRuntimeOptions options = Some (\<lambda>encoder. Ok (encoder\<lparr>enc_runtimeOptions := [] @ options\<rparr>))"

definition NewEncoder :: "jwks_env \<Rightarrow> EncoderConfigOption list \<Rightarrow> jwks_Encoder res" where
  "NewEncoder env configOptions =
     config_loop
       (\<lambda>_. je_category env ErrMisconfigured (ErrorNew ''nil encoder config option''))
       (\<lambda>_. je_category env ErrMisconfigured) 0 configOptions \<lparr>enc_runtimeOptions = []\<rparr>"

text \<open>
  The loop over the keys. The check of the context before a key and the one check that each codec of
  this repository makes are numbered in the order in which they happen.
\<close>

fun encode_keys ::
    "jwks_env \<Rightarrow> ctxt \<Rightarrow> JOSEEncodeOption list \<Rightarrow> nat \<Rightarrow> Key list \<Rightarrow> bytes list \<Rightarrow> bytes list res" where
  "encode_keys env ctx options i [] encodedKeys = Ok encodedKeys"
| "encode_keys env ctx options i (value # values) encodedKeys =
     (case ctx (2 * i) of
        Some err \<Rightarrow> Err err
      | None \<Rightarrow>
          bind_res
            (map_err (\<lambda>err. je_category env ErrMisconfigured
                (Wrapf ''JWKS encoder: key %d: select encoder: %w'' [IntArg (int i + 1)] err))
              (JOSEEncoderFor (je_codecs env) (Key_Material (je_parse env) value))) (\<lambda>encoder.
          bind_res
            (map_err (\<lambda>err. je_category env ErrInternal
                (Wrapf ''JWKS encoder: key %d: %w'' [IntArg (int i + 1)] err))
              (jenc_Encode encoder (later (2 * i + 1) ctx) value options)) (\<lambda>encoded.
          encode_keys env ctx options (Suc i) values (encodedKeys @ [encoded]))))"

definition jwks_encode :: "jwks_env \<Rightarrow> EncodeFunc" where
  "jwks_encode env ctx artifact options =
     (case artifact of
        None \<Rightarrow> Panic ''nil pointer dereference''
      | Some jwkSet \<Rightarrow>
          bind_res (encode_keys env ctx options 0 (case jwks_Keys jwkSet of None \<Rightarrow> [] | Some keys \<Rightarrow> keys) [])
            (\<lambda>encodedKeys.
              (case json_Marshal_raws ''keys'' encodedKeys of
                 Inl err \<Rightarrow> Err (je_category env ErrInternal (Wrapf ''JWKS encoder: marshal key set: %w'' [] err))
               | Inr encoded \<Rightarrow> Ok encoded)))"

text \<open>\<open>None\<close> for the encoder is a nil pointer, which is dereferenced when its options are read.\<close>

definition jwks_Encode ::
    "jwks_env \<Rightarrow> jwks_Encoder option \<Rightarrow> ctxt \<Rightarrow> Key JWKS option \<Rightarrow> EncoderOption list \<Rightarrow> bytes res" where
  "jwks_Encode env e ctx artifact options =
     (case ctx 0 of
        Some err \<Rightarrow> Err err
      | None \<Rightarrow>
     (case artifact of
        None \<Rightarrow> Err (je_category env ErrMalformed (ErrorNew ''cannot encode nil JWKS''))
      | Some jwkSet \<Rightarrow>
     (case jwks_Keys jwkSet of
        None \<Rightarrow> Err (je_category env ErrMalformed (ErrorNew ''cannot encode JWKS with nil Keys''))
      | Some keys \<Rightarrow>
          if length keys = 0
          then Err (je_category env ErrMalformed (ErrorNew ''cannot encode JWKS with no Keys''))
          else
            (case e of
               None \<Rightarrow> Panic ''nil pointer dereference''
             | Some encoder \<Rightarrow>
                 (case wrap_all
                     (\<lambda>index. je_category env ErrMisconfigured
                        (Errorf ''nil encoder option at index %d'' [IntArg (int index)]))
                     (\<lambda>index. je_category env ErrMisconfigured
                        (Errorf ''encoder option at index %d returned nil EncodeFunc'' [IntArg (int index)]))
                     (enc_runtimeOptions encoder @ options) (jwks_encode env) of
                    Inl err \<Rightarrow> Err err
                  | Inr encode \<Rightarrow> encode (later 1 ctx) (Some jwkSet) [])))))"

section \<open>The decoder\<close>

type_synonym DecodeFunc = "ctxt \<Rightarrow> bytes \<Rightarrow> JOSEDecodeOption list \<Rightarrow> KeyCandidate JWKS res"
type_synonym DecoderOption = "DecodeFunc middleware"

record jwks_Decoder =
  dec_runtimeOptions :: "DecoderOption list"

type_synonym DecoderConfigOption = "jwks_Decoder config_option"

definition WithDecoderRuntimeOptions :: "DecoderOption list \<Rightarrow> DecoderConfigOption" where
  "WithDecoderRuntimeOptions options = Some (\<lambda>decoder. Ok (decoder\<lparr>dec_runtimeOptions := [] @ options\<rparr>))"

definition NewDecoder :: "jwks_env \<Rightarrow> DecoderConfigOption list \<Rightarrow> jwks_Decoder res" where
  "NewDecoder env configOptions =
     config_loop
       (\<lambda>_. je_category env ErrMisconfigured (ErrorNew ''nil decoder config option''))
       (\<lambda>_. je_category env ErrMisconfigured) 0 configOptions \<lparr>dec_runtimeOptions = []\<rparr>"

text \<open>The two structs have one field each, so the value of the field stands for the struct.\<close>

definition document_fields :: "bytes list option json_field list" where
  "document_fields = [raw_messages_field ''keys'' (\<lambda>f r. f r)]"

definition key_type_fields :: "string json_field list" where
  "key_type_fields = [string_field ''kty'' (\<lambda>f r. f r)]"

fun decode_keys ::
    "jwks_env \<Rightarrow> ctxt \<Rightarrow> JOSEDecodeOption list \<Rightarrow> nat \<Rightarrow> bytes list \<Rightarrow> KeyCandidate list \<Rightarrow> KeyCandidate list res" where
  "decode_keys env ctx options i [] keys = Ok keys"
| "decode_keys env ctx options i (encodedKey # encodedKeys) keys =
     (case ctx (2 * i) of
        Some err \<Rightarrow> Err err
      | None \<Rightarrow>
          (case json_Unmarshal key_type_fields encodedKey [] of
             (keyType, Some err) \<Rightarrow>
               Err (Wrapf ''JWKS decoder: key %d: unmarshal header: %w'' [IntArg (int i + 1)] err)
           | (keyType, None) \<Rightarrow>
               if keyType = []
               then Err (Errorf ''JWKS decoder: key %d: kty member is required'' [IntArg (int i + 1)])
               else
                 bind_res
                   (map_err (Wrapf ''JWKS decoder: key %d: select decoder for kty %q: %w''
                       [IntArg (int i + 1), StrArg keyType])
                     (JOSEDecoderFor (je_codecs env) keyType)) (\<lambda>decoder.
                 bind_res
                   (map_err (Wrapf ''JWKS decoder: key %d: %w'' [IntArg (int i + 1)])
                     (jdec_Decode decoder (later (2 * i + 1) ctx) encodedKey options)) (\<lambda>candidate.
                 decode_keys env ctx options (Suc i) encodedKeys (keys @ [candidate])))))"

definition jwks_decode :: "jwks_env \<Rightarrow> DecodeFunc" where
  "jwks_decode env ctx encoded options =
     (case json_Unmarshal document_fields encoded None of
        (document, Some err) \<Rightarrow> Err (Wrapf ''JWKS decoder: unmarshal key set: %w'' [] err)
      | (document, None) \<Rightarrow>
          (case document of
             None \<Rightarrow> Err (Errorf ''JWKS decoder: keys member is required'' [])
           | Some encodedKeys \<Rightarrow>
               bind_res (decode_keys env ctx options 0 encodedKeys [])
                 (\<lambda>keys. Ok \<lparr>jwks_Keys = Some keys\<rparr>)))"

text \<open>\<open>None\<close> for the payload is a nil slice.\<close>

definition jwks_Decode ::
    "jwks_env \<Rightarrow> jwks_Decoder option \<Rightarrow> ctxt \<Rightarrow> bytes option \<Rightarrow> DecoderOption list \<Rightarrow> KeyCandidate JWKS res" where
  "jwks_Decode env d ctx encoded options =
     (case ctx 0 of
        Some err \<Rightarrow> Err err
      | None \<Rightarrow>
     (case d of
        None \<Rightarrow> Err (je_category env ErrMisconfigured (ErrorNew ''cannot decode JWKS with nil JWK decoder''))
      | Some decoder \<Rightarrow>
     (case encoded of
        None \<Rightarrow> Err (je_category env ErrMalformed (ErrorNew ''cannot decode nil JWKS payload''))
      | Some payload \<Rightarrow>
          (case wrap_all
              (\<lambda>index. je_category env ErrMisconfigured
                 (Errorf ''nil decoder option at index %d'' [IntArg (int index)]))
              (\<lambda>index. je_category env ErrMisconfigured
                 (Errorf ''decoder option at index %d returned nil DecodeFunc'' [IntArg (int index)]))
              (dec_runtimeOptions decoder @ options) (jwks_decode env) of
             Inl err \<Rightarrow> Err err
           | Inr decode \<Rightarrow> decode (later 1 ctx) payload []))))"

section \<open>The built-in codecs\<close>

text \<open>The three codecs, with the key type of each.\<close>

definition builtin_codecs :: "jose_primitives \<Rightarrow> (JOSEEncoder \<times> JOSEDecoder \<times> string) list" where
  "builtin_codecs jp =
     [(sym_JOSEEncoder (jp_ParseCertificate jp), sym_JOSEDecoder, ''oct''),
      (ec_JOSEEncoder jp, ec_JOSEDecoder jp, ''EC''),
      (rsa_JOSEEncoder jp, rsa_JOSEDecoder jp, ''RSA'')]"

lemma builtin_codec:
  assumes "(encoder, decoder, kty) \<in> set (builtin_codecs jp)"
  shows "jose_codec encoder decoder kty (regular_jose jp) (exported_material jp)"
  using assms sym_codec.jose_codec_axioms ec_codec.jose_codec_axioms rsa_codec.jose_codec_axioms
  by (auto simp: builtin_codecs_def)

text \<open>Registries that hold the decoders of all three, in any order and number, and no others.\<close>

definition codec_registry :: "jose_primitives \<Rightarrow> codecs \<Rightarrow> bool" where
  "codec_registry jp c \<longleftrightarrow>
     set (joseEncoders c) = fst ` set (builtin_codecs jp)
     \<and> set (joseDecoders c) = (fst \<circ> snd) ` set (builtin_codecs jp)"

lemma decoder_for_builtin:
  assumes "codec_registry jp c" "(encoder, decoder, kty) \<in> set (builtin_codecs jp)"
  shows "JOSEDecoderFor c kty = Ok decoder"
proof (rule jose_decoders.lookup_unique)
  show "decoder \<in> set (joseDecoders c)" using assms by (force simp: codec_registry_def)
  show "Ok (jdec_SupportsJOSEKeyType decoder kty) = Ok True"
    using jose_codec.claims [OF builtin_codec [OF assms(2)]] by simp
  show "\<forall>d\<in>set (joseDecoders c). d \<noteq> decoder \<longrightarrow> Ok (jdec_SupportsJOSEKeyType d kty) = Ok False"
    using assms
    by (auto simp: codec_registry_def builtin_codecs_def sym_JOSEDecoder_def ec_JOSEDecoder_def rsa_JOSEDecoder_def
        sym_SupportsJOSEKeyType_def ec_SupportsJOSEKeyType_def rsa_SupportsJOSEKeyType_def)
qed simp

lemma encoder_for_builtin:
  assumes "codec_registry jp c" "JOSEEncoderFor c m = Ok encoder"
  obtains decoder kty where "(encoder, decoder, kty) \<in> set (builtin_codecs jp)"
proof -
  have "encoder \<in> set (joseEncoders c)"
    using jose_encoders.lookup_sound [OF assms(2)] by auto
  then show ?thesis using assms(1) that by (auto simp: codec_registry_def)
qed

text \<open>The choice of the encoder is the same for a key and for its public part.\<close>

lemma supports_public_view:
  assumes "(encoder, decoder, kty) \<in> set (builtin_codecs jp)"
  shows "jenc_SupportsMaterial encoder (Clone parse (public_view m)) = jenc_SupportsMaterial encoder (Clone parse m)"
  using assms
  by (cases m rule: public_view.cases)
    (auto simp: builtin_codecs_def sym_JOSEEncoder_def ec_JOSEEncoder_def rsa_JOSEEncoder_def)

lemma encoder_for_public:
  assumes "codec_registry jp c"
  shows "JOSEEncoderFor c (Key_Material parse (public_key_of key)) = JOSEEncoderFor c (Key_Material parse key)"
proof (cases "key_material key")
  case (Some m)
  have "latest (\<lambda>e. jenc_SupportsMaterial e (Clone parse (public_view m))) Ok err es
      = latest (\<lambda>e. jenc_SupportsMaterial e (Clone parse m)) Ok err es"
    if "set es \<subseteq> set (joseEncoders c)" for es err
    using that
  proof (induction es)
    case (Cons e es)
    then obtain decoder kty where "(e, decoder, kty) \<in> set (builtin_codecs jp)"
      using assms by (auto simp: codec_registry_def)
    then have "jenc_SupportsMaterial e (Clone parse (public_view m)) = jenc_SupportsMaterial e (Clone parse m)"
      by (rule supports_public_view)
    then show ?case using Cons by (simp cong: if_cong)
  qed simp
  then show ?thesis
    unfolding public_Key_Material
    using Some by (simp add: Key_Material_def JOSEEncoderFor_def jose_encoder_loop_eq)
qed (unfold public_Key_Material, simp add: Key_Material_def)

section \<open>The loops\<close>

lemma encode_keys_Ok:
  assumes "encode_keys env ctx options i keys acc = Ok encodedKeys"
  shows "\<exists>es. encodedKeys = acc @ es
     \<and> list_all2 (\<lambda>value e. \<exists>encoder ctx'. JOSEEncoderFor (je_codecs env) (Key_Material (je_parse env) value) = Ok encoder
          \<and> jenc_Encode encoder ctx' value options = Ok e) keys es"
  using assms
proof (induction keys arbitrary: i acc)
  case (Cons v vs)
  from Cons.prems obtain encoder e where e: "JOSEEncoderFor (je_codecs env) (Key_Material (je_parse env) v) = Ok encoder"
      "jenc_Encode encoder (later (2 * i + 1) ctx) v options = Ok e" "ctx (2 * i) = None"
      "encode_keys env ctx options (Suc i) vs (acc @ [e]) = Ok encodedKeys"
    by (auto split: option.splits)
  then obtain es where "encodedKeys = (acc @ [e]) @ es"
      "list_all2 (\<lambda>value e. \<exists>encoder ctx'. JOSEEncoderFor (je_codecs env) (Key_Material (je_parse env) value) = Ok encoder
          \<and> jenc_Encode encoder ctx' value options = Ok e) vs es"
    using Cons.IH [OF e(4)] by blast
  then show ?case using e(1,2) by (intro exI [of _ "e # es"]) auto
qed simp

text \<open>The same loop on other keys, with the same results.\<close>

lemma encode_keys_map:
  assumes "encode_keys env ctx options i keys acc = Ok encodedKeys"
    and "\<And>value. JOSEEncoderFor (je_codecs env) (Key_Material (je_parse env) (f value))
        = JOSEEncoderFor (je_codecs env) (Key_Material (je_parse env) value)"
    and "\<And>value encoder ctx' e. JOSEEncoderFor (je_codecs env) (Key_Material (je_parse env) value) = Ok encoder \<Longrightarrow>
        jenc_Encode encoder ctx' value options = Ok e \<Longrightarrow> jenc_Encode encoder ctx' (f value) options = Ok e"
  shows "encode_keys env ctx options i (map f keys) acc = Ok encodedKeys"
  using assms(1)
proof (induction keys arbitrary: i acc)
  case (Cons v vs)
  from Cons.prems obtain encoder e where e: "JOSEEncoderFor (je_codecs env) (Key_Material (je_parse env) v) = Ok encoder"
      "jenc_Encode encoder (later (2 * i + 1) ctx) v options = Ok e" "ctx (2 * i) = None"
      "encode_keys env ctx options (Suc i) vs (acc @ [e]) = Ok encodedKeys"
    by (auto split: option.splits)
  then show ?case using Cons.IH assms(2,3) by (auto split: option.split)
qed simp

lemma find_key_type:
  "find_field n key_type_fields = (if fold_name n = ''KTY'' then Some (string_field ''kty'' (\<lambda>f r. f r)) else None)"
proof -
  have "fold_name ''kty'' = ''KTY''" by (simp add: char_of_eq_iff take_bit_eq_mod)
  then show ?thesis
    by (auto simp: find_field_def key_type_fields_def simp del: fold_name.simps split: option.split)
qed

lemma unmarshal_key_type:
  assumes "jwk_members kty ms" "ASCII kty"
  shows "json_Unmarshal key_type_fields (json_Marshal ms) [] = (kty, None)"
proof -
  obtain rest where rest: "ms = string_member ''kty'' kty @ rest" "\<forall>(n, v)\<in>set rest. ASCII n \<and> fold_name n \<noteq> ''KTY''"
    and plain: "plain_members ms"
    using assms(1) by (auto simp: jwk_members_def)
  have "unmarshal_members key_type_fields (clean_members rest) re = re" for re
    using rest(2)
  proof (induction rest arbitrary: re)
    case (Cons m rest)
    then show ?case
      by (cases m; cases re) (simp add: clean_members_def to_valid_ASCII_string find_key_type del: fold_name.simps)
  qed (simp add: clean_members_def)
  moreover have "unmarshal_members key_type_fields (clean_members (string_member ''kty'' kty)) ([], None) = (kty, None)"
    using unmarshal_string_member [of "''kty''" key_type_fields "\<lambda>f r. f r" kty "[]"] assms(2)
    by (simp add: find_key_type char_of_eq_iff take_bit_eq_mod to_valid_ASCII_string)
  ultimately show ?thesis using plain by (simp add: Unmarshal_Marshal rest(1) unmarshal_append)
qed

lemma decode_keys_Ok:
  assumes "list_all2 (\<lambda>e c. \<exists>kty decoder. json_Unmarshal key_type_fields e [] = (kty, None) \<and> kty \<noteq> []
       \<and> JOSEDecoderFor (je_codecs env) kty = Ok decoder
       \<and> (\<forall>ctx'. ctx' 0 = None \<longrightarrow> jdec_Decode decoder ctx' e options = Ok c)) es cs"
    and live: "\<And>i. ctx i = None"
  shows "decode_keys env ctx options i es keys = Ok (keys @ cs)"
  using assms(1)
proof (induction es cs arbitrary: i keys rule: list_all2_induct)
  case (Cons e es c cs)
  then obtain kty decoder where d: "json_Unmarshal key_type_fields e [] = (kty, None)" "kty \<noteq> []"
      "JOSEDecoderFor (je_codecs env) kty = Ok decoder" "jdec_Decode decoder (later (2 * i + 1) ctx) e options = Ok c"
    using live by auto
  then show ?case using Cons.IH [of "Suc i" "keys @ [c]"] live [of "2 * i"] by simp
qed simp

text \<open>The document around marshalled keys.\<close>

lemma json_Unmarshal_raws:
  assumes "\<forall>ms\<in>set mss. plain_members ms"
  shows "json_Marshal_raws ''keys'' (map json_Marshal mss)
       = Inr (bytes_of (json_text (JObject [(''keys'', JArray (map (\<lambda>ms. (json_text (JObject ms), JObject ms)) mss))])))"
    and "json_Unmarshal document_fields
        (bytes_of (json_text (JObject [(''keys'', JArray (map (\<lambda>ms. (json_text (JObject ms), JObject ms)) mss))]))) None
       = (Some (map json_Marshal mss), None)"
proof -
  have "\<forall>ms\<in>set mss. json_wf json_max_depth (JObject ms)"
    using assms by (intro ballI plain_wf) (simp_all add: json_max_depth_def)
  note texts = compact_all_texts [OF this]
  show "json_Marshal_raws ''keys'' (map json_Marshal mss)
       = Inr (bytes_of (json_text (JObject [(''keys'', JArray (map (\<lambda>ms. (json_text (JObject ms), JObject ms)) mss))])))"
    unfolding json_Marshal_raws_def texts by (simp add: comp_def)
  let ?v = "JObject [(''keys'', JArray (map (\<lambda>ms. (json_text (JObject ms), JObject ms)) mss))]"
  have d: "0 < json_max_depth" "0 < json_max_depth - 1" "2 \<le> json_max_depth - 1 - 1"
    by (simp_all add: json_max_depth_def)
  have "json_wf (json_max_depth - 1 - 1) (JObject ms)" if "ms \<in> set mss" for ms
    by (rule plain_wf [OF _ d(3)]) (use assms that in blast)
  then have "json_wf (json_max_depth - 1) (JArray (map (\<lambda>ms. (json_text (JObject ms), JObject ms)) mss))"
    unfolding json_wf.simps(2) using d(2) by (auto simp del: json_wf.simps json_text.simps)
  then have "json_wf json_max_depth ?v"
    unfolding json_wf.simps(3) using d(1) by (auto simp del: json_wf.simps json_text.simps)
  moreover have "find_field ''keys'' document_fields = Some (raw_messages_field ''keys'' (\<lambda>f r. f r))"
    by (simp add: find_field_def document_fields_def raw_messages_field_def)
  ultimately show "json_Unmarshal document_fields (bytes_of (json_text ?v)) None = (Some (map json_Marshal mss), None)"
    by (simp add: json_Unmarshal_def json_roundtrip to_valid_ASCII_string raw_messages_field_def json_Marshal_def
        del: json_text.simps)
qed

section \<open>Properties\<close>

text \<open>What the loop of the encoder gives with built-in codecs.\<close>

lemma encoded_with_builtin:
  assumes "codec_registry jp (je_codecs env)" "encode_keys env ctx options i keys [] = Ok es"
  shows "list_all2 (\<lambda>key e. \<exists>encoder decoder kty ctx'. (encoder, decoder, kty) \<in> set (builtin_codecs jp)
       \<and> JOSEEncoderFor (je_codecs env) (Key_Material (je_parse env) key) = Ok encoder
       \<and> jenc_Encode encoder ctx' key options = Ok e) keys es"
proof -
  have "list_all2 (\<lambda>key e. \<exists>encoder ctx'. JOSEEncoderFor (je_codecs env) (Key_Material (je_parse env) key) = Ok encoder
          \<and> jenc_Encode encoder ctx' key options = Ok e) keys es"
    using encode_keys_Ok [OF assms(2)] by simp
  then show ?thesis
    by (rule list_all2_mono) (metis encoder_for_builtin [OF assms(1)])
qed

lemma jwks_encode_Ok:
  "jwks_encode env ctx (Some \<lparr>jwks_Keys = Some keys\<rparr>) options = Ok encoded \<longleftrightarrow>
     (\<exists>es. encode_keys env ctx options 0 keys [] = Ok es \<and> json_Marshal_raws ''keys'' es = Inr encoded)"
proof (cases "encode_keys env ctx options 0 keys []")
  case (Ok es)
  then show ?thesis by (cases "json_Marshal_raws ''keys'' es") (simp_all add: jwks_encode_def)
qed (simp_all add: jwks_encode_def)

lemma marshalled_keys:
  assumes "list_all2 (\<lambda>key e. \<exists>encoder decoder kty ctx'. (encoder, decoder, kty) \<in> set (builtin_codecs jp)
       \<and> JOSEEncoderFor c (Key_Material parse key) = Ok encoder
       \<and> jenc_Encode encoder ctx' key options = Ok e) keys es"
  shows "\<exists>mss. es = map json_Marshal mss \<and> (\<forall>ms\<in>set mss. plain_members ms)"
  using assms
proof (induction keys es rule: list_all2_induct)
  case (Cons key keys e es)
  then obtain encoder decoder kty ctx' where "(encoder, decoder, kty) \<in> set (builtin_codecs jp)"
      "jenc_Encode encoder ctx' key options = Ok e" by blast
  then obtain ms where "plain_members ms" "e = json_Marshal ms"
    using jose_codec.writes [OF builtin_codec] by (metis jwk_members_def)
  moreover obtain mss where "es = map json_Marshal mss" "\<forall>ms\<in>set mss. plain_members ms" using Cons.IH by blast
  ultimately show ?case by (intro exI [of _ "ms # mss"]) simp
qed (auto intro!: exI [of _ "[]"])

text \<open>One key of the document.\<close>

lemma key_type_of:
  assumes "jose_codec encoder decoder kty regular exported" "jenc_Encode encoder ctx key options = Ok e"
  shows "json_Unmarshal key_type_fields e [] = (kty, None)"
  using jose_codec.writes [OF assms] unmarshal_key_type jose_codec.key_type(2) [OF assms(1)] by blast

lemma key_decodes:
  assumes "jose_codec encoder decoder kty regular exported" "jenc_Encode encoder ctx key options = Ok e"
    and "regular options key"
  shows "\<exists>m. key_material key = Some m \<and> (\<forall>ctx'. ctx' 0 = None \<longrightarrow>
     jdec_Decode decoder ctx' e [] = Ok (exported_candidate key (exported (export_policy options) m)))"
proof -
  note reads = jose_codec.reads [OF assms]
  obtain m where m: "key_material key = Some m" using reads [of background] by auto
  have "jdec_Decode decoder ctx' e [] = Ok (exported_candidate key (exported (export_policy options) m))"
    if "ctx' 0 = None" for ctx'
    using reads [of ctx'] that m by auto
  then show ?thesis using m by blast
qed

lemma symmetric_needs_private:
  assumes "(encoder, decoder, kty) \<in> set (builtin_codecs jp)" "key_material key = Some (SymmetricMaterial k)"
    and "export_policy options \<noteq> ExportPrivateMaterial"
  shows "jenc_Encode encoder ctx key options \<noteq> Ok e"
proof -
  have "ec_encode_material jp policy jwk (Some (Clone parse (SymmetricMaterial k))) \<noteq> Ok jwk'"
    "rsa_encode_material jp policy rwk (Some (Clone parse (SymmetricMaterial k))) \<noteq> Ok rwk'" for policy parse jwk rwk jwk' rwk'
    by (cases k; simp)+
  moreover have "sym_Encode (jp_ParseCertificate jp) ctx key options \<noteq> Ok e"
    using assms(3) by (auto simp: sym_Encode_Ok_iff export_policy_def)
  ultimately show ?thesis
    using assms(1,2)
    by (auto simp: builtin_codecs_def sym_JOSEEncoder_def ec_JOSEEncoder_def rsa_JOSEEncoder_def ec_Encode_def
        rsa_Encode_def Key_Material_def simp del: Clone.simps)
qed

lemma encoded_set_decodes:
  assumes "jwks_encode env ctx (Some \<lparr>jwks_Keys = Some keys\<rparr>) options = Ok encoded"
    and "codec_registry jp (je_codecs env)" "codec_registry jp (je_codecs env')"
    and "\<forall>key\<in>set keys. regular_jose jp options key"
  shows "\<exists>ms. map key_material keys = map Some ms
     \<and> jwks_Decode env' (Some \<lparr>dec_runtimeOptions = []\<rparr>) background (Some encoded) []
         = Ok \<lparr>jwks_Keys = Some (map2 (\<lambda>key m.
             exported_candidate key (exported_material jp (export_policy options) m)) keys ms)\<rparr>"
proof -
  let ?export = "\<lambda>m. exported_material jp (export_policy options) m"
  obtain es where es: "encode_keys env ctx options 0 keys [] = Ok es" "json_Marshal_raws ''keys'' es = Inr encoded"
    using assms(1) unfolding jwks_encode_Ok by blast
  note all = encoded_with_builtin [OF assms(2) es(1)]
  obtain mss where mss: "es = map json_Marshal mss" "\<forall>ms\<in>set mss. plain_members ms"
    using marshalled_keys [OF all] by blast
  have document: "json_Unmarshal document_fields encoded None = (Some es, None)"
    using json_Unmarshal_raws [OF mss(2)] es(2) mss(1) by simp
  have "\<exists>ms. map key_material keys = map Some ms
     \<and> list_all2 (\<lambda>e c. \<exists>kty decoder. json_Unmarshal key_type_fields e [] = (kty, None) \<and> kty \<noteq> []
       \<and> JOSEDecoderFor (je_codecs env') kty = Ok decoder
       \<and> (\<forall>ctx'. ctx' 0 = None \<longrightarrow> jdec_Decode decoder ctx' e [] = Ok c))
         es (map2 (\<lambda>key m. exported_candidate key (?export m)) keys ms)"
    using all assms(4)
  proof (induction keys es rule: list_all2_induct)
    case (Cons key keys e es)
    then obtain encoder decoder kty ctx1 where codec: "(encoder, decoder, kty) \<in> set (builtin_codecs jp)"
        "jenc_Encode encoder ctx1 key options = Ok e" by blast
    note codec = builtin_codec [OF this(1)] decoder_for_builtin [OF assms(3) this(1)] this(2)
    then obtain m where m: "key_material key = Some m"
        "\<forall>ctx'. ctx' 0 = None \<longrightarrow> jdec_Decode decoder ctx' e [] = Ok (exported_candidate key (?export m))"
      using key_decodes [OF codec(1,3)] Cons.prems by auto
    obtain ms where "map key_material keys = map Some ms"
      and ms: "list_all2 (\<lambda>e c. \<exists>kty decoder. json_Unmarshal key_type_fields e [] = (kty, None) \<and> kty \<noteq> []
       \<and> JOSEDecoderFor (je_codecs env') kty = Ok decoder
       \<and> (\<forall>ctx'. ctx' 0 = None \<longrightarrow> jdec_Decode decoder ctx' e [] = Ok c))
         es (map2 (\<lambda>key m. exported_candidate key (?export m)) keys ms)"
      using Cons.IH Cons.prems by auto
    then show ?case
      using m key_type_of [OF codec(1,3)] jose_codec.key_type(1) [OF codec(1)] codec(2)
      by (intro exI [of _ "m # ms"]) auto
  qed simp
  then obtain ms where ms: "map key_material keys = map Some ms"
      "decode_keys env' (later 1 background) [] 0 es []
         = Ok (map2 (\<lambda>key m. exported_candidate key (?export m)) keys ms)"
    using decode_keys_Ok [where ctx = "later 1 background" and keys = "[]"] by fastforce
  then show ?thesis
    by (intro exI [of _ ms]) (simp add: jwks_Decode_def jwks_decode_def document)
qed

text \<open>C9: A key set that the encoder has written with the built-in codecs, the decoder reads back under a live
  context: the same number of keys in the same order, each with its identifier, its restrictions as far
  as a JWK can express them, and its material, of which a private key is reduced to its public part
  unless the option permits private material. The order in which the codecs are registered does not
  matter.\<close>

theorem jwks_roundtrip:
  assumes "jwks_encode env ctx (Some \<lparr>jwks_Keys = Some keys\<rparr>) options = Ok encoded"
    and "codec_registry jp (je_codecs env)"
    and "\<forall>key\<in>set keys. regular_jose jp options key"
  shows "\<exists>ms. map key_material keys = map Some ms
     \<and> jwks_Decode env (Some \<lparr>dec_runtimeOptions = []\<rparr>) background (Some encoded) []
         = Ok \<lparr>jwks_Keys = Some (map2 (\<lambda>key m.
             exported_candidate key (exported_material jp (export_policy options) m)) keys ms)\<rparr>"
  by (rule encoded_set_decodes [OF assms(1,2,2,3)])

text \<open>What \<^verbatim>\<open>init\<close> of the three packages registers.\<close>

definition register_codec :: "JOSEEncoder \<Rightarrow> JOSEDecoder \<Rightarrow> codecs \<Rightarrow> codecs" where
  "register_codec encoder decoder c = RegisterJOSEDecoder (Some decoder) (RegisterJOSEEncoder (Some encoder) c)"

definition registered_codecs :: "jose_primitives \<Rightarrow> codecs" where
  "registered_codecs jp =
     fold (\<lambda>(encoder, decoder, kty). register_codec encoder decoder) (builtin_codecs jp) initial_codecs"

lemma registered_lists:
  "joseEncoders (registered_codecs jp) = map fst (builtin_codecs jp)"
  "joseDecoders (registered_codecs jp) = map (fst \<circ> snd) (builtin_codecs jp)"
  by (simp_all add: registered_codecs_def builtin_codecs_def register_codec_def RegisterJOSEDecoder_def
      RegisterJOSEEncoder_def initial_codecs_def)

lemma registered_builtin: "codec_registry jp (registered_codecs jp)"
  by (simp add: codec_registry_def registered_lists)

definition sample_jwks_env :: jwks_env where
  "sample_jwks_env =
     \<lparr>je_codecs = registered_codecs sample_jose, je_parse = jp_ParseCertificate sample_jose, je_category = \<lambda>_ err. err\<rparr>"

lemma sample_set_encoded:
  "\<exists>encoded. jwks_encode sample_jwks_env background (Some \<lparr>jwks_Keys = Some [sample_ec_jose_key]\<rparr>) [] = Ok encoded"
proof -
  obtain e where e: "ec_Encode sample_jose background sample_ec_jose_key [] = Ok e" using sample_ec_encoded by blast
  obtain ms where ms: "plain_members ms" "e = json_Marshal ms"
    using ec_writes [OF e] by (auto simp: jwk_members_def)
  have "JOSEEncoderFor (registered_codecs sample_jose) (Key_Material (jp_ParseCertificate sample_jose) sample_ec_jose_key)
      = Ok (ec_JOSEEncoder sample_jose)"
    by (simp add: JOSEEncoderFor_def registered_lists builtin_codecs_def Key_Material_def sample_ec_jose_key_def
        key_New_def sym_JOSEEncoder_def ec_JOSEEncoder_def rsa_JOSEEncoder_def Let_def)
  then have "encode_keys sample_jwks_env background [] 0 [sample_ec_jose_key] [] = Ok [e]"
    using e by (simp add: sample_jwks_env_def) (simp add: ec_JOSEEncoder_def)
  then show ?thesis using json_Unmarshal_raws(1) [of "[ms]"] ms by (auto simp: jwks_encode_Ok)
qed

theorem jwks_roundtrip_witness:
  "\<exists>encoded c. jwks_encode sample_jwks_env background (Some \<lparr>jwks_Keys = Some [sample_ec_jose_key]\<rparr>) [] = Ok encoded
     \<and> jwks_Decode sample_jwks_env (Some \<lparr>dec_runtimeOptions = []\<rparr>) background (Some encoded) []
         = Ok \<lparr>jwks_Keys = Some [c]\<rparr>
     \<and> cand_ID c = ''e1''"
proof -
  obtain encoded where e: "jwks_encode sample_jwks_env background (Some \<lparr>jwks_Keys = Some [sample_ec_jose_key]\<rparr>) []
      = Ok encoded" using sample_set_encoded by blast
  have "regular_jose sample_jose [] sample_ec_jose_key"
    by (simp add: regular_jose_def sample_jose_nonneg sample_ec_jose_key_def key_New_def valid_strings_def
        zero_KeyCandidate_def ASCII_valid)
  then show ?thesis
    using jwks_roundtrip [OF e, of sample_jose] e registered_builtin [of sample_jose]
    by (auto simp: sample_jwks_env_def exported_candidate_def sample_ec_jose_key_def key_New_def)
qed

lemma encode_conceals:
  assumes "jwks_Encode env (Some \<lparr>enc_runtimeOptions = []\<rparr>) ctx (Some \<lparr>jwks_Keys = Some keys\<rparr>) [] = Ok encoded"
    and "codec_registry jp (je_codecs env)"
  shows "jwks_Encode env (Some \<lparr>enc_runtimeOptions = []\<rparr>) ctx (Some \<lparr>jwks_Keys = Some (map public_key_of keys)\<rparr>) []
       = Ok encoded
     \<and> (\<forall>key\<in>set keys. \<forall>k. key_material key \<noteq> Some (SymmetricMaterial k))"
proof -
  obtain es where es: "keys \<noteq> []" "ctx 0 = None" "encode_keys env (later 1 ctx) [] 0 keys [] = Ok es"
      "json_Marshal_raws ''keys'' es = Inr encoded"
    using assms(1) by (auto simp: jwks_Encode_def jwks_encode_Ok split: option.splits if_splits)
  have public: "export_policy [] \<noteq> ExportPrivateMaterial"
    by (simp add: export_policy_def ExportPublicMaterial_def ExportPrivateMaterial_def)
  have "encode_keys env (later 1 ctx) [] 0 (map public_key_of keys) [] = Ok es"
    using es(3)
  proof (rule encode_keys_map)
    fix key encoder ctx' e
    assume e: "JOSEEncoderFor (je_codecs env) (Key_Material (je_parse env) key) = Ok encoder"
      "jenc_Encode encoder ctx' key [] = Ok e"
    obtain decoder kty where "(encoder, decoder, kty) \<in> set (builtin_codecs jp)"
      by (rule encoder_for_builtin [OF assms(2) e(1)])
    then show "jenc_Encode encoder ctx' (public_key_of key) [] = Ok e"
      using jose_codec.conceals [OF builtin_codec _ public] e(2) by blast
  qed (rule encoder_for_public [OF assms(2)])
  moreover have "key_material key \<noteq> Some (SymmetricMaterial k)" if key: "key \<in> set keys" for key k
  proof
    assume m: "key_material key = Some (SymmetricMaterial k)"
    obtain i where i: "i < length keys" "key = keys ! i" using key by (auto simp: in_set_conv_nth)
    note list_all2_nthD [OF encoded_with_builtin [OF assms(2) es(3)] i(1)]
    then obtain encoder decoder kty ctx' where "(encoder, decoder, kty) \<in> set (builtin_codecs jp)"
        "jenc_Encode encoder ctx' key [] = Ok (es ! i)"
      unfolding i(2) [symmetric] by (elim exE conjE)
    then show False
      using symmetric_needs_private [OF _ m public] by blast
  qed
  ultimately show ?thesis using es by (simp add: jwks_Encode_def jwks_encode_Ok)
qed

text \<open>C10: Without an option that permits it, no private material is written: the encoder writes exactly what it
  writes for the same keys reduced to their public parts, so its output is a function of public material,
  and a set with a symmetric key is never written.\<close>

theorem jwks_public_only:
  assumes "jwks_Encode env (Some \<lparr>enc_runtimeOptions = []\<rparr>) ctx (Some \<lparr>jwks_Keys = Some keys\<rparr>) [] = Ok encoded"
    and "codec_registry jp (je_codecs env)"
  shows "jwks_Encode env (Some \<lparr>enc_runtimeOptions = []\<rparr>) ctx (Some \<lparr>jwks_Keys = Some (map public_key_of keys)\<rparr>) []
       = Ok encoded
     \<and> (\<forall>key\<in>set keys. \<forall>k. key_material key \<noteq> Some (SymmetricMaterial k))"
  by (rule encode_conceals [OF assms])

theorem jwks_public_only_witness:
  "\<exists>encoded. jwks_Encode sample_jwks_env (Some \<lparr>enc_runtimeOptions = []\<rparr>) background
       (Some \<lparr>jwks_Keys = Some [public_key_of sample_ec_jose_key]\<rparr>) [] = Ok encoded
     \<and> key_material sample_ec_jose_key \<noteq> key_material (public_key_of sample_ec_jose_key)"
proof -
  obtain encoded where "jwks_Encode sample_jwks_env (Some \<lparr>enc_runtimeOptions = []\<rparr>) background
       (Some \<lparr>jwks_Keys = Some [sample_ec_jose_key]\<rparr>) [] = Ok encoded"
    using sample_set_encoded by (auto simp: jwks_Encode_def)
  moreover have "codec_registry sample_jose (je_codecs sample_jwks_env)"
    by (simp add: sample_jwks_env_def registered_builtin)
  ultimately show ?thesis
    using jwks_public_only [where keys = "[sample_ec_jose_key]"]
    by (fastforce simp: public_key_of_def sample_ec_jose_key_def key_New_def)
qed

end
