(* ===== verification/Http.thy ===== *)
theory Http
  imports Go_Std
begin

text \<open>
  What the repository uses of \<^verbatim>\<open>net/http\<close> on the side of a server: a response writer with its header,
  its status line and its body, and the helper \<^verbatim>\<open>http.Error\<close>. The header names that occur are in
  canonical form, so a name is its own key.
\<close>

type_synonym http_header = "string \<rightharpoonup> string list"

text \<open>
  \<open>rw_sent\<close> is the status line with the header at the time when it was written. \<open>rw_accepts\<close> is what
  the connection does with a piece of the body after what it has taken already: how many bytes of the
  piece it takes, and the error.
\<close>

record response_writer =
  rw_Header :: http_header
  rw_sent :: "(nat \<times> http_header) option"
  rw_body :: bytes
  rw_accepts :: "bytes \<Rightarrow> bytes \<Rightarrow> nat \<times> error option"

definition Header_Set :: "string \<Rightarrow> string \<Rightarrow> response_writer \<Rightarrow> response_writer" where
  "Header_Set name v w = w\<lparr>rw_Header := (rw_Header w)(name \<mapsto> [v])\<rparr>"

definition Header_Del :: "string \<Rightarrow> response_writer \<Rightarrow> response_writer" where
  "Header_Del name w = w\<lparr>rw_Header := (rw_Header w)(name := None)\<rparr>"

text \<open>Only the first status line is sent.\<close>

definition WriteHeader :: "nat \<Rightarrow> response_writer \<Rightarrow> response_writer" where
  "WriteHeader status w =
     (case rw_sent w of None \<Rightarrow> w\<lparr>rw_sent := Some (status, rw_Header w)\<rparr> | Some line \<Rightarrow> w)"

definition http_Write :: "bytes \<Rightarrow> response_writer \<Rightarrow> response_writer \<times> error option" where
  "http_Write p w =
     (let w1 = WriteHeader 200 w; (n, err) = rw_accepts w1 (rw_body w1) p
      in (w1\<lparr>rw_body := rw_body w1 @ take n p\<rparr>, err))"

definition http_Error :: "string \<Rightarrow> nat \<Rightarrow> response_writer \<Rightarrow> response_writer" where
  "http_Error message status w =
     fst (http_Write (bytes_of (message @ [CHR 0x0A]))
       (WriteHeader status
         (Header_Set ''X-Content-Type-Options'' ''nosniff''
           (Header_Set ''Content-Type'' ''text/plain; charset=utf-8'' (Header_Del ''Content-Length'' w)))))"

section \<open>Facts\<close>

text \<open>A writer to which nothing has been written, on a connection that takes everything.\<close>

definition fresh_writer :: "response_writer \<Rightarrow> bool" where
  "fresh_writer w \<longleftrightarrow> rw_sent w = None \<and> rw_body w = [] \<and> rw_accepts w = (\<lambda>body p. (length p, None))"

lemma fresh_Header_Set [simp]: "fresh_writer (Header_Set name v w) = fresh_writer w"
  by (simp add: fresh_writer_def Header_Set_def)

lemma http_Error_fresh:
  assumes "fresh_writer w"
  shows "rw_sent (http_Error message status w) = Some (status,
       ((rw_Header w)(''Content-Length'' := None))
         (''Content-Type'' \<mapsto> [''text/plain; charset=utf-8''], ''X-Content-Type-Options'' \<mapsto> [''nosniff'']))"
    and "rw_body (http_Error message status w) = bytes_of (message @ [CHR 0x0A])"
  using assms by (simp_all add: fresh_writer_def http_Error_def http_Write_def WriteHeader_def Header_Set_def Header_Del_def Let_def)

text \<open>Once the status line is sent it stays, and the message is only added to the body.\<close>

lemma http_Error_sent:
  assumes "rw_sent w = Some line"
  shows "rw_sent (http_Error message status w) = Some line"
    and "\<exists>n. rw_body (http_Error message status w) = rw_body w @ take n (bytes_of (message @ [CHR 0x0A]))"
  using assms
  by (auto simp: http_Error_def http_Write_def WriteHeader_def Header_Set_def Header_Del_def Let_def split: prod.splits)

end
