(* ===== verification/Jwks_Writer.thy ===== *)
theory Jwks_Writer
  imports Jwks Http
begin

text \<open>
  The response writer of the package \<^verbatim>\<open>jwks\<close> (\<^verbatim>\<open>writer.go\<close>, \<^verbatim>\<open>writer_config_option.go\<close>). The response that
  is written to is explicit state: every function returns it with its result.
\<close>

section \<open>The writer\<close>

type_synonym WriteFunc =
  "ctxt \<Rightarrow> response_writer \<Rightarrow> Key JWKS option \<Rightarrow> EncoderOption list \<Rightarrow> response_writer \<times> unit res"
type_synonym WriterOption = "WriteFunc middleware"

text \<open>The encoder is seen through its interface \<^verbatim>\<open>vapi.Encoder\<close>; \<open>None\<close> is a nil one.\<close>

type_synonym encoder_interface = "ctxt \<Rightarrow> Key JWKS option \<Rightarrow> EncoderOption list \<Rightarrow> bytes res"

record jwks_Writer =
  wr_encoder :: "encoder_interface option"
  wr_runtimeOptions :: "WriterOption list"

type_synonym WriterConfigOption = "jwks_Writer config_option"

definition WithWriterEncoder :: "encoder_interface option \<Rightarrow> WriterConfigOption" where
  "WithWriterEncoder encoder = Some (\<lambda>writer.
     case encoder of
       None \<Rightarrow> Err (ErrorNew ''nil JWKS encoder'')
     | Some e \<Rightarrow> Ok (writer\<lparr>wr_encoder := Some e\<rparr>))"

definition WithWriterEncoderOptions :: "jwks_env \<Rightarrow> EncoderConfigOption list \<Rightarrow> WriterConfigOption" where
  "WithWriterEncoderOptions env options = Some (\<lambda>writer.
     bind_res (NewEncoder env options)
       (\<lambda>encoder. Ok (writer\<lparr>wr_encoder := Some (jwks_Encode env (Some encoder))\<rparr>)))"

definition WithWriterRuntimeOptions :: "WriterOption list \<Rightarrow> WriterConfigOption" where
  "WithWriterRuntimeOptions options = Some (\<lambda>writer. Ok (writer\<lparr>wr_runtimeOptions := [] @ options\<rparr>))"

definition NewWriter :: "jwks_env \<Rightarrow> WriterConfigOption list \<Rightarrow> jwks_Writer res" where
  "NewWriter env configOptions =
     bind_res
       (config_loop
         (\<lambda>_. je_category env ErrMisconfigured (ErrorNew ''nil encoder config option''))
         (\<lambda>_. je_category env ErrMisconfigured) 0 configOptions \<lparr>wr_encoder = None, wr_runtimeOptions = []\<rparr>)
       (\<lambda>writer.
         case wr_encoder writer of
           None \<Rightarrow>
             bind_res (NewEncoder env [])
               (\<lambda>encoder. Ok (writer\<lparr>wr_encoder := Some (jwks_Encode env (Some encoder))\<rparr>))
         | Some encoder \<Rightarrow> Ok writer)"

section \<open>Writing\<close>

definition writeArtifact :: "jwks_env \<Rightarrow> encoder_interface \<Rightarrow> WriteFunc" where
  "writeArtifact env encoder ctx carrierWriter artifact options =
     (case encoder ctx artifact options of
        Panic p \<Rightarrow> (carrierWriter, Panic p)
      | Err err \<Rightarrow> (carrierWriter, Err (je_category env ErrInternal (Wrapf ''encode JWKS: %w'' [] err)))
      | Ok payload \<Rightarrow>
          (let w1 = Header_Set ''Content-Type'' ''application/jwk-set+json'' carrierWriter;
               w2 = Header_Set ''X-Content-Type-Options'' ''nosniff'' w1;
               w3 = WriteHeader 200 w2;
               (w4, err) = http_Write payload w3
           in (case err of
                 Some err \<Rightarrow> (w4, Err (je_category env ErrInternal (Wrapf ''write JWKS response: %w'' [] err)))
               | None \<Rightarrow> (w4, Ok ()))))"

text \<open>\<open>None\<close> for the writer is a nil pointer, and for the response writer a nil interface.\<close>

definition WriteArtifact ::
    "jwks_env \<Rightarrow> jwks_Writer option \<Rightarrow> ctxt \<Rightarrow> response_writer option \<Rightarrow> Key JWKS option \<Rightarrow> WriterOption list
       \<Rightarrow> response_writer option \<times> unit res" where
  "WriteArtifact env w ctx carrierWriter artifact options =
     (case Option.bind w (\<lambda>writer. map_option (Pair writer) (wr_encoder writer)) of
        None \<Rightarrow>
          (carrierWriter, Err (je_category env ErrMisconfigured (Errorf ''cannot write JWKS response with nil JWKS encoder'' [])))
      | Some (writer, encoder) \<Rightarrow>
     (case carrierWriter of
        None \<Rightarrow>
          (None, Err (je_category env ErrMalformed (Errorf ''cannot write JWKS response to nil HTTP response writer'' [])))
      | Some carrier \<Rightarrow>
     (case artifact of
        None \<Rightarrow> (carrierWriter, Err (je_category env ErrMalformed (Errorf ''cannot write nil JWKS response'' [])))
      | Some jwkSet \<Rightarrow>
     (case jwks_Keys jwkSet of
        None \<Rightarrow> (carrierWriter, Err (je_category env ErrMalformed (Errorf ''cannot write JWKS response with nil Keys'' [])))
      | Some keys \<Rightarrow>
          if length keys = 0
          then (carrierWriter, Err (je_category env ErrMalformed (Errorf ''cannot write JWKS response with no Keys'' [])))
          else
            (case wrap_all
                (\<lambda>index. je_category env ErrMisconfigured
                   (Errorf ''nil writer option at index %d'' [IntArg (int index)]))
                (\<lambda>index. je_category env ErrMisconfigured
                   (Errorf ''writer option at index %d returned nil WriteFunc'' [IntArg (int index)]))
                (wr_runtimeOptions writer @ options) (writeArtifact env encoder) of
               Inl err \<Rightarrow> (carrierWriter, Err err)
             | Inr write \<Rightarrow> map_prod Some id (write ctx carrier (Some jwkSet) []))))))"

section \<open>Facts\<close>

lemma NewEncoder_default [simp]: "NewEncoder env [] = Ok \<lparr>enc_runtimeOptions = []\<rparr>"
  by (simp add: NewEncoder_def)

lemma NewWriter_default:
  "NewWriter env [] = Ok \<lparr>wr_encoder = Some (jwks_Encode env (Some \<lparr>enc_runtimeOptions = []\<rparr>)), wr_runtimeOptions = []\<rparr>"
  by (simp add: NewWriter_def)

text \<open>The response of a successful write.\<close>

definition jwks_header :: "http_header \<Rightarrow> http_header" where
  "jwks_header h = h(''Content-Type'' \<mapsto> [''application/jwk-set+json''], ''X-Content-Type-Options'' \<mapsto> [''nosniff''])"

lemma writeArtifact_Err:
  assumes "\<And>payload. encoder ctx artifact options \<noteq> Ok payload"
  shows "fst (writeArtifact env encoder ctx w artifact options) = w"
    and "snd (writeArtifact env encoder ctx w artifact options) \<noteq> Ok ()"
  using assms by (cases "encoder ctx artifact options"; simp add: writeArtifact_def)+

lemma writeArtifact_fresh:
  assumes "encoder ctx artifact options = Ok payload" "fresh_writer w"
  shows "writeArtifact env encoder ctx w artifact options =
     (w\<lparr>rw_Header := jwks_header (rw_Header w), rw_sent := Some (200, jwks_header (rw_Header w)), rw_body := payload\<rparr>, Ok ())"
  using assms
  by (simp add: writeArtifact_def fresh_writer_def http_Write_def WriteHeader_def Header_Set_def jwks_header_def Let_def)

end
