(* ===== verification/Keystore_Operations.thy ===== *)
theory Keystore_Operations
  imports Keystore
begin

text \<open>
  What the operations of the keystore guarantee: which key they use, that a selected key can always be
  used, that a signing function works once, and that a signature made through the store verifies
  through the store.
\<close>

section \<open>Successful operations\<close>

lemma operation_request_override:
  assumes "None \<notin> set (runtimeOptions m)"
  shows "operation_request m [Some (WithKeys selector), Some (WithAlgorithms algorithms)]
     = Ok \<lparr>query_Keys = selector, query_Algorithms = algorithms\<rparr>"
proof -
  have "\<exists>q. apply_options os request = Ok q" if "None \<notin> set os" for os request
    using that by (induction os request rule: apply_options.induct) auto
  then obtain q where "apply_options (runtimeOptions m) zero_operationQuery = Ok q" using assms by blast
  then show ?thesis
    by (simp add: operation_request_def WithKeys_def WithAlgorithms_def)
qed

lemma selectKey_Ok_eligible:
  assumes "selectKey (Some m) now ctx operation selector algorithms = Ok (k, a)"
  shows "k \<in> set (ks_keys (repository m)) \<and> eligible selector now operation a k \<and> a \<in> set algorithms"
proof -
  from assms have f: "filter (\<lambda>k'. eligible selector now operation a k' \<and> key_priority k \<le> key_priority k')
      (ks_keys (repository m)) = [k]" and a: "a \<in> set algorithms"
    unfolding selectKey_Ok_iff by auto
  have "k \<in> set (filter (\<lambda>k'. eligible selector now operation a k' \<and> key_priority k \<le> key_priority k')
      (ks_keys (repository m)))"
    unfolding f by simp
  then show ?thesis using a by simp
qed

text \<open>What a successful operation went through, and that going through it succeeds.\<close>

lemma Signer_OkE:
  assumes "Signer parse (Some m) now ctx options = Ok (d, sf)"
  obtains request k b where "operation_request m options = Ok request" "query_Algorithms request \<noteq> []"
    "selectKey (Some m) now ctx KeyOpSign (query_Keys request) (query_Algorithms request)
       = Ok (k, sf_algorithm sf)"
    "key_backend k = Some b" "backend_Sign b = Some (sf_signer sf)"
    "Descriptor parse k (sf_algorithm sf) = Ok d" "sf_id sf = key_id k" "sf_ctx sf = later 1 ctx"
  using assms
  by (auto simp: Signer_def bind_eq_Some_conv split: option.splits if_splits)

lemma Signer_OkI:
  assumes "operation_request m options = Ok request" "query_Algorithms request \<noteq> []"
    "selectKey (Some m) now ctx KeyOpSign (query_Keys request) (query_Algorithms request) = Ok (k, a)"
    "key_backend k = Some b" "backend_Sign b = Some f" "Descriptor parse k a = Ok d"
  shows "Signer parse (Some m) now ctx options
     = Ok (d, \<lparr>sf_id = key_id k, sf_algorithm = a, sf_ctx = later 1 ctx, sf_signer = f\<rparr>)"
  using assms by (simp add: Signer_def)

lemma Encrypt_OkE:
  assumes "Encrypt parse (Some m) now ctx rand plaintext options = Ok r"
  obtains request k a b f where "operation_request m options = Ok request" "query_Algorithms request \<noteq> []"
    "selectKey (Some m) now ctx KeyOpEncrypt (query_Keys request) (query_Algorithms request) = Ok (k, a)"
    "key_backend k = Some b" "backend_Encrypt b = Some f"
    "f (later 1 ctx) rand a plaintext = Ok (er_Ciphertext r)" "Descriptor parse k a = Ok (er_Key r)"
  using assms
  by (auto simp: Encrypt_def bind_eq_Some_conv split: option.splits if_splits)

lemma Verify_eq:
  assumes "operation_request m options = Ok request" "query_Algorithms request \<noteq> []"
    "selectKey (Some m) now ctx KeyOpVerify (query_Keys request) (query_Algorithms request) = Ok (k, a)"
    "key_backend k = Some b" "backend_Verify b = Some f"
  shows "Verify (Some m) now ctx message signature options =
     map_err (Wrapf ''keystore: verify with key %q and algorithm %q: %w'' [StrArg (key_id k), StrArg a])
       (f (later 1 ctx) a signature message)"
  using assms by (simp add: Verify_def)

lemma Decrypt_eq:
  assumes "operation_request m options = Ok request" "query_Algorithms request \<noteq> []"
    "selectKey (Some m) now ctx KeyOpDecrypt (query_Keys request) (query_Algorithms request) = Ok (k, a)"
    "key_backend k = Some b" "backend_Decrypt b = Some f"
  shows "Decrypt (Some m) now ctx ciphertext options =
     map_err (Wrapf ''keystore: decrypt with key %q and algorithm %q: %w'' [StrArg (key_id k), StrArg a])
       (f (later 1 ctx) a ciphertext)"
  using assms by (simp add: Decrypt_def)

section \<open>Keys that are used\<close>

text \<open>C2: A signer is only ever returned for a key of the repository that was eligible at that moment:
  it matches the selector of the request, its status is neither disabled nor passive, the current time
  is within its validity bounds, its backend supports signing with the returned algorithm, and that
  capability is not excluded by the key's restrictions; the algorithm is one that the caller listed,
  the descriptor is that of the key, and the returned function signs with that key's backend.\<close>

theorem signer_uses_eligible_key:
  assumes "Signer parse (Some m) now ctx options = Ok (descriptor, sf)"
  shows "\<exists>request k b.
     operation_request m options = Ok request \<and> k \<in> set (ks_keys (repository m))
     \<and> Matches (query_Keys request) k
     \<and> key_status k \<noteq> KeyStatusDisabled \<and> key_status k \<noteq> KeyStatusPassive
     \<and> (key_notBefore k = 0 \<or> key_notBefore k \<le> now) \<and> (key_notAfter k = 0 \<or> now \<le> key_notAfter k)
     \<and> key_backend k = Some b \<and> backend_Supports b KeyUseSigning KeyOpSign (sf_algorithm sf)
     \<and> (key_restrictions k = [] \<or>
          \<lparr>cap_Use = KeyUseSigning, cap_Operation = KeyOpSign, cap_Algorithm = sf_algorithm sf\<rparr>
            \<in> set (key_restrictions k))
     \<and> sf_algorithm sf \<in> set (query_Algorithms request)
     \<and> Descriptor parse k (sf_algorithm sf) = Ok descriptor
     \<and> sf_id sf = key_id k \<and> backend_Sign b = Some (sf_signer sf)"
proof -
  obtain request k b where *: "operation_request m options = Ok request"
    "selectKey (Some m) now ctx KeyOpSign (query_Keys request) (query_Algorithms request)
       = Ok (k, sf_algorithm sf)"
    "key_backend k = Some b" "backend_Sign b = Some (sf_signer sf)"
    "Descriptor parse k (sf_algorithm sf) = Ok descriptor" "sf_id sf = key_id k"
    using assms by (rule Signer_OkE)
  then show ?thesis
    using selectKey_Ok_eligible [OF *(2)]
    by (intro exI [of _ request] exI [of _ k] exI [of _ b])
      (simp add: eligible_def operation_use_def op_defs)
qed

text \<open>A store with one active key, on which every operation works.\<close>

definition one_key_store :: store where
  "one_key_store = sample_store [sample_key ''a'' KeyStatusActive 1]"

lemma one_key_selected:
  assumes "(operation \<in> {KeyOpSign, KeyOpVerify} \<and> a = HS256) \<or> (operation \<in> {KeyOpEncrypt, KeyOpDecrypt} \<and> a = A256GCM)"
  shows "selectKey (Some one_key_store) 0 background operation zero_Selector [a]
     = Ok (sample_key ''a'' KeyStatusActive 1, a)"
proof -
  have "eligible zero_Selector 0 operation a (sample_key ''a'' KeyStatusActive 1)"
    using assms by (auto simp: sample_eligible status_defs)
  then show ?thesis
    unfolding selectKey_Ok_iff by (intro conjI exI [of _ "[]"]) (simp_all add: one_key_store_def)
qed

lemma one_key_request:
  "operation_request one_key_store [Some (WithAlgorithms [a])]
     = Ok \<lparr>query_Keys = zero_Selector, query_Algorithms = [a]\<rparr>"
  by (simp add: operation_request_def one_key_store_def WithAlgorithms_def zero_operationQuery_def)

lemma one_key_descriptor: "\<exists>d. Descriptor sample_parser (sample_key ''a'' KeyStatusActive 1) a = Ok d"
  by (simp add: Descriptor_def Key_Material_def sample_key_def sample_candidate_def key_New_def)

definition sample_sign :: "ctxt \<Rightarrow> entropy \<Rightarrow> KeyAlg \<Rightarrow> bytes \<Rightarrow> bytes res" where
  "sample_sign = sym_Sign (sample_primitives False) (replicate 32 1)"

lemma one_key_signer:
  "\<exists>d. Signer sample_parser (Some one_key_store) 0 background [Some (WithAlgorithms [HS256])]
     = Ok (d, \<lparr>sf_id = ''a'', sf_algorithm = HS256, sf_ctx = background, sf_signer = sample_sign\<rparr>)"
proof -
  obtain d where d: "Descriptor sample_parser (sample_key ''a'' KeyStatusActive 1) HS256 = Ok d"
    using one_key_descriptor by blast
  then show ?thesis
    using Signer_OkI [OF one_key_request [of HS256] _ _ _ _ d,
        of 0 background "symmetricBackend (sample_primitives False) (replicate 32 1)" sample_sign]
      one_key_selected [of KeyOpSign HS256]
    by (auto simp: symmetricBackend_def sample_sign_def)
qed

theorem signer_uses_eligible_key_witness:
  "\<exists>k\<in>set (ks_keys (repository one_key_store)). key_status k \<noteq> KeyStatusPassive
     \<and> key_status k \<noteq> KeyStatusDisabled \<and> key_id k = ''a''"
proof -
  obtain d where "Signer sample_parser (Some one_key_store) 0 background [Some (WithAlgorithms [HS256])]
     = Ok (d, \<lparr>sf_id = ''a'', sf_algorithm = HS256, sf_ctx = background, sf_signer = sample_sign\<rparr>)"
    using one_key_signer by blast
  from signer_uses_eligible_key [OF this] show ?thesis by auto
qed

text \<open>Encryption only ever uses an eligible key in the same sense, and returns what that key's
  backend encrypted with an algorithm the caller listed.\<close>

theorem encrypt_uses_eligible_key:
  assumes "Encrypt parse (Some m) now ctx rand plaintext options = Ok result"
  shows "\<exists>request k a b f.
     operation_request m options = Ok request \<and> k \<in> set (ks_keys (repository m))
     \<and> Matches (query_Keys request) k
     \<and> key_status k \<noteq> KeyStatusDisabled \<and> key_status k \<noteq> KeyStatusPassive
     \<and> (key_notBefore k = 0 \<or> key_notBefore k \<le> now) \<and> (key_notAfter k = 0 \<or> now \<le> key_notAfter k)
     \<and> key_backend k = Some b \<and> backend_Supports b KeyUseEncryption KeyOpEncrypt a
     \<and> (key_restrictions k = [] \<or>
          \<lparr>cap_Use = KeyUseEncryption, cap_Operation = KeyOpEncrypt, cap_Algorithm = a\<rparr>
            \<in> set (key_restrictions k))
     \<and> a \<in> set (query_Algorithms request)
     \<and> backend_Encrypt b = Some f \<and> f (later 1 ctx) rand a plaintext = Ok (er_Ciphertext result)
     \<and> Descriptor parse k a = Ok (er_Key result)"
proof -
  obtain request k a b f where *: "operation_request m options = Ok request"
    "selectKey (Some m) now ctx KeyOpEncrypt (query_Keys request) (query_Algorithms request) = Ok (k, a)"
    "key_backend k = Some b" "backend_Encrypt b = Some f"
    "f (later 1 ctx) rand a plaintext = Ok (er_Ciphertext result)" "Descriptor parse k a = Ok (er_Key result)"
    using assms by (rule Encrypt_OkE)
  then show ?thesis
    using selectKey_Ok_eligible [OF *(2)]
    by (intro exI [of _ request] exI [of _ k] exI [of _ a] exI [of _ b] exI [of _ f])
      (simp add: eligible_def operation_use_def op_defs)
qed

theorem encrypt_uses_eligible_key_witness:
  "\<exists>k\<in>set (ks_keys (repository one_key_store)). key_status k \<noteq> KeyStatusPassive
     \<and> (\<exists>b. key_backend k = Some b \<and> backend_Supports b KeyUseEncryption KeyOpEncrypt A256GCM)"
proof -
  obtain d where d: "Descriptor sample_parser (sample_key ''a'' KeyStatusActive 1) A256GCM = Ok d"
    using one_key_descriptor by blast
  have "sym_Encrypt (sample_primitives False) (replicate 32 1) background sample_entropy A256GCM [5]
      = Ok (replicate 12 7 @ [5] @ replicate 16 0)"
    by (simp add: sym_Encrypt_def sym_encryptionOptions_def sym_algs sample_entropy_def gcm_NonceSize_def
        sample_primitives_def)
  then obtain r where "Encrypt sample_parser (Some one_key_store) 0 background sample_entropy [5]
      [Some (WithAlgorithms [A256GCM])] = Ok r"
    using d one_key_selected [of KeyOpEncrypt A256GCM]
    by (simp add: Encrypt_def one_key_request symmetricBackend_def)
  from encrypt_uses_eligible_key [OF this] show ?thesis
    by (auto simp: one_key_request)
qed

section \<open>The signing function\<close>

text \<open>The results of a sequence of calls of one signing function, in the order in which their
  compare-and-swaps take effect.\<close>

fun run_SignFunc :: "SignFunc \<Rightarrow> bool \<Rightarrow> (entropy \<times> bytes) list \<Rightarrow> bytes res list" where
  "run_SignFunc sf used [] = []"
| "run_SignFunc sf used ((rand, message) # calls) =
     (let (used', result) = call_SignFunc sf rand used message
      in result # run_SignFunc sf used' calls)"

text \<open>A signing function signs at most one message: of any sequence of calls only the first reaches
  the backend, with the algorithm and key it was made for, and every later one fails with "already
  used", also when the first one failed.\<close>

theorem sign_once:
  "run_SignFunc sf False ((rand, message) # calls) =
     map_err (Wrapf ''keystore: sign with key %q and algorithm %q: %w''
                [StrArg (sf_id sf), StrArg (sf_algorithm sf)])
       (sf_signer sf (sf_ctx sf) rand (sf_algorithm sf) message)
     # replicate (length calls)
         (Err (Errorf ''keystore: signer for key %q has already been used'' [StrArg (sf_id sf)]))"
proof -
  have "run_SignFunc sf True cs = replicate (length cs)
      (Err (Errorf ''keystore: signer for key %q has already been used'' [StrArg (sf_id sf)]))"
    for cs :: "(entropy \<times> bytes) list"
    by (induction cs) (auto simp: call_SignFunc_def)
  then show ?thesis by (simp add: call_SignFunc_def)
qed

section \<open>Keys made from candidates\<close>

text \<open>The keys that the store builds: a candidate with the backend found for its material.\<close>

definition built_key :: "primitives \<Rightarrow> certificate_parser \<Rightarrow> Key \<Rightarrow> bool" where
  "built_key prim parse k \<longleftrightarrow>
     (\<exists>c b. BackendFor (builtin_registry prim parse) (cand_Material c) = Ok b
        \<and> k = key_New parse c (Some b))"

lemma clone_public:
  assumes "is_ok (ec_factory_New prim parse m) \<or> is_ok (rsa_factory_New prim parse m)
     \<or> is_ok (sym_factory_New prim parse m)"
  shows "\<exists>p. Public (Clone parse (Clone parse m)) = Ok p"
proof -
  let ?m = "Clone parse m"
  have "(\<exists>k. ?m = PublicMaterial (Some k)) \<or> (\<exists>k. ?m = PrivateMaterial (Some (PrivECDSA (Some k))))
      \<or> (\<exists>k. ?m = PrivateMaterial (Some (PrivRSA (Some k))))
      \<or> (\<exists>c. ?m = CertificateMaterial (Some (Some c))) \<or> (\<exists>k. ?m = SymmetricMaterial (Some k))"
    using assms
    by (auto simp: ec_factory_New_def rsa_factory_New_def sym_factory_New_def
        split: material.splits option.splits private_key.splits)
  then show ?thesis by (auto split: sum.split)
qed

lemma built_key_descriptor:
  assumes "built_key prim parse k"
  shows "\<exists>d. Descriptor parse k a = Ok d"
proof -
  from assms obtain c b where b: "BackendFor (builtin_registry prim parse) (cand_Material c) = Ok b"
    and k: "k = key_New parse c (Some b)"
    unfolding built_key_def by blast
  from b obtain m where m: "cand_Material c = Some m" by (cases "cand_Material c") (auto simp: BackendFor_def)
  from b have "is_ok (ec_factory_New prim parse m) \<or> is_ok (rsa_factory_New prim parse m)
     \<or> is_ok (sym_factory_New prim parse m)"
    unfolding m BackendFor_any_order [OF builtin_factories] is_ok_iff by (auto split: if_splits)
  then obtain p where "Public (Clone parse (Clone parse m)) = Ok p" using clone_public by blast
  then show ?thesis
    using m k by (simp add: Descriptor_def Key_Material_def key_New_def)
qed

lemma built_key_contract:
  "built_key prim parse k \<Longrightarrow> key_backend k = Some b \<Longrightarrow> backend_contract b"
  unfolding built_key_def
proof -
  assume "\<exists>c b. BackendFor (builtin_registry prim parse) (cand_Material c) = Ok b \<and> k = key_New parse c (Some b)"
    and b: "key_backend k = Some b"
  then obtain c :: KeyCandidate where "BackendFor (builtin_registry prim parse) (cand_Material c) = Ok b" by auto
  moreover from this obtain m where "cand_Material c = Some m"
    by (cases "cand_Material c") (auto simp: BackendFor_def)
  ultimately show "backend_contract b" using BackendFor_contract [OF builtin_factories] by auto
qed

lemma selected_backend:
  assumes "selectKey (Some m) now ctx operation selector algorithms = Ok (k, a)"
    and "\<forall>k\<in>set (ks_keys (repository m)). built_key prim parse k"
  obtains b where "key_backend k = Some b" "backend_contract b" "built_key prim parse k"
    "backend_Supports b (operation_use operation) operation a"
proof -
  have k: "k \<in> set (ks_keys (repository m))" "eligible selector now operation a k"
    using selectKey_Ok_eligible [OF assms(1)] by simp_all
  then obtain b where "key_backend k = Some b" "backend_Supports b (operation_use operation) operation a"
    unfolding eligible_def by blast
  then show thesis using that built_key_contract assms(2) k(1) by blast
qed

text \<open>C5: On a store whose keys were built from candidates by the registered factories, a key that the
  selection returns can always be used: \<^verbatim>\<open>Signer\<close> succeeds, and verification, encryption and decryption
  reach the method of the key's backend and fail only if it fails. The type assertions after a
  selection never fail, and describing the key never panics.\<close>

theorem selected_key_usable:
  assumes built: "\<forall>k\<in>set (ks_keys (repository m)). built_key prim parse k"
    and req: "operation_request m options = Ok request" "query_Algorithms request \<noteq> []"
    and sel: "selectKey (Some m) now ctx operation (query_Keys request) (query_Algorithms request) = Ok (k, a)"
  shows "\<exists>b. key_backend k = Some b
     \<and> (operation = KeyOpSign \<longrightarrow> (\<exists>d sf. Signer parse (Some m) now ctx options = Ok (d, sf)))
     \<and> (operation = KeyOpVerify \<longrightarrow> (\<exists>f. backend_Verify b = Some f
          \<and> Verify (Some m) now ctx message signature options =
              map_err (Wrapf ''keystore: verify with key %q and algorithm %q: %w'' [StrArg (key_id k), StrArg a])
                (f (later 1 ctx) a signature message)))
     \<and> (operation = KeyOpEncrypt \<longrightarrow> (\<exists>f d. backend_Encrypt b = Some f
          \<and> Encrypt parse (Some m) now ctx rand message options =
              bind_res (map_err (Wrapf ''keystore: encrypt with key %q and algorithm %q: %w''
                                   [StrArg (key_id k), StrArg a]) (f (later 1 ctx) rand a message))
                (\<lambda>c. Ok \<lparr>er_Ciphertext = c, er_Key = d\<rparr>)))
     \<and> (operation = KeyOpDecrypt \<longrightarrow> (\<exists>f. backend_Decrypt b = Some f
          \<and> Decrypt (Some m) now ctx message options =
              map_err (Wrapf ''keystore: decrypt with key %q and algorithm %q: %w'' [StrArg (key_id k), StrArg a])
                (f (later 1 ctx) a message)))"
proof -
  obtain b where b: "key_backend k = Some b" "backend_contract b" "built_key prim parse k"
    and supports: "backend_Supports b (operation_use operation) operation a"
    by (rule selected_backend [OF sel built])
  obtain d where d: "Descriptor parse k a = Ok d" using built_key_descriptor [OF b(3)] by blast
  note contract = backend_contract.implements_sign [OF b(2)] backend_contract.implements_verify [OF b(2)]
    backend_contract.implements_encrypt [OF b(2)] backend_contract.implements_decrypt [OF b(2)]
  have sign: "\<exists>d sf. Signer parse (Some m) now ctx options = Ok (d, sf)" if "operation = KeyOpSign"
  proof -
    obtain f where "backend_Sign b = Some f" using contract(1) supports \<open>operation = KeyOpSign\<close> by blast
    then show ?thesis using Signer_OkI [OF req] sel b(1) d \<open>operation = KeyOpSign\<close> by blast
  qed
  have verify: "\<exists>f. backend_Verify b = Some f \<and> Verify (Some m) now ctx message signature options =
      map_err (Wrapf ''keystore: verify with key %q and algorithm %q: %w'' [StrArg (key_id k), StrArg a])
        (f (later 1 ctx) a signature message)" if "operation = KeyOpVerify"
  proof -
    obtain f where "backend_Verify b = Some f" using contract(2) supports \<open>operation = KeyOpVerify\<close> by blast
    then show ?thesis using Verify_eq [OF req _ b(1)] sel \<open>operation = KeyOpVerify\<close> by blast
  qed
  have encrypt: "\<exists>f d. backend_Encrypt b = Some f \<and> Encrypt parse (Some m) now ctx rand message options =
      bind_res (map_err (Wrapf ''keystore: encrypt with key %q and algorithm %q: %w''
                           [StrArg (key_id k), StrArg a]) (f (later 1 ctx) rand a message))
        (\<lambda>c. Ok \<lparr>er_Ciphertext = c, er_Key = d\<rparr>)" if "operation = KeyOpEncrypt"
  proof -
    obtain f where "backend_Encrypt b = Some f" using contract(3) supports \<open>operation = KeyOpEncrypt\<close> by blast
    then show ?thesis using req sel b(1) d \<open>operation = KeyOpEncrypt\<close> by (simp add: Encrypt_def) blast
  qed
  have decrypt: "\<exists>f. backend_Decrypt b = Some f \<and> Decrypt (Some m) now ctx message options =
      map_err (Wrapf ''keystore: decrypt with key %q and algorithm %q: %w'' [StrArg (key_id k), StrArg a])
        (f (later 1 ctx) a message)" if "operation = KeyOpDecrypt"
  proof -
    obtain f where "backend_Decrypt b = Some f" using contract(4) supports \<open>operation = KeyOpDecrypt\<close> by blast
    then show ?thesis using Decrypt_eq [OF req _ b(1)] sel \<open>operation = KeyOpDecrypt\<close> by blast
  qed
  show ?thesis
    by (intro exI [of _ b] conjI impI; (rule b(1) | erule sign | erule verify | erule encrypt | erule decrypt))
qed

lemma one_key_built:
  "\<forall>k\<in>set (ks_keys (repository one_key_store)). built_key (sample_primitives False) sample_parser k"
proof -
  let ?c = "sample_candidate ''a'' KeyStatusActive 1"
  have "BackendFor (builtin_registry (sample_primitives False) sample_parser) (cand_Material ?c)
      = Ok (symmetricBackend (sample_primitives False) (replicate 32 1))"
    unfolding sample_candidate_def KeyCandidate.select_convs BackendFor_any_order [OF builtin_factories]
    by (simp add: sym_factory_Supports_def sym_factory_New_def)
  then show ?thesis
    unfolding built_key_def one_key_store_def
    by (auto simp: sample_key_def intro!: exI [of _ ?c])
qed

theorem selected_key_usable_witness:
  "\<exists>f. backend_Decrypt (symmetricBackend (sample_primitives False) (replicate 32 1)) = Some f
     \<and> Decrypt (Some one_key_store) 0 background [1] [Some (WithAlgorithms [A256GCM])] =
         map_err (Wrapf ''keystore: decrypt with key %q and algorithm %q: %w''
           [StrArg ''a'', StrArg A256GCM]) (f (later 1 background) A256GCM [1])"
  using selected_key_usable [OF one_key_built one_key_request [of A256GCM],
      of 0 background KeyOpDecrypt "sample_key ''a'' KeyStatusActive 1" A256GCM "[1]"]
    one_key_selected [of KeyOpDecrypt A256GCM]
  by auto

section \<open>Signing and verifying through the store\<close>

text \<open>The request that names one key and one algorithm, as a verifier takes them from a token header.\<close>

definition by_id :: "string \<Rightarrow> KeyAlg \<Rightarrow> KeystoreRuntimeOption option list" where
  "by_id kid algorithm =
     [Some (WithKeys (Select [Some (WithID kid)])), Some (WithAlgorithms [algorithm])]"

lemma Descriptor_id: "Descriptor parse k a = Ok d \<Longrightarrow> desc_ID d = key_id k \<and> desc_Algorithm d = a"
  by (auto simp: Descriptor_def)

text \<open>The only key with an identifier is selected by it, when it is eligible.\<close>

lemma selectKey_by_id:
  assumes "filter (\<lambda>k. key_id k = kid) (ks_keys (repository m)) = [k]" "ctx 0 = None"
    and "eligible zero_Selector now operation a k"
  shows "selectKey (Some m) now ctx operation (Select [Some (WithID kid)]) [a] = Ok (k, a)"
proof -
  have e: "eligible (Select [Some (WithID kid)]) now operation a k' \<longleftrightarrow>
      key_id k' = kid \<and> eligible zero_Selector now operation a k'" for k'
    by (auto simp: eligible_def WithID_def)
  have "filter (\<lambda>k'. eligible (Select [Some (WithID kid)]) now operation a k'
            \<and> key_priority k \<le> key_priority k') (ks_keys (repository m))
      = filter (\<lambda>k'. eligible zero_Selector now operation a k' \<and> key_priority k \<le> key_priority k')
          (filter (\<lambda>k. key_id k = kid) (ks_keys (repository m)))"
    by (auto simp: e intro: filter_cong)
  also have "\<dots> = [k]" using assms(1,3) by simp
  finally show ?thesis
    using assms(2) unfolding selectKey_Ok_iff by (intro conjI exI [of _ "[]"]) simp_all
qed

text \<open>What the unique key that a signature was made with is.\<close>

lemma signing_key:
  assumes "Signer parse (Some m) now ctx options = Ok (descriptor, sf)"
    and "filter (\<lambda>k. key_id k = desc_ID descriptor) (ks_keys (repository m)) = [k]"
  shows "\<exists>b selector. key_backend k = Some b \<and> backend_Sign b = Some (sf_signer sf)
     \<and> k \<in> set (ks_keys (repository m)) \<and> key_id k = desc_ID descriptor
     \<and> eligible selector now KeyOpSign (desc_Algorithm descriptor) k \<and> sf_algorithm sf = desc_Algorithm descriptor"
proof -
  obtain request :: operationQuery and key b where sel: "selectKey (Some m) now ctx KeyOpSign (query_Keys request)
      (query_Algorithms request) = Ok (key, sf_algorithm sf)"
    and b: "key_backend key = Some b" "backend_Sign b = Some (sf_signer sf)"
    and d: "Descriptor parse key (sf_algorithm sf) = Ok descriptor"
    using assms(1) by (rule Signer_OkE)
  have desc: "desc_ID descriptor = key_id key" "desc_Algorithm descriptor = sf_algorithm sf"
    using Descriptor_id [OF d] by simp_all
  have key: "key \<in> set (ks_keys (repository m))"
      "eligible (query_Keys request) now KeyOpSign (sf_algorithm sf) key"
    using selectKey_Ok_eligible [OF sel] by simp_all
  then have "key \<in> set (filter (\<lambda>k. key_id k = desc_ID descriptor) (ks_keys (repository m)))"
    using desc by simp
  then have "key = k" unfolding assms(2) by simp
  then show ?thesis using key b desc by auto
qed

lemma sign_then_verify:
  assumes signing: "Signer parse (Some m) now ctx options = Ok (descriptor, sf)"
    and signed: "call_SignFunc sf rand False message = (True, Ok signature)"
    and unique: "filter (\<lambda>k. key_id k = desc_ID descriptor) (ks_keys (repository m)) = [k]"
    and later: "filter (\<lambda>k. key_id k = desc_ID descriptor) (ks_keys (repository m')) = [k']"
    and pair: "\<And>b b'. key_backend k = Some b \<Longrightarrow> key_backend k' = Some b' \<Longrightarrow>
      signature_pair b' b"
    and able: "eligible zero_Selector now' KeyOpVerify (desc_Algorithm descriptor) k'"
    and opts: "None \<notin> set (runtimeOptions m')"
  shows "Verify (Some m') now' background message signature
     (by_id (desc_ID descriptor) (desc_Algorithm descriptor)) = Ok ()"
proof -
  obtain b where b: "key_backend k = Some b" "backend_Sign b = Some (sf_signer sf)"
      "sf_algorithm sf = desc_Algorithm descriptor"
    using signing_key [OF signing unique] by blast
  obtain b' where b': "key_backend k' = Some b'" "backend_Supports b' KeyUseSigning KeyOpVerify (desc_Algorithm descriptor)"
    using able by (auto simp: eligible_def operation_use_def op_defs)
  have s: "sf_signer sf (sf_ctx sf) rand (sf_algorithm sf) message = Ok signature"
    using signed by (simp add: call_SignFunc_def)
  obtain f where f: "backend_Verify b' = Some f"
    using pair [OF b(1) b'(1)] b'(2) signature_pair.axioms(1) backend_contract.implements_verify by blast
  have ok: "f background (sf_algorithm sf) signature message = Ok ()"
    by (rule signature_pair.accepted [OF pair [OF b(1) b'(1)] b(2) f s]) simp
  have sel': "selectKey (Some m') now' background KeyOpVerify (Select [Some (WithID (desc_ID descriptor))])
      [desc_Algorithm descriptor] = Ok (k', desc_Algorithm descriptor)"
    by (rule selectKey_by_id [OF later _ able]) simp
  show ?thesis
    using Verify_eq [OF operation_request_override [OF opts,
            of "Select [Some (WithID (desc_ID descriptor))]" "[desc_Algorithm descriptor]"],
          of now' background k' "desc_Algorithm descriptor" b' f message signature]
      sel' b'(1) f ok b(3)
    by (simp add: by_id_def)
qed

text \<open>C3: A signature made through a store verifies through a store. If \<^verbatim>\<open>Signer\<close> returned a descriptor and
  the signing function made a signature, then verifying it with the descriptor's identifier and
  algorithm succeeds, on any store (the same one, or the same after a rotation, or another process's)
  in which that identifier names one key that is not disabled, is valid at the time of verification and
  may verify with the algorithm. The key may have become passive, and it may have another backend, as
  that of the public key; the backend is assumed to accept what the signer's backend signs.\<close>

theorem store_sign_then_verify:
  assumes signing: "Signer parse (Some m) now ctx options = Ok (descriptor, sf)"
    and signed: "call_SignFunc sf rand False message = (True, Ok signature)"
    and unique: "filter (\<lambda>k. key_id k = desc_ID descriptor) (ks_keys (repository m)) = [k]"
    and later: "filter (\<lambda>k. key_id k = desc_ID descriptor) (ks_keys (repository m')) = [k']"
    and pair: "\<And>b b'. key_backend k = Some b \<Longrightarrow> key_backend k' = Some b' \<Longrightarrow> signature_pair b' b"
    and able: "eligible zero_Selector now' KeyOpVerify (desc_Algorithm descriptor) k'"
    and opts: "None \<notin> set (runtimeOptions m')"
  shows "Verify (Some m') now' background message signature
     (by_id (desc_ID descriptor) (desc_Algorithm descriptor)) = Ok ()"
  by (rule sign_then_verify [OF assms])

text \<open>The witness: the key signs while it is active and verifies after it has become passive.\<close>

theorem store_sign_then_verify_witness:
  "\<exists>signature. Verify (Some (sample_store [sample_key ''a'' KeyStatusPassive 1])) 9 background [1, 2]
     signature (by_id ''a'' HS256) = Ok ()"
proof -
  let ?sf = "\<lparr>sf_id = ''a'', sf_algorithm = HS256, sf_ctx = background, sf_signer = sample_sign\<rparr>"
  obtain d where signer: "Signer sample_parser (Some one_key_store) 0 background
      [Some (WithAlgorithms [HS256])] = Ok (d, ?sf)"
    using one_key_signer by blast
  obtain signature where signed: "call_SignFunc ?sf sample_entropy False [1, 2] = (True, Ok signature)"
    by (simp add: call_SignFunc_def sample_sign_def sym_Sign_def sym_signatureOptions_def)
  have d: "desc_ID d = ''a''" "desc_Algorithm d = HS256"
    using Signer_OkE [OF signer] Descriptor_id by fastforce+
  have able: "eligible zero_Selector 9 KeyOpVerify HS256 (sample_key ''a'' KeyStatusPassive 1)"
    by (simp add: sample_eligible status_defs op_defs)
  have "Verify (Some (sample_store [sample_key ''a'' KeyStatusPassive 1])) 9 background [1, 2] signature
      (by_id (desc_ID d) (desc_Algorithm d)) = Ok ()"
    by (rule store_sign_then_verify [OF signer signed, where k = "sample_key ''a'' KeyStatusActive 1"
          and k' = "sample_key ''a'' KeyStatusPassive 1"])
      (use able sym.own.signature_pair_axioms in \<open>auto simp: d one_key_store_def\<close>)
  then show ?thesis unfolding d by blast
qed

end
