(* ===== verification/Jwks_Endpoint.thy ===== *)
theory Jwks_Endpoint
  imports Jwks_Writer Keystore_Operations
begin

text \<open>
  The package \<^verbatim>\<open>jwksendpoint\<close>: an HTTP handler that serves the keys of a keystore as a JSON Web Key Set.
  It relies on the keystore only for the listing of keys, which is the locale \<open>key_lister\<close>.
\<close>

section \<open>The endpoint\<close>

type_synonym writer_interface =
  "ctxt \<Rightarrow> response_writer option \<Rightarrow> Key JWKS option \<Rightarrow> WriterOption list \<Rightarrow> response_writer option \<times> unit res"

text \<open>
  The keystore is seen through its method \<^verbatim>\<open>Keys\<close>, and the writer through its interface; \<open>None\<close> is a nil
  one.
\<close>

record JwksEndpoint =
  ep_keystore :: "(ctxt \<Rightarrow> Selector \<Rightarrow> Key list res) option"
  ep_selector :: Selector
  ep_writer :: "writer_interface option"
  ep_writerOptions :: "WriterConfigOption list"

type_synonym JwksEndpointConfigOption = "JwksEndpoint config_option"

definition WithKeystore :: "(ctxt \<Rightarrow> Selector \<Rightarrow> Key list res) option \<Rightarrow> JwksEndpointConfigOption" where
  "WithKeystore keystore = Some (\<lambda>endpoint. Ok (endpoint\<lparr>ep_keystore := keystore\<rparr>))"

definition WithKeySelector :: "Selector \<Rightarrow> JwksEndpointConfigOption" where
  "WithKeySelector selector = Some (\<lambda>endpoint. Ok (endpoint\<lparr>ep_selector := selector\<rparr>))"

definition WithJwksWriterOption :: "WriterConfigOption list \<Rightarrow> JwksEndpointConfigOption" where
  "WithJwksWriterOption options = Some (\<lambda>endpoint.
     Ok (endpoint\<lparr>ep_writerOptions := ep_writerOptions endpoint @ options\<rparr>))"

definition endpoint_New :: "jwks_env \<Rightarrow> JwksEndpointConfigOption list \<Rightarrow> JwksEndpoint res" where
  "endpoint_New env configOptions =
     bind_res
       (config_loop
         (\<lambda>index. je_category env ErrMisconfigured
            (Errorf ''nil JWKS endpoint config option at index %d'' [IntArg (int index)]))
         (\<lambda>index err. je_category env ErrMisconfigured
            (Wrapf ''apply JWKS endpoint config option at index %d: %w'' [IntArg (int index)] err))
         0 configOptions
         \<lparr>ep_keystore = None, ep_selector = zero_Selector, ep_writer = None, ep_writerOptions = []\<rparr>)
       (\<lambda>endpoint.
         if ep_keystore endpoint = None
         then Err (je_category env ErrMisconfigured (Errorf ''nil JWKS endpoint keystore'' []))
         else
           bind_res
             (map_err (\<lambda>err. je_category env ErrMisconfigured (Wrapf ''create JWKS writer: %w'' [] err))
               (NewWriter env (ep_writerOptions endpoint)))
             (\<lambda>writer. Ok (endpoint\<lparr>ep_writer := Some (WriteArtifact env (Some writer))\<rparr>)))"

section \<open>Requests\<close>

record http_Request =
  rq_Method :: string
  rq_Context :: ctxt

text \<open>
  The result is the response, or a panic. The keystores of this repository check the context once when
  they list keys.
\<close>

definition ServeHTTP ::
    "JwksEndpoint option \<Rightarrow> response_writer \<Rightarrow> http_Request option \<Rightarrow> response_writer res" where
  "ServeHTTP e response request =
     (case Option.bind e (\<lambda>e. Option.bind (ep_keystore e) (\<lambda>k. map_option (\<lambda>w. (e, k, w)) (ep_writer e))) of
        None \<Rightarrow> Ok (http_Error ''internal server error'' 500 response)
      | Some (endpoint, keystore, writer) \<Rightarrow>
     (case request of
        None \<Rightarrow> Ok (http_Error ''bad request'' 400 response)
      | Some req \<Rightarrow>
          if rq_Method req \<noteq> ''GET''
          then Ok (http_Error ''method not allowed'' 405 (Header_Set ''Allow'' ''GET'' response))
          else
            (case keystore (rq_Context req) (ep_selector endpoint) of
               Panic p \<Rightarrow> Panic p
             | Err err \<Rightarrow> Ok (http_Error ''internal server error'' 500 response)
             | Ok keys \<Rightarrow>
                 (case writer (later 1 (rq_Context req)) (Some response) (Some \<lparr>jwks_Keys = Some keys\<rparr>) [] of
                    (w, Panic p) \<Rightarrow> Panic p
                  | (w, Err err) \<Rightarrow> Ok (http_Error ''internal server error'' 500 (case w of Some w \<Rightarrow> w | None \<Rightarrow> response))
                  | (w, Ok u) \<Rightarrow> Ok (case w of Some w \<Rightarrow> w | None \<Rightarrow> response)))))"

section \<open>What the endpoint relies on\<close>

locale key_lister =
  fixes list_keys :: "ctxt \<Rightarrow> Selector \<Rightarrow> Key list res"
  assumes listed_live: "list_keys ctx selector = Ok keys \<Longrightarrow> ctx 0 = None"
    and listed_match: "list_keys ctx selector = Ok keys \<Longrightarrow> key \<in> set keys \<Longrightarrow> Matches selector key"
begin

text \<open>An endpoint with default options, over any keystore: which response a request gets.\<close>

definition default_endpoint :: "jwks_env \<Rightarrow> Selector \<Rightarrow> JwksEndpoint" where
  "default_endpoint env selector =
     \<lparr>ep_keystore = Some list_keys, ep_selector = selector,
      ep_writer = Some (WriteArtifact env (Some
        \<lparr>wr_encoder = Some (jwks_Encode env (Some \<lparr>enc_runtimeOptions = []\<rparr>)), wr_runtimeOptions = []\<rparr>)),
      ep_writerOptions = []\<rparr>"

lemma default_New:
  "endpoint_New env [WithKeystore (Some list_keys), WithKeySelector selector] = Ok (default_endpoint env selector)"
  by (simp add: endpoint_New_def WithKeystore_def WithKeySelector_def NewWriter_default default_endpoint_def)

lemma serve_other_method:
  "rq_Method req \<noteq> ''GET'' \<Longrightarrow>
     ServeHTTP (Some (default_endpoint env selector)) w (Some req)
       = Ok (http_Error ''method not allowed'' 405 (Header_Set ''Allow'' ''GET'' w))"
  by (simp add: ServeHTTP_def default_endpoint_def)

text \<open>The text of the key set that is served, when there is one.\<close>

definition served :: "jwks_env \<Rightarrow> Selector \<Rightarrow> ctxt \<Rightarrow> bytes res" where
  "served env selector ctx =
     bind_res (list_keys ctx selector) (\<lambda>keys.
       jwks_Encode env (Some \<lparr>enc_runtimeOptions = []\<rparr>) (later 1 ctx) (Some \<lparr>jwks_Keys = Some keys\<rparr>) [])"

lemma served_nonempty:
  "jwks_Encode env e ctx (Some \<lparr>jwks_Keys = Some []\<rparr>) options \<noteq> Ok body"
  by (auto simp: jwks_Encode_def split: option.splits)

lemma serve_get:
  assumes "rq_Method req = ''GET''" "fresh_writer w"
  shows "ServeHTTP (Some (default_endpoint env selector)) w (Some req) =
     (case served env selector (rq_Context req) of
        Ok body \<Rightarrow> Ok (w\<lparr>rw_Header := jwks_header (rw_Header w),
                        rw_sent := Some (200, jwks_header (rw_Header w)), rw_body := body\<rparr>)
      | Err err \<Rightarrow> Ok (http_Error ''internal server error'' 500 w)
      | Panic p \<Rightarrow> Panic p)"
proof (cases "list_keys (rq_Context req) selector")
  case (Ok keys)
  let ?encode = "jwks_Encode env (Some \<lparr>enc_runtimeOptions = []\<rparr>)"
  show ?thesis
  proof (cases keys)
    case Nil
    have "served env selector (rq_Context req) \<noteq> Panic p" for p
      using Ok Nil by (auto simp: served_def jwks_Encode_def split: option.splits)
    then obtain err where "served env selector (rq_Context req) = Err err"
      using Ok Nil served_nonempty by (cases "served env selector (rq_Context req)") (auto simp: served_def)
    then show ?thesis
      using assms(1) Ok Nil by (simp add: ServeHTTP_def default_endpoint_def WriteArtifact_def)
  next
    case (Cons key others)
    note all = writeArtifact_fresh [OF _ assms(2), of ?encode "later 1 (rq_Context req)"
        "Some \<lparr>jwks_Keys = Some keys\<rparr>" "[]" _ env]
    show ?thesis
      using assms(1) Ok Cons all
      by (cases "?encode (later 1 (rq_Context req)) (Some \<lparr>jwks_Keys = Some keys\<rparr>) []")
        (simp_all add: ServeHTTP_def default_endpoint_def WriteArtifact_def served_def writeArtifact_def)
  qed
qed (use assms(1) in \<open>simp_all add: ServeHTTP_def default_endpoint_def served_def\<close>)

text \<open>What is served is public, and only selected keys are.\<close>

lemma served_public:
  assumes "served env selector ctx = Ok body" "codec_registry jp (je_codecs env)"
  shows "\<exists>keys. list_keys ctx selector = Ok keys \<and> (\<forall>key\<in>set keys. Matches selector key)
     \<and> (\<forall>key\<in>set keys. \<forall>k. key_material key \<noteq> Some (SymmetricMaterial k))
     \<and> jwks_Encode env (Some \<lparr>enc_runtimeOptions = []\<rparr>) (later 1 ctx)
          (Some \<lparr>jwks_Keys = Some (map public_key_of keys)\<rparr>) [] = Ok body"
proof -
  obtain keys where keys: "list_keys ctx selector = Ok keys"
      "jwks_Encode env (Some \<lparr>enc_runtimeOptions = []\<rparr>) (later 1 ctx) (Some \<lparr>jwks_Keys = Some keys\<rparr>) [] = Ok body"
    using assms(1) by (auto simp: served_def)
  then show ?thesis using encode_conceals [OF keys(2) assms(2)] listed_match [OF keys(1)] by blast
qed

end

interpretation store_lister: key_lister "Keys m" for m
  by unfold_locales (auto simp: Keys_def Find_eq split: option.splits)

section \<open>Property\<close>

lemma http_Error_status:
  assumes "fresh_writer w"
  shows "\<exists>h. rw_sent (http_Error message status w) = Some (status, h)
     \<and> rw_body (http_Error message status w) = bytes_of (message @ [CHR 0x0A])"
  using http_Error_fresh [OF assms] by blast

text \<open>C8: The responses of an endpoint with default options over a store, for a connection to which nothing has
  been written and that takes everything. A method other than GET gets 405 and the allowed method. A
  GET gets 200 with the key set of the selected keys if it can be written; that set is the one of their
  public parts, so no private and no symmetric key is ever served. In all other cases it gets 500 and
  the plain error text, with no part of a key set; so it does when no key is selected.\<close>

theorem endpoint_responses:
  assumes "endpoint_New env [WithKeystore (Some (Keys m)), WithKeySelector selector] = Ok e"
    and "codec_registry jp (je_codecs env)" "fresh_writer w" "ServeHTTP (Some e) w (Some req) = Ok w'"
  shows "rq_Method req \<noteq> ''GET''
       \<and> rw_sent w' = Some (405, ((rw_Header w)(''Allow'' \<mapsto> [''GET''], ''Content-Length'' := None))
           (''Content-Type'' \<mapsto> [''text/plain; charset=utf-8''], ''X-Content-Type-Options'' \<mapsto> [''nosniff'']))
       \<and> rw_body w' = bytes_of (''method not allowed'' @ [CHR 0x0A])
     \<or> rq_Method req = ''GET''
       \<and> (\<exists>keys body. Keys m (rq_Context req) selector = Ok keys \<and> keys \<noteq> []
            \<and> (\<forall>key\<in>set keys. Matches selector key \<and> (\<forall>k. key_material key \<noteq> Some (SymmetricMaterial k)))
            \<and> jwks_Encode env (Some \<lparr>enc_runtimeOptions = []\<rparr>) (later 1 (rq_Context req))
                (Some \<lparr>jwks_Keys = Some (map public_key_of keys)\<rparr>) [] = Ok body
            \<and> rw_sent w' = Some (200, (rw_Header w)(''Content-Type'' \<mapsto> [''application/jwk-set+json''],
                ''X-Content-Type-Options'' \<mapsto> [''nosniff'']))
            \<and> rw_body w' = body)
     \<or> rq_Method req = ''GET'' \<and> (\<exists>h. rw_sent w' = Some (500, h))
       \<and> rw_body w' = bytes_of (''internal server error'' @ [CHR 0x0A])
       \<and> (\<nexists>keys body. Keys m (rq_Context req) selector = Ok keys
            \<and> jwks_Encode env (Some \<lparr>enc_runtimeOptions = []\<rparr>) (later 1 (rq_Context req))
                (Some \<lparr>jwks_Keys = Some keys\<rparr>) [] = Ok body)"
proof -
  let ?served = "store_lister.served m env selector (rq_Context req)"
  have e: "e = store_lister.default_endpoint m env selector"
    using assms(1) store_lister.default_New by simp
  consider (other) "rq_Method req \<noteq> ''GET''" | (body) body where "rq_Method req = ''GET''" "?served = Ok body"
    | (err) err where "rq_Method req = ''GET''" "?served = Err err" | (panic) p where "rq_Method req = ''GET''" "?served = Panic p"
    by (cases ?served) auto
  then show ?thesis
  proof cases
    case other
    then have "w' = http_Error ''method not allowed'' 405 (Header_Set ''Allow'' ''GET'' w)"
      using assms(4) store_lister.serve_other_method unfolding e by simp
    then show ?thesis using other http_Error_fresh [of "Header_Set ''Allow'' ''GET'' w"] assms(3)
      by (simp add: Header_Set_def fresh_writer_def del: bytes_of_append)
  next
    case body
    then have w': "w' = w\<lparr>rw_Header := jwks_header (rw_Header w),
        rw_sent := Some (200, jwks_header (rw_Header w)), rw_body := body\<rparr>"
      using assms(4) store_lister.serve_get [OF body(1) assms(3)] unfolding e by simp
    obtain keys where keys: "Keys m (rq_Context req) selector = Ok keys" "\<forall>key\<in>set keys. Matches selector key"
        "\<forall>key\<in>set keys. \<forall>k. key_material key \<noteq> Some (SymmetricMaterial k)"
        "jwks_Encode env (Some \<lparr>enc_runtimeOptions = []\<rparr>) (later 1 (rq_Context req))
          (Some \<lparr>jwks_Keys = Some (map public_key_of keys)\<rparr>) [] = Ok body"
      using store_lister.served_public [OF body(2) assms(2)] by blast
    moreover have "keys \<noteq> []" using keys(4) store_lister.served_nonempty by auto
    ultimately show ?thesis using body(1) unfolding w' by (auto simp: jwks_header_def)
  next
    case err
    then have "w' = http_Error ''internal server error'' 500 w"
      using assms(4) store_lister.serve_get [OF err(1) assms(3)] unfolding e by simp
    moreover have "\<nexists>keys body. Keys m (rq_Context req) selector = Ok keys
            \<and> jwks_Encode env (Some \<lparr>enc_runtimeOptions = []\<rparr>) (later 1 (rq_Context req))
                (Some \<lparr>jwks_Keys = Some keys\<rparr>) [] = Ok body"
      using err(2) by (auto simp: store_lister.served_def)
    ultimately show ?thesis using err(1) http_Error_status [OF assms(3), of "''internal server error''" 500] by (auto simp del: bytes_of_append)
  next
    case panic
    then show ?thesis using assms(4) store_lister.serve_get [OF panic(1) assms(3)] unfolding e by simp
  qed
qed

definition sample_writer :: response_writer where
  "sample_writer = \<lparr>rw_Header = Map.empty, rw_sent = None, rw_body = [], rw_accepts = \<lambda>body p. (length p, None)\<rparr>"

theorem endpoint_responses_witness:
  "\<exists>e w' h. endpoint_New sample_jwks_env [WithKeystore (Some (Keys (sample_store [sample_ec_jose_key]))),
        WithKeySelector zero_Selector] = Ok e
     \<and> ServeHTTP (Some e) sample_writer (Some \<lparr>rq_Method = ''GET'', rq_Context = background\<rparr>) = Ok w'
     \<and> rw_sent w' = Some (200, h)"
proof -
  let ?m = "sample_store [sample_ec_jose_key]" and ?req = "\<lparr>rq_Method = ''GET'', rq_Context = background\<rparr>"
  let ?e = "store_lister.default_endpoint ?m sample_jwks_env zero_Selector"
  have fresh: "fresh_writer sample_writer" by (simp add: fresh_writer_def sample_writer_def)
  have keys: "Keys ?m background zero_Selector = Ok [sample_ec_jose_key]"
    by (simp add: Keys_def Find_eq Matches_zero)
  then obtain body where b: "store_lister.served ?m sample_jwks_env zero_Selector background = Ok body"
    using sample_set_encoded by (auto simp: store_lister.served_def jwks_Encode_def)
  then obtain w' where w': "ServeHTTP (Some ?e) sample_writer (Some ?req) = Ok w'"
    using store_lister.serve_get [OF _ fresh, of ?req] by simp
  have new: "endpoint_New sample_jwks_env [WithKeystore (Some (Keys ?m)), WithKeySelector zero_Selector] = Ok ?e"
    by (rule store_lister.default_New)
  show ?thesis
    using endpoint_responses [OF new _ fresh w', of sample_jose] b keys w' new
      registered_builtin [of sample_jose]
    by (auto simp: sample_jwks_env_def store_lister.served_def)
qed

end
