(* ===== verification/Jwks_Source.thy ===== *)
theory Jwks_Source
  imports Polling_Source Jwks
begin

text \<open>
  The package \<^verbatim>\<open>keysource/jwkssource\<close>: keys from a JSON Web Key Set that is fetched over HTTP, with a
  goroutine that polls for a changed set. The parsing of URLs, the network and SHA-256 are parameters; the
  redirects that \<^verbatim>\<open>http.Client\<close> follows are written out.
\<close>

section \<open>The HTTP client\<close>

text \<open>What the source reads of a URL; \<open>url_Redacted\<close> is its text without a password.\<close>

record url =
  url_Scheme :: string
  url_Host :: string
  url_String :: string
  url_Redacted :: string

text \<open>\<^verbatim>\<open>url.Parse\<close>, the same relative to a URL, and SHA-256.\<close>

record url_env =
  url_Parse :: "string \<Rightarrow> error + url"
  url_Resolve :: "url \<Rightarrow> string \<Rightarrow> error + url"
  ue_sha256 :: "bytes \<Rightarrow> bytes"

record http_request =
  req_URL :: url
  req_Accept :: string

text \<open>A body is its bytes and then either its end or an error. \<open>[]\<close> for the location is a header that is not there.\<close>

record http_response =
  resp_StatusCode :: nat
  resp_Status :: string
  resp_Location :: string
  resp_Body :: "bytes \<times> error option"

type_synonym redirect_check = "http_request \<Rightarrow> http_request list \<Rightarrow> error option"

text \<open>\<open>client_idleClosed\<close> is whether the idle connections of the client have been closed.\<close>

record http_client =
  client_CheckRedirect :: "redirect_check option"
  client_Timeout :: duration
  client_idleClosed :: bool

text \<open>The network: what comes back for a request after the earlier ones of the same exchange.\<close>

type_synonym network = "http_request list \<Rightarrow> http_request \<Rightarrow> error + http_response"

definition url_Error :: "http_request \<Rightarrow> error \<Rightarrow> error" where
  "url_Error req err = Wrapf ''Get %q: %w'' [StrArg (url_Redacted (req_URL req))] err"

definition http_ErrUseLastResponse :: error where
  "http_ErrUseLastResponse = ErrorNew ''net/http: use last response''"

definition redirect_status :: "nat \<Rightarrow> bool" where
  "redirect_status status \<longleftrightarrow> status \<in> {301, 302, 303, 307, 308}"

text \<open>
  \<^verbatim>\<open>http.Client.Do\<close> for a GET request, with the check of redirects it is given. A check that never objects
  may be led on for ever, and then the exchange has no result.
\<close>

partial_function (option) client_Do ::
    "url_env \<Rightarrow> network \<Rightarrow> redirect_check \<Rightarrow> http_request list \<Rightarrow> http_request \<Rightarrow> (error + http_response) option" where
  [code]: "client_Do ue net check via req =
     (case net via req of
        Inl err \<Rightarrow> Some (Inl (url_Error req err))
      | Inr resp \<Rightarrow>
          if \<not> redirect_status (resp_StatusCode resp) \<or> resp_Location resp = [] then Some (Inr resp)
          else
            (case url_Resolve ue (req_URL req) (resp_Location resp) of
               Inl err \<Rightarrow> Some (Inl (url_Error req
                 (Wrapf ''failed to parse Location header %q: %v'' [StrArg (resp_Location resp)] err)))
             | Inr u \<Rightarrow>
                 (case check (req\<lparr>req_URL := u\<rparr>) (via @ [req]) of
                    None \<Rightarrow> client_Do ue net check (via @ [req]) (req\<lparr>req_URL := u\<rparr>)
                  | Some err \<Rightarrow>
                      Some (if err = http_ErrUseLastResponse then Inr resp else Inl (url_Error req err)))))"

text \<open>\<^verbatim>\<open>io.ReadAll\<close> of \<^verbatim>\<open>io.LimitReader\<close>: an error behind the limit is not seen.\<close>

definition read_limited :: "nat \<Rightarrow> bytes \<times> error option \<Rightarrow> error + bytes" where
  "read_limited limit body =
     (if limit \<le> length (fst body) then Inr (take limit (fst body))
      else (case snd body of None \<Rightarrow> Inr (fst body) | Some err \<Rightarrow> Inl err))"

section \<open>The source\<close>

record jwks_source = poll_state +
  jsrc_url :: string
  jsrc_frequency :: duration
  jsrc_client :: "http_client option"
  jsrc_ownsClient :: bool
  jsrc_decoder :: jwks_Decoder
  jsrc_allowHTTP :: bool

definition jsource_ErrClosed :: error where
  "jsource_ErrClosed = ErrorNew ''JWKS source is closed''"

definition maximumJWKSSize :: nat where
  "maximumJWKSSize = 10485760"

definition defaultHTTPTimeout :: duration where
  "defaultHTTPTimeout = 30000000000"

type_synonym jsource_Option = "jwks_source \<Rightarrow> jwks_source res"

definition WithInsecureHTTP :: jsource_Option where
  "WithInsecureHTTP = (\<lambda>s. Ok (s\<lparr>jsrc_allowHTTP := True\<rparr>))"

definition WithHTTPClient :: "http_client option \<Rightarrow> jsource_Option" where
  "WithHTTPClient client =
     (\<lambda>s. case client of
          None \<Rightarrow> Err (Errorf ''JWKS source HTTP client is nil'' [])
        | Some c \<Rightarrow> Ok (s\<lparr>jsrc_client := Some c, jsrc_ownsClient := False\<rparr>))"

fun apply_jsource_options :: "jsource_Option option list \<Rightarrow> jwks_source \<Rightarrow> jwks_source res" where
  "apply_jsource_options [] s = Ok s"
| "apply_jsource_options (None # options) s = apply_jsource_options options s"
| "apply_jsource_options (Some opt # options) s = bind_res (opt s) (apply_jsource_options options)"

definition jsource_New ::
    "jwks_env \<Rightarrow> url_env \<Rightarrow> string \<Rightarrow> string \<Rightarrow> duration \<Rightarrow> jsource_Option option list \<Rightarrow> jwks_source res" where
  "jsource_New env ue sid rawURL frequency options =
     (if TrimSpace sid = [] then Err (Errorf ''JWKS source ID is empty'' [])
      else
        (case url_Parse ue rawURL of
           Inl err \<Rightarrow> Err (Errorf ''JWKS source URL %q is invalid'' [StrArg rawURL])
         | Inr parsedURL \<Rightarrow>
             if (url_Scheme parsedURL \<noteq> ''http'' \<and> url_Scheme parsedURL \<noteq> ''https'') \<or> url_Host parsedURL = []
             then Err (Errorf ''JWKS source URL %q is invalid'' [StrArg rawURL])
             else if frequency \<le> 0 then Err (Errorf ''JWKS source frequency must be positive'' [])
             else
               bind_res (map_err (Wrapf ''JWKS source: decoder init failed: %w'' []) (NewDecoder env [])) (\<lambda>decoder.
               bind_res
                 (apply_jsource_options options
                   \<lparr>pl_id = sid, pl_cancelled = False, pl_callback = None, pl_started = False, pl_closed = False,
                    pl_snapshot = [], pl_watches = 0, jsrc_url = url_String parsedURL, jsrc_frequency = frequency,
                    jsrc_client = Some \<lparr>client_CheckRedirect = None, client_Timeout = defaultHTTPTimeout,
                                        client_idleClosed = False\<rparr>,
                    jsrc_ownsClient = True, jsrc_decoder = decoder, jsrc_allowHTTP = False\<rparr>) (\<lambda>s.
               if url_Scheme parsedURL = ''http'' \<and> \<not> jsrc_allowHTTP s
               then Err (Errorf ''JWKS source URL %q uses insecure HTTP; use WithInsecureHTTP to permit it''
                      [StrArg rawURL])
               else Ok s))))"

text \<open>A nil client does not get this far: \<^verbatim>\<open>load\<close> has dereferenced it.\<close>

definition checkRedirect :: "jwks_source \<Rightarrow> redirect_check" where
  "checkRedirect s request via =
     (if url_Scheme (req_URL request) \<noteq> ''https'' \<and> \<not> jsrc_allowHTTP s
      then Some (Errorf ''JWKS source redirect to insecure URL %q is not permitted''
             [StrArg (url_String (req_URL request))])
      else
        (case Option.bind (jsrc_client s) client_CheckRedirect of
           Some check \<Rightarrow> check request via
         | None \<Rightarrow> if length via \<ge> 10 then Some (ErrorNew ''stopped after 10 redirects'') else None))"

text \<open>The body of the loop over the keys.\<close>

definition label_key :: "jwks_source \<Rightarrow> KeyCandidate \<Rightarrow> KeyCandidate" where
  "label_key s candidate =
     (let labelled = (if cand_Source candidate = [] then candidate\<lparr>cand_Source := pl_id s\<rparr> else candidate)
      in if cand_Status labelled = [] then labelled\<lparr>cand_Status := KeyStatusActive\<rparr> else labelled)"

text \<open>What is done with a response.\<close>

definition jsource_read ::
    "jwks_env \<Rightarrow> url_env \<Rightarrow> ctxt \<Rightarrow> jwks_source \<Rightarrow> http_response \<Rightarrow> (KeyCandidate list \<times> string) res" where
  "jsource_read env ue ctx s response =
     (if resp_StatusCode response < 200 \<or> resp_StatusCode response \<ge> 300
      then Err (Errorf ''request JWKS %q: unexpected HTTP status %s''
             [StrArg (jsrc_url s), StrArg (resp_Status response)])
      else
        (case read_limited (maximumJWKSSize + 1) (resp_Body response) of
           Inl err \<Rightarrow> Err (Wrapf ''read JWKS %q: %w'' [StrArg (jsrc_url s)] err)
         | Inr encoded \<Rightarrow>
             if length encoded > maximumJWKSSize
             then Err (Errorf ''read JWKS %q: response exceeds %d bytes''
                    [StrArg (jsrc_url s), IntArg (int maximumJWKSSize)])
             else
               bind_res
                 (map_err (Wrapf ''decode JWKS %q: %w'' [StrArg (jsrc_url s)])
                   (jwks_Decode env (Some (jsrc_decoder s)) ctx (Some encoded) [])) (\<lambda>artifact.
               Ok (map (label_key s) (case jwks_Keys artifact of None \<Rightarrow> [] | Some keys \<Rightarrow> keys),
                   hex_EncodeToString (ue_sha256 ue encoded)))))"

text \<open>\<open>None\<close> for the result is an exchange without end. The context is given to the decoder, and the network stands
  for what it does to the exchange.\<close>

definition jsource_load ::
    "jwks_env \<Rightarrow> url_env \<Rightarrow> network \<Rightarrow> ctxt \<Rightarrow> jwks_source \<Rightarrow> (KeyCandidate list \<times> string) res option" where
  "jsource_load env ue net ctx s =
     (case url_Parse ue (jsrc_url s) of
        Inl err \<Rightarrow> Some (Err (Wrapf ''create JWKS request: %w'' [] err))
      | Inr u \<Rightarrow>
          (case jsrc_client s of
             None \<Rightarrow> Some (Panic ''nil pointer dereference'')
           | Some client \<Rightarrow>
               map_option
                 (\<lambda>result. case result of
                    Inl err \<Rightarrow> Err (Wrapf ''request JWKS %q: %w'' [StrArg (jsrc_url s)] err)
                  | Inr response \<Rightarrow> jsource_read env ue ctx s response)
                 (client_Do ue net (checkRedirect s) []
                   \<lparr>req_URL = u, req_Accept = ''application/jwk-set+json, application/json''\<rparr>)))"

section \<open>The operations\<close>

text \<open>Where the goroutine is started; \<open>pl_watches\<close> counts the starts.\<close>

definition jsource_startLocked :: "jwks_source \<Rightarrow> jwks_source" where
  "jsource_startLocked s =
     (if pl_closed s \<or> pl_started s \<or> pl_callback s = None \<or> pl_snapshot s = [] then s
      else s\<lparr>pl_started := True, pl_watches := pl_watches s + 1\<rparr>)"

text \<open>The second critical section of \<^verbatim>\<open>Load\<close>.\<close>

definition jsource_commit ::
    "KeyCandidate list \<Rightarrow> string \<Rightarrow> jwks_source \<Rightarrow> jwks_source \<times> KeyCandidate list res" where
  "jsource_commit keys snapshot s =
     (if pl_closed s then (s, Err jsource_ErrClosed)
      else (jsource_startLocked (s\<lparr>pl_snapshot := snapshot\<rparr>), Ok keys))"

text \<open>\<^verbatim>\<open>Load\<close> when nothing else runs in between; the request is given the caller's context.\<close>

definition jsource_Load ::
    "jwks_env \<Rightarrow> url_env \<Rightarrow> network \<Rightarrow> ctxt option \<Rightarrow> jwks_source \<Rightarrow> (jwks_source \<times> KeyCandidate list res) option" where
  "jsource_Load env ue net context s =
     (case context of
        None \<Rightarrow> Some (s, Err (Errorf ''load JWKS: nil context'' []))
      | Some ctx \<Rightarrow>
          if pl_closed s then Some (s, Err jsource_ErrClosed)
          else
            map_option
              (\<lambda>result. case result of
                 Err err \<Rightarrow> (s, Err err)
               | Panic p \<Rightarrow> (s, Panic p)
               | Ok (keys, snapshot) \<Rightarrow> jsource_commit keys snapshot s)
              (jsource_load env ue net ctx s))"

definition jsource_Close :: "jwks_source \<Rightarrow> jwks_source \<times> error option" where
  "jsource_Close s =
     (if pl_closed s then (s, None)
      else
        (let closed = s\<lparr>pl_closed := True, pl_cancelled := True\<rparr> in
         (if jsrc_ownsClient closed
          then closed\<lparr>jsrc_client := map_option (client_idleClosed_update (\<lambda>_. True)) (jsrc_client closed)\<rparr>
          else closed, None)))"

definition jsource_SetRefreshCallback :: "string option \<Rightarrow> jwks_source \<Rightarrow> jwks_source" where
  "jsource_SetRefreshCallback callback s = jsource_startLocked (s\<lparr>pl_callback := callback\<rparr>)"

text \<open>The comparison in \<^verbatim>\<open>watch\<close> and its recording of an accepted snapshot.\<close>

definition jsource_compare :: "string \<Rightarrow> jwks_source \<Rightarrow> string option" where
  "jsource_compare snapshot s = (if snapshot = pl_snapshot s then None else pl_callback s)"

definition jsource_accept :: "string \<Rightarrow> jwks_source \<Rightarrow> jwks_source" where
  "jsource_accept snapshot s = s\<lparr>pl_snapshot := snapshot\<rparr>"

section \<open>Facts about an exchange\<close>

text \<open>The network is asked only for the first request and for those the check lets pass.\<close>

lemma client_Do_asks:
  assumes "client_Do ue net check via req = Some result"
    and "net via req = other via req"
    and "\<And>via' req'. check req' via' = None \<Longrightarrow> net via' req' = other via' req'"
  shows "client_Do ue other check via req = Some result"
  using assms
proof (induction rule: client_Do.raw_induct [rotated, consumes 1, case_names step])
  case (step client_Do' ue net check via req result)
  note net [simp] = step(3) [symmetric]
  show ?case
  proof (cases "net via req")
    case (Inl err)
    then show ?thesis using step(2) by (auto simp: client_Do.simps [of ue other])
  next
    case resp: (Inr resp)
    show ?thesis
    proof (cases "\<not> redirect_status (resp_StatusCode resp) \<or> resp_Location resp = []")
      case True
      then show ?thesis using step(2) resp by (auto simp: client_Do.simps [of ue other])
    next
      case False
      show ?thesis
      proof (cases "url_Resolve ue (req_URL req) (resp_Location resp)")
        case (Inl err)
        then show ?thesis using step(2) resp False by (auto simp: client_Do.simps [of ue other])
      next
        case u: (Inr u)
        show ?thesis
        proof (cases "check (req\<lparr>req_URL := u\<rparr>) (via @ [req])")
          case None
          then have "client_Do' ue net check (via @ [req]) (req\<lparr>req_URL := u\<rparr>) = Some result"
            using step(2) resp False u by simp
          from step(1) [OF this step(4) [OF None] step(4)] show ?thesis
            using None resp False u by (auto simp: client_Do.simps [of ue other check via])
        next
          case (Some err)
          then show ?thesis using step(2) resp False u by (auto simp: client_Do.simps [of ue other])
        qed
      qed
    qed
  qed
qed

lemma client_Do_cong:
  assumes "net via req = other via req"
    and "\<And>via' req'. check req' via' = None \<Longrightarrow> net via' req' = other via' req'"
  shows "client_Do ue net check via req = client_Do ue other check via req"
proof (cases "client_Do ue net check via req")
  case None
  show ?thesis
  proof (cases "client_Do ue other check via req")
    case (Some result)
    with client_Do_asks [OF Some assms [symmetric]] None show ?thesis by simp
  qed (simp add: None)
next
  case (Some result)
  with client_Do_asks [OF Some assms] show ?thesis by simp
qed

text \<open>A check that allows a bounded number of requests ends every exchange.\<close>

lemma client_Do_ends:
  assumes "\<And>req' via'. check req' via' = None \<Longrightarrow> length via' < n"
  shows "client_Do ue net check via req \<noteq> None"
proof (induction "n - length via" arbitrary: via req rule: less_induct)
  case less
  have "client_Do ue net check (via @ [req]) (req\<lparr>req_URL := u\<rparr>) \<noteq> None"
    if "check (req\<lparr>req_URL := u\<rparr>) (via @ [req]) = None" for u
    using less [of "via @ [req]"] assms [OF that] by simp
  then show ?case by (subst client_Do.simps) (auto split: sum.split option.split)
qed

text \<open>What the check of the source lets pass.\<close>

lemma checkRedirect_None:
  assumes "checkRedirect s req via = None"
  shows "jsrc_allowHTTP s \<or> url_Scheme (req_URL req) = ''https''"
    and "Option.bind (jsrc_client s) client_CheckRedirect = None \<Longrightarrow> length via < 10"
  using assms by (auto simp: checkRedirect_def split: if_splits)

section \<open>Facts about reading\<close>

text \<open>The settings of a source, which nothing changes after its construction, except that closing it may close
  the idle connections of its client.\<close>

definition settings :: "jwks_source \<Rightarrow> string \<times> redirect_check option option \<times> jwks_Decoder \<times> bool" where
  "settings s = (jsrc_url s, map_option client_CheckRedirect (jsrc_client s), jsrc_decoder s, jsrc_allowHTTP s)"

lemma settings_load:
  assumes "settings s = settings s'" "pl_id s = pl_id s'"
  shows "jsource_load env ue net ctx s = jsource_load env ue net ctx s'"
proof -
  have "Option.bind (jsrc_client s) client_CheckRedirect = Option.bind (jsrc_client s') client_CheckRedirect"
    using assms(1) by (cases "jsrc_client s"; cases "jsrc_client s'") (auto simp: settings_def)
  then have "checkRedirect s = checkRedirect s'"
    using assms(1) by (simp add: checkRedirect_def fun_eq_iff settings_def)
  moreover have "jsource_read env ue ctx s = jsource_read env ue ctx s'"
  proof
    fix response
    have label: "label_key s = label_key s'" using assms(2) by (simp add: label_key_def fun_eq_iff)
    have same: "jsrc_url s = jsrc_url s'" "jsrc_decoder s = jsrc_decoder s'"
      using assms(1) by (simp_all add: settings_def)
    show "jsource_read env ue ctx s response = jsource_read env ue ctx s' response"
      unfolding jsource_read_def label same ..
  qed
  ultimately show ?thesis
    using assms(1)
    by (cases "jsrc_client s"; cases "jsrc_client s'"; cases "url_Parse ue (jsrc_url s')")
      (simp_all add: jsource_load_def settings_def)
qed

text \<open>A body that fits, and has no error in it, is read as it is.\<close>

lemma read_limited_fits:
  "(\<exists>encoded. read_limited (n + 1) body = Inr encoded \<and> \<not> n < length encoded \<and> P encoded)
     \<longleftrightarrow> (snd body = None \<and> length (fst body) \<le> n \<and> P (fst body))"
  by (auto simp: read_limited_def split: option.split)

lemma jsource_read_Ok:
  "jsource_read env ue ctx s response = Ok (keys, snapshot) \<longleftrightarrow>
     (\<exists>encoded artifact. 200 \<le> resp_StatusCode response \<and> resp_StatusCode response < 300
        \<and> resp_Body response = (encoded, None) \<and> length encoded \<le> maximumJWKSSize
        \<and> jwks_Decode env (Some (jsrc_decoder s)) ctx (Some encoded) [] = Ok artifact
        \<and> keys = map (label_key s) (case jwks_Keys artifact of None \<Rightarrow> [] | Some keys \<Rightarrow> keys)
        \<and> snapshot = hex_EncodeToString (ue_sha256 ue encoded))"
proof -
  let ?Q = "\<lambda>encoded. \<exists>artifact. jwks_Decode env (Some (jsrc_decoder s)) ctx (Some encoded) [] = Ok artifact
        \<and> keys = map (label_key s) (case jwks_Keys artifact of None \<Rightarrow> [] | Some keys \<Rightarrow> keys)
        \<and> snapshot = hex_EncodeToString (ue_sha256 ue encoded)"
  have "jsource_read env ue ctx s response = Ok (keys, snapshot) \<longleftrightarrow>
      200 \<le> resp_StatusCode response \<and> resp_StatusCode response < 300
      \<and> (\<exists>encoded. read_limited (maximumJWKSSize + 1) (resp_Body response) = Inr encoded
           \<and> \<not> maximumJWKSSize < length encoded \<and> ?Q encoded)"
    by (auto simp: jsource_read_def split: sum.splits if_splits)
  then show ?thesis unfolding read_limited_fits
    by (cases "resp_Body response") auto
qed

lemma jsource_load_Ok:
  "jsource_load env ue net ctx s = Some (Ok (keys, snapshot)) \<longleftrightarrow>
     (\<exists>u response. url_Parse ue (jsrc_url s) = Inr u \<and> jsrc_client s \<noteq> None
        \<and> client_Do ue net (checkRedirect s) []
            \<lparr>req_URL = u, req_Accept = ''application/jwk-set+json, application/json''\<rparr> = Some (Inr response)
        \<and> jsource_read env ue ctx s response = Ok (keys, snapshot))"
proof -
  have ex: "(\<exists>z. r = Some z \<and> (case z of Inl err \<Rightarrow> Err (f err) | Inr response \<Rightarrow> g response) = Ok v)
      \<longleftrightarrow> (\<exists>response. r = Some (Inr response) \<and> g response = Ok v)"
    for r f and g :: "http_response \<Rightarrow> (KeyCandidate list \<times> string) res" and v
    by (auto split: sum.splits) (metis sum.exhaust)
  show ?thesis
    by (cases "url_Parse ue (jsrc_url s)"; cases "jsrc_client s") (simp_all add: jsource_load_def ex)
qed

text \<open>Without the option for it, an exchange that starts with HTTPS uses nothing else.\<close>

lemma jsource_load_https:
  assumes "\<not> jsrc_allowHTTP s" "\<And>u. url_Parse ue (jsrc_url s) = Inr u \<Longrightarrow> url_Scheme u = ''https''"
    and "\<And>via req. url_Scheme (req_URL req) = ''https'' \<Longrightarrow> net via req = other via req"
  shows "jsource_load env ue net ctx s = jsource_load env ue other ctx s"
proof -
  have "client_Do ue net (checkRedirect s) [] \<lparr>req_URL = u, req_Accept = accept\<rparr>
      = client_Do ue other (checkRedirect s) [] \<lparr>req_URL = u, req_Accept = accept\<rparr>"
    if "url_Parse ue (jsrc_url s) = Inr u" for u accept
    using assms(2) [OF that] checkRedirect_None(1) assms(1)
    by (intro client_Do_cong) (auto intro!: assms(3))
  then show ?thesis by (simp add: jsource_load_def split: sum.split option.split)
qed

text \<open>With the client's own policy for redirects, an exchange has at most ten requests.\<close>

lemma jsource_load_ends:
  assumes "\<And>client. jsrc_client s = Some client \<Longrightarrow> client_CheckRedirect client = None"
  shows "jsource_load env ue net ctx s \<noteq> None"
    and "(\<And>via req. length via < 10 \<Longrightarrow> net via req = other via req) \<Longrightarrow>
      jsource_load env ue net ctx s = jsource_load env ue other ctx s"
proof -
  have none: "Option.bind (jsrc_client s) client_CheckRedirect = None"
    using assms by (cases "jsrc_client s") auto
  have "client_Do ue net (checkRedirect s) via req \<noteq> None" for via req
    by (rule client_Do_ends [where n = 10]) (rule checkRedirect_None(2) [OF _ none])
  then show "jsource_load env ue net ctx s \<noteq> None"
    by (simp add: jsource_load_def split: sum.split option.split)
  assume agree: "\<And>via req. length via < 10 \<Longrightarrow> net via req = other via req"
  have "client_Do ue net (checkRedirect s) [] req = client_Do ue other (checkRedirect s) [] req" for req
    by (rule client_Do_cong) (auto intro!: agree dest: checkRedirect_None(2) [OF _ none])
  then show "jsource_load env ue net ctx s = jsource_load env ue other ctx s"
    by (simp add: jsource_load_def split: sum.split option.split)
qed

text \<open>Other code cannot write an option that changes the fields of a source, which are not exported.\<close>

definition jsource_package_option :: "jsource_Option option \<Rightarrow> bool" where
  "jsource_package_option opt \<longleftrightarrow>
     opt = None \<or> opt = Some WithInsecureHTTP \<or> (\<exists>client. opt = Some (WithHTTPClient client))"

lemma apply_jsource_options_Ok:
  assumes "apply_jsource_options options s = Ok s'" "\<forall>opt\<in>set options. jsource_package_option opt"
  shows "poll_view s' = poll_view s \<and> jsrc_url s' = jsrc_url s \<and> jsrc_decoder s' = jsrc_decoder s
    \<and> (jsrc_allowHTTP s' \<longrightarrow> jsrc_allowHTTP s \<or> Some WithInsecureHTTP \<in> set options)
    \<and> (jsrc_client s \<noteq> None \<longrightarrow> jsrc_client s' \<noteq> None)
    \<and> (jsrc_client s' = jsrc_client s \<or> (\<exists>client. Some (WithHTTPClient client) \<in> set options))"
  using assms
proof (induction options arbitrary: s)
  case (Cons opt options)
  have "jsource_package_option opt" using Cons.prems(2) by simp
  then consider "opt = None" | "opt = Some WithInsecureHTTP" | client where "opt = Some (WithHTTPClient client)"
    unfolding jsource_package_option_def by blast
  then show ?case
  proof cases
    case 1
    then show ?thesis using Cons by auto
  next
    case 2
    then have "apply_jsource_options options (s\<lparr>jsrc_allowHTTP := True\<rparr>) = Ok s'"
      using Cons.prems by (simp add: WithInsecureHTTP_def)
    from Cons.IH [OF this] Cons.prems(2) show ?thesis
      unfolding 2 list.set by (simp add: poll_view_eq) blast
  next
    case 3
    then obtain c where "apply_jsource_options options (s\<lparr>jsrc_client := Some c, jsrc_ownsClient := False\<rparr>) = Ok s'"
      using Cons.prems(1) by (cases client) (simp_all add: WithHTTPClient_def)
    from Cons.IH [OF this] Cons.prems(2) show ?thesis
      unfolding 3 list.set by (simp add: poll_view_eq) blast
  qed
qed simp

lemma jsource_New_Ok:
  assumes "jsource_New env ue sid rawURL frequency options = Ok s" "\<forall>opt\<in>set options. jsource_package_option opt"
  shows "pl_id s = sid \<and> \<not> pl_started s \<and> \<not> pl_closed s \<and> \<not> pl_cancelled s \<and> pl_snapshot s = []
    \<and> jsrc_decoder s = \<lparr>dec_runtimeOptions = []\<rparr> \<and> jsrc_client s \<noteq> None"
    and "\<exists>u. url_Parse ue rawURL = Inr u \<and> jsrc_url s = url_String u
      \<and> (Some WithInsecureHTTP \<notin> set options \<longrightarrow> url_Scheme u = ''https'' \<and> \<not> jsrc_allowHTTP s)"
    and "(\<forall>client. Some (WithHTTPClient client) \<notin> set options) \<Longrightarrow> map_option client_CheckRedirect (jsrc_client s) = Some None"
proof -
  let ?s0 = "\<lambda>u. \<lparr>pl_id = sid, pl_cancelled = False, pl_callback = None, pl_started = False, pl_closed = False,
                    pl_snapshot = [], pl_watches = 0, jsrc_url = url_String u, jsrc_frequency = frequency,
                    jsrc_client = Some \<lparr>client_CheckRedirect = None, client_Timeout = defaultHTTPTimeout,
                                        client_idleClosed = False\<rparr>,
                    jsrc_ownsClient = True, jsrc_decoder = \<lparr>dec_runtimeOptions = []\<rparr>, jsrc_allowHTTP = False\<rparr>"
  obtain u where u: "url_Parse ue rawURL = Inr u" "url_Scheme u \<noteq> ''http'' \<longrightarrow> url_Scheme u = ''https''"
      "apply_jsource_options options (?s0 u) = Ok s" "url_Scheme u = ''http'' \<longrightarrow> jsrc_allowHTTP s"
    using assms(1) by (auto simp: jsource_New_def NewDecoder_def split: if_splits sum.splits)
  note frame = apply_jsource_options_Ok [OF u(3) assms(2)]
  show "pl_id s = sid \<and> \<not> pl_started s \<and> \<not> pl_closed s \<and> \<not> pl_cancelled s \<and> pl_snapshot s = []
    \<and> jsrc_decoder s = \<lparr>dec_runtimeOptions = []\<rparr> \<and> jsrc_client s \<noteq> None"
    using frame by (simp add: poll_view_eq)
  show "\<exists>u. url_Parse ue rawURL = Inr u \<and> jsrc_url s = url_String u
      \<and> (Some WithInsecureHTTP \<notin> set options \<longrightarrow> url_Scheme u = ''https'' \<and> \<not> jsrc_allowHTTP s)"
    using frame u by (intro exI [of _ u]) auto
  show "map_option client_CheckRedirect (jsrc_client s) = Some None"
    if "\<forall>client. Some (WithHTTPClient client) \<notin> set options"
    using frame that by auto
qed

section \<open>The contracts of the source\<close>

lemma jsource_startLocked_frame [simp]:
  "pl_id (jsource_startLocked s) = pl_id s" "pl_closed (jsource_startLocked s) = pl_closed s"
  "pl_cancelled (jsource_startLocked s) = pl_cancelled s" "pl_callback (jsource_startLocked s) = pl_callback s"
  "pl_snapshot (jsource_startLocked s) = pl_snapshot s" "settings (jsource_startLocked s) = settings s"
  "jsrc_url (jsource_startLocked s) = jsrc_url s" "jsrc_client (jsource_startLocked s) = jsrc_client s"
  "jsrc_decoder (jsource_startLocked s) = jsrc_decoder s" "jsrc_allowHTTP (jsource_startLocked s) = jsrc_allowHTTP s"
  by (simp_all add: jsource_startLocked_def settings_def)

text \<open>Decoders that leave the source of a candidate to their caller, as the three of this repository do.\<close>

definition unlabelled_decoders :: "codecs \<Rightarrow> bool" where
  "unlabelled_decoders c \<longleftrightarrow>
     (\<forall>d\<in>set (joseDecoders c). \<forall>ctx encoded options candidate.
        jdec_Decode d ctx encoded options = Ok candidate \<longrightarrow> cand_Source candidate = [])"

lemma builtin_decoder_unlabelled:
  "sym_Decode ctx encoded options = Ok candidate \<Longrightarrow> cand_Source candidate = []"
  "ec_Decode jp ctx encoded options = Ok candidate \<Longrightarrow> cand_Source candidate = []"
  "rsa_Decode jp ctx encoded options = Ok candidate \<Longrightarrow> cand_Source candidate = []"
  by (auto simp: sym_Decode_def ec_Decode_def rsa_Decode_def zero_KeyCandidate_def
      split: prod.splits option.splits if_splits sum.splits)

lemma builtin_unlabelled:
  assumes "codec_registry jp c"
  shows "unlabelled_decoders c"
proof -
  have "set (joseDecoders c) = {sym_JOSEDecoder, ec_JOSEDecoder jp, rsa_JOSEDecoder jp}"
    using assms by (simp add: codec_registry_def builtin_codecs_def)
  then show ?thesis
    unfolding unlabelled_decoders_def
    by (simp add: sym_JOSEDecoder_def ec_JOSEDecoder_def rsa_JOSEDecoder_def builtin_decoder_unlabelled)
qed

lemma decode_keys_unlabelled:
  assumes "decode_keys env ctx options i es keys = Ok keys'" "unlabelled_decoders (je_codecs env)"
    and "\<forall>c\<in>set keys. cand_Source c = []"
  shows "\<forall>c\<in>set keys'. cand_Source c = []"
  using assms(1,3)
proof (induction es arbitrary: i keys)
  case (Cons e es)
  obtain kty err where kty: "json_Unmarshal key_type_fields e [] = (kty, err)" by fastforce
  have "ctx (2 * i) = None" using Cons.prems(1) by (cases "ctx (2 * i)") simp_all
  moreover have "err = None" using Cons.prems(1) kty calculation by (cases err) simp_all
  moreover have "kty \<noteq> []" using Cons.prems(1) kty calculation by (cases "kty = []") simp_all
  ultimately obtain d c where d: "JOSEDecoderFor (je_codecs env) kty = Ok d"
      "jdec_Decode d (later (2 * i + 1) ctx) e options = Ok c"
      "decode_keys env ctx options (Suc i) es (keys @ [c]) = Ok keys'"
    using Cons.prems(1) by (simp add: kty) blast
  have "d \<in> set (joseDecoders (je_codecs env))" using jose_decoders.lookup_sound [OF d(1)] by auto
  then have "cand_Source c = []" using d(2) assms(2) by (auto simp: unlabelled_decoders_def)
  then have "\<forall>c'\<in>set (keys @ [c]). cand_Source c' = []" using Cons.prems(2) by auto
  then show ?case by (rule Cons.IH [OF d(3)])
qed simp

lemma label_key_source [simp]:
  "cand_Source (label_key s c) = (if cand_Source c = [] then pl_id s else cand_Source c)"
  by (simp add: label_key_def Let_def)

lemma jsource_load_sources:
  assumes "jsource_load env ue net ctx s = Some (Ok (keys, snapshot))" "c \<in> set keys"
    and "unlabelled_decoders (je_codecs env)" "jsrc_decoder s = \<lparr>dec_runtimeOptions = []\<rparr>"
  shows "cand_Source c = pl_id s"
proof -
  obtain encoded artifact where a: "jwks_Decode env (Some \<lparr>dec_runtimeOptions = []\<rparr>) ctx (Some encoded) [] = Ok artifact"
      "keys = map (label_key s) (case jwks_Keys artifact of None \<Rightarrow> [] | Some keys \<Rightarrow> keys)"
    using assms(1,4) by (auto simp: jsource_load_Ok jsource_read_Ok)
  then have "jwks_decode env (later 1 ctx) encoded [] = Ok artifact"
    by (auto simp: jwks_Decode_def split: option.splits)
  then obtain es ks where "jwks_Keys artifact = Some ks" "decode_keys env (later 1 ctx) [] 0 es [] = Ok ks"
    by (auto simp: jwks_decode_def split: prod.splits option.splits)
  moreover from decode_keys_unlabelled [OF this(2) assms(3)] have "\<forall>c\<in>set ks. cand_Source c = []" by simp
  ultimately show ?thesis using a(2) assms(2) by auto
qed

text \<open>What one call of \<^verbatim>\<open>Load\<close> is given; an exchange without end gives the keystore no keys.\<close>

record jsource_input =
  jin_env :: jwks_env
  jin_urls :: url_env
  jin_network :: network
  jin_context :: "ctxt option"

definition jsource_load_with :: "jsource_input \<Rightarrow> jwks_source \<Rightarrow> jwks_source \<times> KeyCandidate list res" where
  "jsource_load_with x s =
     (case jsource_Load (jin_env x) (jin_urls x) (jin_network x) (jin_context x) s of
        Some r \<Rightarrow> r
      | None \<Rightarrow> (s, Panic ''the exchange does not end''))"

definition plain_decoder :: "jwks_source \<Rightarrow> bool" where
  "plain_decoder s \<longleftrightarrow> jsrc_decoder s = \<lparr>dec_runtimeOptions = []\<rparr>"

lemma settings_update [simp]:
  "settings (s\<lparr>pl_snapshot := snapshot\<rparr>) = settings s" "settings (s\<lparr>pl_callback := callback\<rparr>) = settings s"
  by (simp_all add: settings_def)

lemma commit_frame:
  "jsource_commit keys snapshot s = (s', r) \<Longrightarrow>
     pl_id s' = pl_id s \<and> settings s' = settings s \<and> (\<forall>keys'. r = Ok keys' \<longrightarrow> keys' = keys)"
  by (cases "pl_closed s") (auto simp: jsource_commit_def)

lemma jsource_Load_result:
  "jsource_Load env ue net context s = Some (s', r) \<Longrightarrow>
     pl_id s' = pl_id s \<and> settings s' = settings s
     \<and> (\<forall>keys. r = Ok keys \<longrightarrow> (\<exists>ctx snapshot. jsource_load env ue net ctx s = Some (Ok (keys, snapshot))))
     \<and> (pl_closed s \<longrightarrow> s' = s \<and> (\<exists>e. r = Err e))"
proof -
  assume load: "jsource_Load env ue net context s = Some (s', r)"
  show ?thesis
  proof (cases "context")
    case (Some ctx)
    show ?thesis
    proof (cases "pl_closed s")
      case False
      then obtain result where result: "jsource_load env ue net ctx s = Some result"
        using load Some by (auto simp: jsource_Load_def)
      show ?thesis
      proof (cases result)
        case (Ok ks)
        then have "jsource_commit (fst ks) (snd ks) s = (s', r)"
          using load Some False result by (cases ks) (simp add: jsource_Load_def)
        from commit_frame [OF this] False result Ok show ?thesis by (metis prod.collapse)
      qed (use load Some False result in \<open>auto simp: jsource_Load_def\<close>)
    qed (use load Some in \<open>auto simp: jsource_Load_def\<close>)
  qed (use load in \<open>auto simp: jsource_Load_def\<close>)
qed

lemma jsource_Close_settings [simp]: "settings (fst (jsource_Close s)) = settings s"
  by (cases "jsrc_client s") (simp_all add: jsource_Close_def settings_def Let_def)

interpretation jsrc: candidate_source pl_id jsource_load_with jsource_Close pl_closed plain_decoder
  "\<lambda>x. unlabelled_decoders (je_codecs (jin_env x))"
proof
  fix s :: jwks_source and x :: jsource_input and cs c
  obtain s' r where load: "jsource_load_with x s = (s', r)" by fastforce
  have res: "pl_id s' = pl_id s \<and> settings s' = settings s
     \<and> (\<forall>keys. r = Ok keys \<longrightarrow> (\<exists>ctx snapshot.
          jsource_load (jin_env x) (jin_urls x) (jin_network x) ctx s = Some (Ok (keys, snapshot))))
     \<and> (pl_closed s \<longrightarrow> s' = s \<and> (\<exists>e. r = Err e))"
  proof (cases "jsource_Load (jin_env x) (jin_urls x) (jin_network x) (jin_context x) s")
    case None
    then show ?thesis using load by (auto simp: jsource_load_with_def jsource_Load_def split: option.splits if_splits)
  next
    case (Some sr)
    then show ?thesis using load jsource_Load_result by (simp add: jsource_load_with_def)
  qed
  show "pl_id (fst (jsource_load_with x s)) = pl_id s" using res load by simp
  show "plain_decoder (fst (jsource_load_with x s))" if "plain_decoder s"
    using res load that by (simp add: plain_decoder_def settings_def)
  show "cand_Source c = pl_id s" if "plain_decoder s" "unlabelled_decoders (je_codecs (jin_env x))"
      "snd (jsource_load_with x s) = Ok cs" "c \<in> set cs"
    using res load that jsource_load_sources by (auto simp: plain_decoder_def)
  show "fst (jsource_load_with x s) = s \<and> (\<exists>e. snd (jsource_load_with x s) = Err e)" if "pl_closed s"
    using res load that by simp
qed (auto simp: jsource_Close_def plain_decoder_def Let_def)

text \<open>
  As a polled source, a read of it sees the network and the checks of its context. An exchange without end
  is a read that never brings anything, like a failed one.
\<close>

definition jsource_ops :: "jwks_env \<Rightarrow> url_env \<Rightarrow> (jwks_source, network \<times> ctxt) poll_ops" where
  "jsource_ops env ue = \<lparr>
     op_commit = jsource_commit, op_shut = (\<lambda>s. fst (jsource_Close s)), op_callback = jsource_SetRefreshCallback,
     op_compare = jsource_compare, op_accept = jsource_accept,
     op_fetch = (\<lambda>lifetime s (net, ctx).
       case jsource_load env ue net (if lifetime \<and> pl_cancelled s then (\<lambda>_. Some ContextCanceled) else ctx) s of
         Some r \<Rightarrow> read_result r
       | None \<Rightarrow> Inl (External 0))\<rparr>"

text \<open>A step of the source: a critical section of one of its operations, or a move of its watcher.\<close>

definition jsource_step :: "jwks_env \<Rightarrow> url_env \<Rightarrow> jwks_source poll_system \<Rightarrow> jwks_source poll_system \<Rightarrow> bool" where
  "jsource_step env ue = poll_step (jsource_ops env ue) poll_view"

lemma cancelled_read:
  assumes "ctx 0 = Some e"
  shows "\<nexists>keys snapshot. jsource_load env ue net ctx s = Some (Ok (keys, snapshot))"
  using assms by (auto simp: jsource_load_Ok jsource_read_Ok jwks_Decode_def)

lemma jsource_fetch:
  "op_fetch (jsource_ops env ue) lifetime s (net, ctx) = Inr (keys, snapshot) \<longleftrightarrow>
     jsource_load env ue net (if lifetime \<and> pl_cancelled s then (\<lambda>_. Some ContextCanceled) else ctx) s
       = Some (Ok (keys, snapshot))"
  by (auto simp: jsource_ops_def read_result_def split: option.split res.split)

interpretation jpoll: polled_source "jsource_ops env ue" poll_view for env ue
proof
  fix keys keys' snapshot s s' e cb and ops
  show "keys' = keys \<and> \<not> pl_closed (poll_view s)
      \<and> (\<exists>b. poll_view s' = (poll_view s)\<lparr>pl_snapshot := snapshot, pl_started := b,
                 pl_watches := pl_watches (poll_view s) + (if b \<and> \<not> pl_started (poll_view s) then 1 else 0)\<rparr>
             \<and> (pl_started (poll_view s) \<longrightarrow> b))"
    if "op_commit (jsource_ops env ue) keys snapshot s = (s', Ok keys')"
    using that by (auto simp: jsource_ops_def jsource_commit_def poll_view_eq jsource_startLocked_def split: if_splits)
  show "s' = s" if "op_commit (jsource_ops env ue) keys snapshot s = (s', Err e)"
    using that by (auto simp: jsource_ops_def jsource_commit_def split: if_splits)
  show "\<exists>e. op_commit (jsource_ops env ue) keys snapshot s = (s, Err e)" if "pl_closed (poll_view s)"
    using that by (simp add: jsource_ops_def jsource_commit_def)
  show "\<exists>s'. op_commit (jsource_ops env ue) keys snapshot s = (s', Ok keys)" if "\<not> pl_closed (poll_view s)"
    using that by (simp add: jsource_ops_def jsource_commit_def)
  show "poll_view (op_shut (jsource_ops env ue) s) = (if pl_closed (poll_view s) then poll_view s
      else (poll_view s)\<lparr>pl_closed := True, pl_cancelled := True\<rparr>)"
    by (simp add: jsource_ops_def jsource_Close_def poll_view_eq Let_def)
  show "\<exists>b. poll_view (op_callback (jsource_ops env ue) cb s) = (poll_view s)\<lparr>pl_callback := cb, pl_started := b,
          pl_watches := pl_watches (poll_view s) + (if b \<and> \<not> pl_started (poll_view s) then 1 else 0)\<rparr>
      \<and> (pl_started (poll_view s) \<longrightarrow> b)
      \<and> (b \<and> \<not> pl_started (poll_view s) \<longrightarrow> pl_snapshot (poll_view s) \<noteq> [] \<and> \<not> pl_closed (poll_view s))"
    by (auto simp: jsource_ops_def jsource_SetRefreshCallback_def poll_view_eq jsource_startLocked_def)
  show "op_compare (jsource_ops env ue) snapshot s = (if snapshot = pl_snapshot (poll_view s) then None else pl_callback (poll_view s))"
    by (simp add: jsource_ops_def jsource_compare_def)
  show "poll_view (op_accept (jsource_ops env ue) snapshot s) = (poll_view s)\<lparr>pl_snapshot := snapshot\<rparr>"
    by (simp add: jsource_ops_def jsource_accept_def poll_view_eq)
  show "\<exists>e. op_fetch (jsource_ops env ue) True s w = Inl e" if "pl_cancelled (poll_view s)" for w
  proof (cases "op_fetch (jsource_ops env ue) True s w")
    case (Inr ks)
    obtain net ctx keys snapshot where "w = (net, ctx)" "ks = (keys, snapshot)" by fastforce
    with Inr that have "jsource_load env ue net (\<lambda>_. Some ContextCanceled) s = Some (Ok (keys, snapshot))"
      by (simp add: jsource_fetch)
    then show ?thesis using cancelled_read [of "\<lambda>_. Some ContextCanceled"] by blast
  qed simp
qed

text \<open>No step changes the settings.\<close>

lemma steps_settings:
  assumes "(jsource_step env ue)\<^sup>*\<^sup>* S0 S"
  shows "settings (py_source S) = settings (py_source S0) \<and> pl_id (py_source S) = pl_id (py_source S0)"
  using assms unfolding jsource_step_def
proof (induction rule: rtranclp_induct)
  case (step S1 S2)
  from step.hyps(2) have "settings (py_source S2) = settings (py_source S1) \<and> pl_id (py_source S2) = pl_id (py_source S1)"
  proof (induction rule: poll_step.induct)
    case (load_commit keys snapshot S s' keys')
    then show ?case using commit_frame [of keys snapshot "py_source S"] by (simp add: jsource_ops_def)
  next
    case (load_refused keys snapshot S s' e)
    then show ?case by (auto simp: jsource_ops_def jsource_commit_def split: if_splits)
  next
    case (poll_callback callback S s')
    then show ?case by (auto simp: jsource_ops_def jsource_SetRefreshCallback_def)
  next
    case (poll_close S)
    then show ?case by (simp add: jsource_ops_def jsrc.shut_name)
  next
    case (watch_record S xs snapshot ys)
    then show ?case by (simp add: jsource_ops_def jsource_accept_def)
  qed simp_all
  then show ?case using step.IH by simp
qed simp

section \<open>A sample source\<close>

text \<open>A set with one RSA key, behind one redirect.\<close>

definition sample_source_env :: jwks_env where
  "sample_source_env =
     \<lparr>je_codecs = registered_codecs sample_rsa_jose, je_parse = jp_ParseCertificate sample_rsa_jose,
      je_category = \<lambda>_ err. err\<rparr>"

definition sample_document :: bytes where
  "sample_document =
     (let ms = [(''kty'', JString ''RSA''), (''kid'', JString ''r1''), (''n'', JString ''Dw''), (''e'', JString ''Aw'')]
      in bytes_of (json_text (JObject [(''keys'', JArray [(json_text (JObject ms), JObject ms)])])))"

definition sample_urls :: url_env where
  "sample_urls = \<lparr>
     url_Parse = (\<lambda>text. Inr \<lparr>url_Scheme = ''https'', url_Host = ''h'', url_String = text, url_Redacted = text\<rparr>),
     url_Resolve = (\<lambda>u text. Inr (u\<lparr>url_String := text, url_Redacted := text\<rparr>)),
     ue_sha256 = (\<lambda>bs. bs)\<rparr>"

definition sample_network :: network where
  "sample_network = (\<lambda>via req.
     if length via = 0
     then Inr \<lparr>resp_StatusCode = 302, resp_Status = ''302 Found'', resp_Location = ''https://h/k'', resp_Body = ([], None)\<rparr>
     else Inr \<lparr>resp_StatusCode = 200, resp_Status = ''200 OK'', resp_Location = [], resp_Body = (sample_document, None)\<rparr>)"

definition sample_jsource :: jwks_source where
  "sample_jsource = \<lparr>
     pl_id = ''j'', pl_cancelled = False, pl_callback = None, pl_started = False, pl_closed = False,
     pl_snapshot = [], pl_watches = 0, jsrc_url = ''https://h/'', jsrc_frequency = 60,
     jsrc_client = Some \<lparr>client_CheckRedirect = None, client_Timeout = defaultHTTPTimeout, client_idleClosed = False\<rparr>,
     jsrc_ownsClient = True, jsrc_decoder = \<lparr>dec_runtimeOptions = []\<rparr>, jsrc_allowHTTP = False\<rparr>"

lemma sample_jsource_New: "jsource_New sample_source_env sample_urls ''j'' ''https://h/'' 60 [] = Ok sample_jsource"
proof -
  have "TrimSpace ''j'' \<noteq> []" by code_simp
  then show ?thesis by (simp add: jsource_New_def sample_urls_def sample_jsource_def NewDecoder_def)
qed

text \<open>The set is what the encoder writes for the public part of a private key, whatever its backend.\<close>

lemma sample_document_backend:
  "jwks_encode sample_source_env background (Some \<lparr>jwks_Keys = Some [sample_rsa_jose_key\<lparr>key_backend := b\<rparr>]\<rparr>) []
     = Ok sample_document"
proof -
  let ?key = "sample_rsa_jose_key\<lparr>key_backend := b\<rparr>"
  let ?ms = "[(''kty'', JString ''RSA''), (''kid'', JString ''r1''), (''n'', JString ''Dw''), (''e'', JString ''Aw'')]"
  have b64: "b64_EncodeToString RawURLEncoding (big_Bytes 15) = ''Dw''" "b64_EncodeToString RawURLEncoding (big_Bytes 3) = ''Aw''"
    by code_simp+
  have e: "rsa_Encode sample_rsa_jose background ?key [] = Ok (json_Marshal ?ms)"
    by (simp add: rsa_Encode_def encode_option_def sample_rsa_jose_key_def key_New_def export_policy_def
        Key_Material_def sample_rsa_jose_def rsa_setPublicJWK_def rsa_setPrivateJWK_def sample_rsa_private_def
        rsaJWK_members_def b64 encodeBigInt_def header_members_def certificate_members_def zero_rsaJWK_def
        zero_KeyCandidate_def string_member_def nonempty_member_def nonempty_strings_def rsa_setJWKMetadata_def
        setJWKMetadata_def Key_Restrictions_def ExportPublicMaterial_def ExportPrivateMaterial_def)
  have "JOSEEncoderFor (registered_codecs sample_rsa_jose)
      (Key_Material (jp_ParseCertificate sample_rsa_jose) ?key) = Ok (rsa_JOSEEncoder sample_rsa_jose)"
    by (simp add: JOSEEncoderFor_def registered_lists builtin_codecs_def Key_Material_def sample_rsa_jose_key_def
        key_New_def sample_rsa_private_def sym_JOSEEncoder_def ec_JOSEEncoder_def rsa_JOSEEncoder_def Let_def)
  then have "encode_keys sample_source_env background [] 0 [?key] [] = Ok [json_Marshal ?ms]"
    using e by (simp add: sample_source_env_def) (simp add: rsa_JOSEEncoder_def)
  moreover have "plain_members ?ms" by (simp add: plain_members_def)
  ultimately show ?thesis
    using json_Unmarshal_raws(1) [of "[?ms]"]
    unfolding jwks_encode_Ok sample_document_def Let_def
    by (intro exI [of _ "[json_Marshal ?ms]"]) (simp del: json_text.simps)
qed

lemma sample_document_encoded:
  "jwks_encode sample_source_env background (Some \<lparr>jwks_Keys = Some [sample_rsa_jose_key]\<rparr>) [] = Ok sample_document"
  using sample_document_backend [of "key_backend sample_rsa_jose_key"] by simp

lemma sample_document_fits: "length sample_document \<le> maximumJWKSSize"
proof -
  have "length (json_text (JObject [(''keys'', JArray [(json_text (JObject [(''kty'', JString ''RSA''),
     (''kid'', JString ''r1''), (''n'', JString ''Dw''), (''e'', JString ''Aw'')]), JObject [(''kty'', JString ''RSA''),
     (''kid'', JString ''r1''), (''n'', JString ''Dw''), (''e'', JString ''Aw'')])])])) \<le> 1000"
    by code_simp
  then show ?thesis by (simp add: sample_document_def maximumJWKSSize_def bytes_of_def Let_def del: json_text.simps)
qed

text \<open>What is then read of it, and what a load gives.\<close>

definition sample_decoded :: KeyCandidate where
  "sample_decoded = exported_candidate sample_rsa_jose_key
     (PublicMaterial (Some (PubRSA (Some \<lparr>rsa_N = Some 15, rsa_E = 3\<rparr>))))"

lemma sample_regular:
  "regular_jose sample_rsa_jose [] sample_rsa_jose_key"
  "regular_jose sample_rsa_jose [] (sample_rsa_jose_key\<lparr>key_backend := b\<rparr>)"
  by (simp_all add: regular_jose_def coordinates_nonneg_def sample_rsa_jose_def sample_rsa_jose_key_def key_New_def
      valid_strings_def zero_KeyCandidate_def ASCII_valid sample_rsa_private_def regular_public_def regular_private_def
      positive_def int64_max_def export_policy_def ExportPublicMaterial_def ExportPrivateMaterial_def)

lemma sample_decode_document:
  "jwks_Decode sample_source_env (Some \<lparr>dec_runtimeOptions = []\<rparr>) background (Some sample_document) []
     = Ok \<lparr>jwks_Keys = Some [sample_decoded]\<rparr>"
proof -
  have "codec_registry sample_rsa_jose (je_codecs sample_source_env)"
    by (simp add: sample_source_env_def registered_builtin)
  from encoded_set_decodes [OF sample_document_encoded this this] sample_regular
  show ?thesis
    by (auto simp: sample_decoded_def sample_rsa_jose_key_def key_New_def exported_material_def sample_rsa_private_def
        export_policy_def ExportPublicMaterial_def ExportPrivateMaterial_def)
qed

definition sample_loaded :: KeyCandidate where
  "sample_loaded = sample_decoded\<lparr>cand_Source := ''j'', cand_Status := KeyStatusActive\<rparr>"

lemma sample_label: "label_key (sample_jsource\<lparr>pl_callback := cb\<rparr>) sample_decoded = sample_loaded"
  by (simp add: label_key_def sample_loaded_def sample_decoded_def exported_candidate_def zero_KeyCandidate_def
      sample_jsource_def)

lemma sample_jsource_load:
  "jsource_load sample_source_env sample_urls sample_network background (sample_jsource\<lparr>pl_callback := cb\<rparr>)
     = Some (Ok ([sample_loaded], hex_EncodeToString sample_document))"
proof -
  let ?s = "sample_jsource\<lparr>pl_callback := cb\<rparr>"
  let ?final = "\<lparr>resp_StatusCode = 200, resp_Status = ''200 OK'', resp_Location = [], resp_Body = (sample_document, None)\<rparr>"
  have exchange: "client_Do sample_urls sample_network (checkRedirect ?s) [] \<lparr>req_URL = u, req_Accept = accept\<rparr>
      = Some (Inr ?final)" if "url_Scheme u = ''https''" for u accept
    using that
    by (subst client_Do.simps, subst client_Do.simps)
      (simp add: sample_network_def redirect_status_def sample_urls_def checkRedirect_def sample_jsource_def)
  have "jsource_read sample_source_env sample_urls background ?s ?final
      = Ok ([sample_loaded], hex_EncodeToString sample_document)"
    using sample_document_fits sample_decode_document sample_label [of cb]
    by (auto simp: jsource_read_Ok sample_urls_def) (simp_all add: sample_jsource_def)
  then show ?thesis
    unfolding jsource_load_Ok using exchange by (auto simp: sample_urls_def) (simp_all add: sample_jsource_def)
qed

section \<open>Properties\<close>

text \<open>A read of a JWKS source succeeds if and only if its URL is valid, the exchange ends with a response whose
  status is between 200 and 299, the body arrives without an error and has at most 10485760 bytes, and
  the decoder accepts it. The keys are the decoded ones in their order; where they have no source or no
  status they get the identifier of the source and the status active. The snapshot is the digest of the
  body.\<close>

theorem jwks_source_load_exact:
  "jsource_load env ue net ctx s = Some (Ok (keys, snapshot)) \<longleftrightarrow>
     (\<exists>u response encoded artifact decoded.
        url_Parse ue (jsrc_url s) = Inr u \<and> jsrc_client s \<noteq> None
        \<and> client_Do ue net (checkRedirect s) []
            \<lparr>req_URL = u, req_Accept = ''application/jwk-set+json, application/json''\<rparr> = Some (Inr response)
        \<and> 200 \<le> resp_StatusCode response \<and> resp_StatusCode response < 300
        \<and> resp_Body response = (encoded, None) \<and> length encoded \<le> 10485760
        \<and> jwks_Decode env (Some (jsrc_decoder s)) ctx (Some encoded) [] = Ok artifact
        \<and> decoded = (case jwks_Keys artifact of None \<Rightarrow> [] | Some keys \<Rightarrow> keys)
        \<and> keys = map (\<lambda>c. c\<lparr>cand_Source := (if cand_Source c = [] then pl_id s else cand_Source c),
                               cand_Status := (if cand_Status c = [] then KeyStatusActive else cand_Status c)\<rparr>) decoded
        \<and> snapshot = hex_EncodeToString (ue_sha256 ue encoded))"
proof -
  have label: "label_key s = (\<lambda>c. c\<lparr>cand_Source := (if cand_Source c = [] then pl_id s else cand_Source c),
      cand_Status := (if cand_Status c = [] then KeyStatusActive else cand_Status c)\<rparr>)"
    by (auto simp: label_key_def Let_def fun_eq_iff)
  show ?thesis unfolding jsource_load_Ok jsource_read_Ok label maximumJWKSSize_def by blast
qed

theorem jwks_source_load_exact_witness:
  "\<exists>response encoded. client_Do sample_urls sample_network (checkRedirect sample_jsource) []
       \<lparr>req_URL = \<lparr>url_Scheme = ''https'', url_Host = ''h'', url_String = ''https://h/'', url_Redacted = ''https://h/''\<rparr>,
        req_Accept = ''application/jwk-set+json, application/json''\<rparr> = Some (Inr response)
     \<and> resp_Body response = (encoded, None) \<and> length encoded \<le> 10485760"
proof -
  have "jsource_load sample_source_env sample_urls sample_network background sample_jsource
      = Some (Ok ([sample_loaded], hex_EncodeToString sample_document))"
    using sample_jsource_load [of "pl_callback sample_jsource"] by simp
  then show ?thesis
    unfolding jwks_source_load_exact by (auto simp: sample_urls_def) (auto simp: sample_jsource_def)
qed

text \<open>C12: A source that was constructed without the option for insecure HTTP never uses anything but HTTPS, its
  whole life: whatever client it was given, and whatever loads, polls, redirects and other operations
  come to pass, what it reads does not depend on what the network would answer to a request that is not
  HTTPS. The text of a parsed URL has to parse to the same scheme.\<close>

theorem jwks_source_https_only:
  assumes "jsource_New env ue sid rawURL frequency options = Ok (py_source S0)"
    and "\<forall>opt\<in>set options. jsource_package_option opt" "Some WithInsecureHTTP \<notin> set options"
    and "\<And>u u'. url_Parse ue rawURL = Inr u \<Longrightarrow> url_Parse ue (url_String u) = Inr u' \<Longrightarrow> url_Scheme u' = url_Scheme u"
    and "(jsource_step env ue)\<^sup>*\<^sup>* S0 S"
    and "\<And>via req. url_Scheme (req_URL req) = ''https'' \<Longrightarrow> net via req = other via req"
  shows "jsource_load env ue net ctx (py_source S) = jsource_load env ue other ctx (py_source S)"
proof -
  obtain u where u: "url_Parse ue rawURL = Inr u" "jsrc_url (py_source S0) = url_String u"
      "url_Scheme u = ''https''" "\<not> jsrc_allowHTTP (py_source S0)"
    using jsource_New_Ok(2) [OF assms(1,2)] assms(3) by blast
  have "jsource_load env ue net ctx (py_source S0) = jsource_load env ue other ctx (py_source S0)"
    using u assms(4) [OF u(1)] assms(6) by (intro jsource_load_https) auto
  then show ?thesis
    using settings_load [of "py_source S" "py_source S0"] steps_settings [OF assms(5)] by simp
qed

text \<open>C36: Every read of a source with its own client ends, on every network, also one that redirects for ever, and
  what it gives depends only on the answers to the first ten requests. (A client of the caller with its
  own policy for redirects may be led on without end.)\<close>

theorem jwks_source_ends:
  assumes "jsource_New env ue sid rawURL frequency options = Ok (py_source S0)"
    and "\<forall>opt\<in>set options. opt = None \<or> opt = Some WithInsecureHTTP"
    and "(jsource_step env ue)\<^sup>*\<^sup>* S0 S"
  shows "(\<exists>r. jsource_load env ue net ctx (py_source S) = Some r)
     \<and> ((\<forall>via req. length via < 10 \<longrightarrow> net via req = other via req) \<longrightarrow>
          jsource_load env ue net ctx (py_source S) = jsource_load env ue other ctx (py_source S))"
proof -
  have "WithHTTPClient client \<noteq> WithInsecureHTTP" for client
  proof
    assume "WithHTTPClient client = WithInsecureHTTP"
    then have "WithHTTPClient client (sample_jsource\<lparr>jsrc_allowHTTP := False\<rparr>)
        = WithInsecureHTTP (sample_jsource\<lparr>jsrc_allowHTTP := False\<rparr>)" by simp
    then show False
      by (cases client) (auto simp: WithHTTPClient_def WithInsecureHTTP_def sample_jsource_def)
  qed
  then have no_client: "\<forall>client. Some (WithHTTPClient client) \<notin> set options" using assms(2) by blast
  have "\<forall>opt\<in>set options. jsource_package_option opt" using assms(2) by (auto simp: jsource_package_option_def)
  note new = jsource_New_Ok(3) [OF assms(1) this no_client]
  then have "client_CheckRedirect client = None" if "jsrc_client (py_source S) = Some client" for client
    using steps_settings [OF assms(3)] that by (auto simp: settings_def)
  note ends = jsource_load_ends [OF this]
  have "\<exists>r. jsource_load env ue net ctx (py_source S) = Some r" using ends(1) by blast
  then show ?thesis using ends(2) by blast
qed

text \<open>C37: However loads, the watcher, changes of the callback and closing interleave, a JWKS source has at most one
  watcher. As long as no \<^verbatim>\<open>Load\<close> ran beside a watcher, the recorded snapshot is that of the keys the store
  was given last, whenever the watcher is not just about to record another; a poll that finds another
  set hands its keys over if the callback accepts them, and a failed read or a refused callback changes
  nothing. Once the source has been closed, at most one more list of keys, read before, reaches the
  store.\<close>

theorem jwks_source_polling:
  assumes "poll_initial poll_view S0" "(jsource_step env ue)\<^sup>*\<^sup>* S0 S"
  shows "length (py_watchers S) \<le> 1
     \<and> (\<not> py_overlap S \<longrightarrow> (\<forall>d. py_watchers S \<noteq> [Recording d]) \<longrightarrow>
          (py_handed S = [] \<and> pl_snapshot (py_source S) = [])
          \<or> (\<exists>keys rest. py_handed S = (keys, pl_snapshot (py_source S)) # rest))
     \<and> (\<forall>net ctx keys d cb. py_watchers S = [Waiting] \<longrightarrow> \<not> pl_cancelled (py_source S) \<longrightarrow>
          pl_callback (py_source S) = Some cb \<longrightarrow>
          jsource_load env ue net ctx (py_source S) = Some (Ok (keys, d)) \<longrightarrow>
          (\<exists>S'. (jsource_step env ue)\<^sup>*\<^sup>* S S' \<and> pl_snapshot (py_source S') = d
             \<and> py_handed S' = (if d = pl_snapshot (py_source S) then py_handed S else (keys, d) # py_handed S)))
     \<and> (pl_closed (py_source S) \<longrightarrow> (\<forall>S'. (jsource_step env ue)\<^sup>*\<^sup>* S S' \<longrightarrow>
          length (py_handed S') \<le> length (py_handed S) + 1))"
proof -
  note polling = jpoll.polling [OF assms [unfolded jsource_step_def], unfolded poll_view_simps]
  have "op_fetch (jsource_ops env ue) True s (net, ctx) = Inr (keys, d)"
    if "\<not> pl_cancelled s" "jsource_load env ue net ctx s = Some (Ok (keys, d))" for s net ctx keys d
    using that by (simp add: jsource_fetch)
  then show ?thesis using polling unfolding jsource_step_def by blast
qed

text \<open>The steps of a first load, after a callback has been set.\<close>

definition sample_start :: "jwks_source poll_system" where
  "sample_start = \<lparr>py_source = sample_jsource, py_watchers = [], py_loads = [], py_handed = [], py_overlap = False\<rparr>"

definition sample_watched :: "jwks_source poll_system" where
  "sample_watched = \<lparr>py_source = sample_jsource\<lparr>pl_callback := Some ''f'', pl_started := True, pl_watches := 1,
      pl_snapshot := hex_EncodeToString sample_document\<rparr>, py_watchers = [Waiting], py_loads = [],
      py_handed = [([sample_loaded], hex_EncodeToString sample_document)], py_overlap = False\<rparr>"

lemma sample_document_nonempty: "sample_document \<noteq> []"
  by (simp add: sample_document_def bytes_of_def Let_def)

lemma sample_run:
  "(jsource_step sample_source_env sample_urls)\<^sup>*\<^sup>* sample_start sample_watched"
proof -
  let ?ops = "jsource_ops sample_source_env sample_urls" and ?d = "hex_EncodeToString sample_document"
  let ?S1 = "sample_start\<lparr>py_source := sample_jsource\<lparr>pl_callback := Some ''f''\<rparr>\<rparr>"
  let ?S2 = "?S1\<lparr>py_loads := [([sample_loaded], ?d)]\<rparr>"
  have s1: "poll_step ?ops poll_view sample_start ?S1"
    using poll_step.poll_callback [of ?ops "Some ''f''" sample_start _ poll_view]
    by (simp add: jsource_ops_def jsource_SetRefreshCallback_def jsource_startLocked_def sample_start_def sample_jsource_def
        poll_spawned_def)
  have "op_fetch ?ops False (py_source ?S1) (sample_network, background) = Inr ([sample_loaded], ?d)"
    unfolding jsource_fetch using sample_jsource_load by simp
  then have s2: "poll_step ?ops poll_view ?S1 ?S2"
    using poll_step.load_read [of poll_view ?S1 ?ops "(sample_network, background)" "[sample_loaded]" ?d]
    by (simp add: sample_start_def sample_jsource_def)
  have "op_commit ?ops [sample_loaded] ?d (py_source ?S2) = (py_source sample_watched, Ok [sample_loaded])"
    using sample_document_nonempty
    by (simp add: jsource_ops_def jsource_commit_def jsource_startLocked_def sample_watched_def sample_jsource_def)
  then have s3: "poll_step ?ops poll_view ?S2 sample_watched"
    using poll_step.load_commit [of "[sample_loaded]" ?d ?S2 ?ops "py_source sample_watched" "[sample_loaded]" poll_view]
    by (simp add: sample_start_def sample_watched_def poll_spawned_def sample_jsource_def)
  show ?thesis
    unfolding jsource_step_def using s1 s2 s3 by (meson converse_rtranclp_into_rtranclp rtranclp.rtrancl_refl)
qed

lemma sample_start_New:
  "jsource_New sample_source_env sample_urls ''j'' ''https://h/'' 60 [] = Ok (py_source sample_start)"
  by (simp add: sample_start_def sample_jsource_New)

theorem jwks_source_https_only_witness:
  "jsource_load sample_source_env sample_urls sample_network background (py_source sample_watched)
     = jsource_load sample_source_env sample_urls
         (\<lambda>via req. if url_Scheme (req_URL req) = ''https'' then sample_network via req else Inl (External 0))
         background (py_source sample_watched)"
  by (rule jwks_source_https_only [OF sample_start_New _ _ _ sample_run]) (auto simp: sample_urls_def)

theorem jwks_source_ends_witness:
  "\<exists>r. jsource_load sample_source_env sample_urls
      (\<lambda>via req. Inr \<lparr>resp_StatusCode = 302, resp_Status = ''302 Found'', resp_Location = ''https://h/'', resp_Body = ([], None)\<rparr>)
      background (py_source sample_watched) = Some r"
  using jwks_source_ends [OF sample_start_New _ sample_run, of
      "\<lambda>via req. Inr \<lparr>resp_StatusCode = 302, resp_Status = ''302 Found'', resp_Location = ''https://h/'', resp_Body = ([], None)\<rparr>"
      background]
  by simp

theorem jwks_source_polling_witness:
  "length (py_watchers sample_watched) \<le> 1 \<and> pl_snapshot (py_source sample_watched) \<noteq> []
     \<and> (\<exists>keys rest. py_handed sample_watched = (keys, pl_snapshot (py_source sample_watched)) # rest)"
proof -
  have "poll_initial poll_view sample_start" by (simp add: poll_initial_def sample_start_def sample_jsource_def)
  moreover have "\<not> py_overlap sample_watched" "\<forall>d. py_watchers sample_watched \<noteq> [Recording d]"
    "py_handed sample_watched \<noteq> []" "pl_snapshot (py_source sample_watched) \<noteq> []"
    using sample_document_nonempty by (simp_all add: sample_watched_def)
  ultimately show ?thesis using jwks_source_polling [OF _ sample_run] by blast
qed

end
