(* ===== verification/Jws.thy ===== *)
theory Jws
  imports Keystore_Operations Middleware Base64 Json "HOL-Library.List_Lexorder" "HOL-Library.Char_ord"
begin

text \<open>
  The package \<^verbatim>\<open>jws\<close>: a signer that makes tokens in the compact form of JSON Web Signatures with the keys
  of a keystore, and a verifier of messages and signatures. Both wrap their core function in runtime
  options. Of a keystore they use the methods \<^verbatim>\<open>Signer\<close> and \<^verbatim>\<open>Verify\<close>.
\<close>

section \<open>The keystore behind its interface\<close>

text \<open>
  \<^verbatim>\<open>keystore.Keystore\<close> as the package sees it. The function that \<^verbatim>\<open>Signer\<close> returns is called once, so what
  it gives on its first call is all of it that matters.
\<close>

record keystore_interface =
  ki_Signer :: "ctxt \<Rightarrow> KeystoreRuntimeOption option list \<Rightarrow> (KeyDescriptor \<times> (bytes \<Rightarrow> bytes res)) res"
  ki_Verify :: "ctxt \<Rightarrow> bytes \<Rightarrow> bytes \<Rightarrow> KeystoreRuntimeOption option list \<Rightarrow> unit res"

definition keystore_of :: "certificate_parser \<Rightarrow> store \<Rightarrow> time \<Rightarrow> entropy \<Rightarrow> keystore_interface" where
  "keystore_of parse m now rand =
     \<lparr>ki_Signer = (\<lambda>ctx options. bind_res (Signer parse (Some m) now ctx options)
        (\<lambda>(descriptor, sf). Ok (descriptor, \<lambda>message. snd (call_SignFunc sf rand False message)))),
      ki_Verify = Verify (Some m) now\<rparr>"

section \<open>The signer\<close>

record JWS =
  jws_Header :: bytes
  jws_Claims :: bytes
  jws_Signature :: bytes
  jws_Key :: KeyDescriptor
  jws_Encoded :: bytes

text \<open>
  A map of strings, as the list of its entries in any order; \<open>None\<close> is a nil map. \<^verbatim>\<open>json.Marshal\<close> writes the
  entries in the order of their keys.
\<close>

type_synonym string_map = "(string \<times> string) list option"

definition json_Marshal_map :: "string_map \<Rightarrow> bytes" where
  "json_Marshal_map m =
     (case m of
        None \<Rightarrow> bytes_of ''null''
      | Some entries \<Rightarrow> json_Marshal (map (\<lambda>(name, v). (name, JString v)) (sort_key fst entries)))"

type_synonym HeaderFunc = "KeyDescriptor \<Rightarrow> string_map"
type_synonym JwsSignFunc =
  "ctxt \<Rightarrow> bytes \<Rightarrow> HeaderFunc option \<Rightarrow> KeystoreRuntimeOption option list \<Rightarrow> JWS res"
type_synonym SignerOption = "JwsSignFunc middleware"

record JwsSigner =
  js_keystore :: "keystore_interface option"
  js_runtimeOptions :: "SignerOption list"

type_synonym SignerConfigOption = "JwsSigner config_option"

definition WithSignerRuntimeOptions :: "SignerOption list \<Rightarrow> SignerConfigOption" where
  "WithSignerRuntimeOptions options = Some (\<lambda>signer. Ok (signer\<lparr>js_runtimeOptions := [] @ options\<rparr>))"

text \<open>The outer \<open>None\<close> is a nil pointer, the inner one a pointer to a nil interface.\<close>

definition WithSignerKeystore :: "keystore_interface option option \<Rightarrow> SignerConfigOption" where
  "WithSignerKeystore keystore = Some (\<lambda>s.
     case keystore of
       None \<Rightarrow> Err (Errorf ''JWS: nil keystore'' [])
     | Some k \<Rightarrow> Ok (s\<lparr>js_keystore := k\<rparr>))"

definition NewSigner :: "categorize \<Rightarrow> SignerConfigOption list \<Rightarrow> JwsSigner res" where
  "NewSigner category options =
     bind_res
       (config_loop (\<lambda>_. category ErrMisconfigured (ErrorNew ''nil signer config option''))
         (\<lambda>_. category ErrMisconfigured) 0 options \<lparr>js_keystore = None, js_runtimeOptions = []\<rparr>)
       (\<lambda>signer.
         if js_keystore signer = None then Err (category ErrMisconfigured (ErrorNew ''nil signer keystore''))
         else Ok signer)"

definition mapHeader :: HeaderFunc where
  "mapHeader signKey = Some [(''kid'', desc_ID signKey), (''alg'', desc_Algorithm signKey)]"

definition signing_message :: "bytes \<Rightarrow> bytes \<Rightarrow> bytes" where
  "signing_message header claims =
     bytes_of (b64_EncodeToString RawURLEncoding header @ ''.'' @ b64_EncodeToString RawURLEncoding claims)"

definition jws_sign :: "categorize \<Rightarrow> JwsSigner \<Rightarrow> JwsSignFunc" where
  "jws_sign category j ctx claims headerFunc options =
     (case headerFunc of
        None \<Rightarrow> Err (category ErrMisconfigured (ErrorNew ''nil JWS header func''))
      | Some header_func \<Rightarrow>
     (case js_keystore j of
        None \<Rightarrow> Panic ''nil pointer dereference''
      | Some keystore \<Rightarrow>
          bind_res (ki_Signer keystore ctx options) (\<lambda>(signKey, sign).
            (let header = json_Marshal_map (header_func signKey);
                 message = signing_message header claims in
             bind_res (sign message) (\<lambda>signature.
               Ok \<lparr>jws_Header = header, jws_Claims = [] @ claims, jws_Signature = signature, jws_Key = signKey,
                   jws_Encoded = bytes_of (string_of message @ ''.'' @ b64_EncodeToString RawURLEncoding signature)\<rparr>)))))"

definition jws_Sign ::
    "categorize \<Rightarrow> JwsSigner option \<Rightarrow> ctxt \<Rightarrow> bytes \<Rightarrow> SignerOption list \<Rightarrow> JWS res" where
  "jws_Sign category j ctx claims options =
     (case ctx 0 of
        Some err \<Rightarrow> Err err
      | None \<Rightarrow>
     (case j of
        None \<Rightarrow> Panic ''nil pointer dereference''
      | Some signer \<Rightarrow>
          (case wrap_all
              (\<lambda>index. category ErrMisconfigured (Errorf ''nil signer option at index %d'' [IntArg (int index)]))
              (\<lambda>index. category ErrMisconfigured
                 (Errorf ''signer option at index %d returned nil SignFunc'' [IntArg (int index)]))
              (js_runtimeOptions signer @ options) (jws_sign category signer) of
             Inl err \<Rightarrow> Err err
           | Inr sign \<Rightarrow> sign (later 1 ctx) claims (Some mapHeader) [])))"

definition WithSignerAlg :: "KeyAlg \<Rightarrow> SignerOption" where
  "WithSignerAlg algorithm = Some (\<lambda>next_func. Some (\<lambda>ctx claims headerFunc options.
     next_func ctx claims headerFunc (options @ [Some (WithAlgorithms [algorithm])])))"

definition WithSignerKeys :: "Selector \<Rightarrow> SignerOption" where
  "WithSignerKeys selector = Some (\<lambda>next_func. Some (\<lambda>ctx claims headerFunc options.
     next_func ctx claims headerFunc (options @ [Some (WithKeys selector)])))"

section \<open>The verifier\<close>

text \<open>Of a context, \<open>None\<close> is a nil interface.\<close>

type_synonym VerifyFunc =
  "ctxt option \<Rightarrow> bytes \<Rightarrow> bytes \<Rightarrow> KeystoreRuntimeOption option list \<Rightarrow> unit res"
type_synonym VerifierOption = "VerifyFunc middleware"

record JwsVerifier =
  jv_keystore :: "keystore_interface option"
  jv_runtimeOptions :: "VerifierOption list"

type_synonym VerifierConfigOption = "JwsVerifier config_option"

definition WithVerifierRuntimeOptions :: "VerifierOption list \<Rightarrow> VerifierConfigOption" where
  "WithVerifierRuntimeOptions options = Some (\<lambda>verifier. Ok (verifier\<lparr>jv_runtimeOptions := [] @ options\<rparr>))"

definition WithVerifierKeystore :: "keystore_interface option option \<Rightarrow> VerifierConfigOption" where
  "WithVerifierKeystore store = Some (\<lambda>verifier.
     case store of
       Some (Some k) \<Rightarrow> Ok (verifier\<lparr>jv_keystore := Some k\<rparr>)
     | _ \<Rightarrow> Err (Errorf ''JWS: nil keystore'' []))"

definition NewVerifier :: "categorize \<Rightarrow> VerifierConfigOption list \<Rightarrow> JwsVerifier res" where
  "NewVerifier category options =
     bind_res
       (config_loop (\<lambda>_. category ErrMisconfigured (ErrorNew ''nil verifier config option''))
         (\<lambda>_. category ErrMisconfigured) 0 options \<lparr>jv_keystore = None, jv_runtimeOptions = []\<rparr>)
       (\<lambda>verifier.
         if jv_keystore verifier = None then Err (category ErrMisconfigured (ErrorNew ''nil verifier keystore''))
         else Ok verifier)"

text \<open>The checks at the beginning of both functions.\<close>

definition verifier_parts :: "categorize \<Rightarrow> JwsVerifier option \<Rightarrow> ctxt option \<Rightarrow> (JwsVerifier \<times> keystore_interface \<times> ctxt) res" where
  "verifier_parts category v ctx =
     (case v of
        None \<Rightarrow> Err (category ErrMisconfigured (ErrorNew ''nil verifier''))
      | Some verifier \<Rightarrow>
     (case ctx of
        None \<Rightarrow> Err (category ErrMisconfigured (ErrorNew ''nil verifier context''))
      | Some c \<Rightarrow>
     (case jv_keystore verifier of
        None \<Rightarrow> Err (category ErrMisconfigured (ErrorNew ''nil verifier keystore''))
      | Some keystore \<Rightarrow> Ok (verifier, keystore, c))))"

definition jws_verify :: "categorize \<Rightarrow> JwsVerifier option \<Rightarrow> VerifyFunc" where
  "jws_verify category v ctx message signature options =
     bind_res (verifier_parts category v ctx)
       (\<lambda>(verifier, keystore, c). ki_Verify keystore c message signature options)"

definition jws_Verify ::
    "categorize \<Rightarrow> JwsVerifier option \<Rightarrow> ctxt option \<Rightarrow> bytes \<Rightarrow> bytes \<Rightarrow> VerifierOption list \<Rightarrow> unit res" where
  "jws_Verify category v ctx message signature options =
     bind_res (verifier_parts category v ctx) (\<lambda>(verifier, keystore, c).
       (case c 0 of
          Some err \<Rightarrow> Err err
        | None \<Rightarrow>
            (case wrap_all
                (\<lambda>index. category ErrMisconfigured (Errorf ''nil verifier option at index %d'' [IntArg (int index)]))
                (\<lambda>index. category ErrMisconfigured
                   (Errorf ''verifier option at index %d returned nil VerifyFunc'' [IntArg (int index)]))
                (jv_runtimeOptions verifier @ options) (jws_verify category v) of
               Inl err \<Rightarrow> Err err
             | Inr verify \<Rightarrow> verify (Some (later 1 c)) message signature [])))"

definition WithVerifierAlg :: "KeyAlg \<Rightarrow> VerifierOption" where
  "WithVerifierAlg algorithm = Some (\<lambda>next_func. Some (\<lambda>ctx message signature options.
     next_func ctx message signature (options @ [Some (WithAlgorithms [algorithm])])))"

definition WithVerifierKeys :: "Selector \<Rightarrow> VerifierOption" where
  "WithVerifierKeys selector = Some (\<lambda>next_func. Some (\<lambda>ctx message signature options.
     next_func ctx message signature (options @ [Some (WithKeys selector)])))"

text \<open>The error of \<^verbatim>\<open>Unmarshal\<close> is dropped, so what it stored before the error counts.\<close>

definition token_header_fields :: "string json_field list" where
  "token_header_fields = [string_field ''kid'' (\<lambda>f r. f r)]"

definition WithVerifierTokenHeader :: "bytes \<Rightarrow> VerifierOption" where
  "WithVerifierTokenHeader header =
     WithVerifierKeys (Select [Some (WithID (fst (json_Unmarshal token_header_fields header [])))])"

section \<open>Facts\<close>

text \<open>Options that only hand an option of the keystore on, as all options of the package do.\<close>

definition forward_sign :: "KeystoreRuntimeOption \<Rightarrow> SignerOption" where
  "forward_sign opt = Some (\<lambda>next_func. Some (\<lambda>ctx claims headerFunc options.
     next_func ctx claims headerFunc (options @ [Some opt])))"

definition forward_verify :: "KeystoreRuntimeOption \<Rightarrow> VerifierOption" where
  "forward_verify opt = Some (\<lambda>next_func. Some (\<lambda>ctx message signature options.
     next_func ctx message signature (options @ [Some opt])))"

lemma forwarded:
  "WithSignerAlg algorithm = forward_sign (WithAlgorithms [algorithm])"
  "WithSignerKeys selector = forward_sign (WithKeys selector)"
  "WithVerifierAlg algorithm = forward_verify (WithAlgorithms [algorithm])"
  "WithVerifierKeys selector = forward_verify (WithKeys selector)"
  by (simp_all add: WithSignerAlg_def WithSignerKeys_def WithVerifierAlg_def WithVerifierKeys_def
      forward_sign_def forward_verify_def)

lemma wrap_forward_sign:
  "wrap_all is_nil returned_nil (map forward_sign os) f
     = Inr (\<lambda>ctx claims headerFunc options. f ctx claims headerFunc (options @ map Some os))"
proof (induction os)
  case (Cons opt os)
  then show ?case by (simp add: forward_sign_def wrap_all_Cons)
qed simp

lemma wrap_forward_verify:
  "wrap_all is_nil returned_nil (map forward_verify os) f
     = Inr (\<lambda>ctx message signature options. f ctx message signature (options @ map Some os))"
proof (induction os)
  case (Cons opt os)
  then show ?case by (simp add: forward_verify_def wrap_all_Cons)
qed simp

lemma sign_forwarded:
  "jws_Sign category (Some \<lparr>js_keystore = k, js_runtimeOptions = map forward_sign ds\<rparr>) ctx claims (map forward_sign os) =
     (case ctx 0 of Some err \<Rightarrow> Err err
      | None \<Rightarrow> jws_sign category \<lparr>js_keystore = k, js_runtimeOptions = map forward_sign ds\<rparr> (later 1 ctx) claims
          (Some mapHeader) (map Some (ds @ os)))"
  unfolding jws_Sign_def by (simp add: wrap_forward_sign flip: map_append split: option.split)

lemma verify_forwarded:
  "jws_Verify category (Some \<lparr>jv_keystore = Some k, jv_runtimeOptions = map forward_verify ds\<rparr>) (Some ctx)
       message signature (map forward_verify os) =
     (case ctx 0 of Some err \<Rightarrow> Err err
      | None \<Rightarrow> ki_Verify k (later 1 ctx) message signature (map Some (ds @ os)))"
  unfolding jws_Verify_def
  by (simp add: verifier_parts_def jws_verify_def wrap_forward_verify flip: map_append split: option.split)

text \<open>What a token that the signer has made looks like.\<close>

lemma sort_header: "sort_key fst [(''kid'', kid), (''alg'', alg)] = [(''alg'', alg), (''kid'', kid :: string)]"
  by (simp add: less_eq_char_def list_less_def list_le_def)

lemma jws_sign_Ok:
  assumes "jws_sign category \<lparr>js_keystore = Some k, js_runtimeOptions = ds\<rparr> ctx claims (Some mapHeader) options = Ok j"
  obtains sign where "ki_Signer k ctx options = Ok (jws_Key j, sign)"
    "sign (signing_message (jws_Header j) claims) = Ok (jws_Signature j)"
    "jws_Header j = json_Marshal_map (mapHeader (jws_Key j))" "jws_Claims j = claims"
    "jws_Encoded j = bytes_of (b64_EncodeToString RawURLEncoding (jws_Header j) @ ''.''
       @ b64_EncodeToString RawURLEncoding claims @ ''.'' @ b64_EncodeToString RawURLEncoding (jws_Signature j))"
  using assms by (auto simp: jws_sign_def Let_def signing_message_def simp del: bytes_of_append)

lemma marshalled_header:
  "json_Marshal_map (mapHeader d) = json_Marshal [(''alg'', JString (desc_Algorithm d)), (''kid'', JString (desc_ID d))]"
  by (simp add: json_Marshal_map_def mapHeader_def sort_header del: sort_key_simps)

lemma find_token_header:
  "find_field ''kid'' token_header_fields = Some (string_field ''kid'' (\<lambda>f r. f r))"
  "find_field ''alg'' token_header_fields = None"
  by (simp_all add: find_field_def token_header_fields_def string_field_def char_of_eq_iff take_bit_eq_mod)

lemma token_header_kid:
  "json_Unmarshal token_header_fields (json_Marshal_map (mapHeader d)) [] = (to_valid (desc_ID d), None)"
proof -
  have "plain_members [(''alg'', JString (desc_Algorithm d)), (''kid'', JString (desc_ID d))]"
    by (simp add: plain_members_def)
  then show ?thesis
    by (simp add: marshalled_header Unmarshal_Marshal clean_members_def to_valid_ASCII_string find_token_header
        string_field_def)
qed

text \<open>From signing to verification.\<close>

lemma jws_Sign_Signer:
  assumes "jws_Sign category (Some \<lparr>js_keystore = Some (keystore_of parse m now rand), js_runtimeOptions = []\<rparr>)
       ctx claims (map forward_sign os) = Ok j"
  obtains sf where "Signer parse (Some m) now (later 1 ctx) (map Some os) = Ok (jws_Key j, sf)"
    "call_SignFunc sf rand False (signing_message (jws_Header j) claims) = (True, Ok (jws_Signature j))"
    "jws_Header j = json_Marshal_map (mapHeader (jws_Key j))" "jws_Claims j = claims"
    "jws_Encoded j = bytes_of (b64_EncodeToString RawURLEncoding (jws_Header j) @ ''.''
       @ b64_EncodeToString RawURLEncoding claims @ ''.'' @ b64_EncodeToString RawURLEncoding (jws_Signature j))"
proof -
  let ?k = "keystore_of parse m now rand"
  have live: "jws_sign category \<lparr>js_keystore = Some ?k, js_runtimeOptions = []\<rparr> (later 1 ctx) claims (Some mapHeader)
      (map Some os) = Ok j"
    using assms sign_forwarded [of category "Some ?k" "[]" ctx claims os] by (simp split: option.splits)
  obtain sign where sign: "ki_Signer ?k (later 1 ctx) (map Some os) = Ok (jws_Key j, sign)"
    "sign (signing_message (jws_Header j) claims) = Ok (jws_Signature j)"
    "jws_Header j = json_Marshal_map (mapHeader (jws_Key j))" "jws_Claims j = claims"
    "jws_Encoded j = bytes_of (b64_EncodeToString RawURLEncoding (jws_Header j) @ ''.''
       @ b64_EncodeToString RawURLEncoding claims @ ''.'' @ b64_EncodeToString RawURLEncoding (jws_Signature j))"
    by (rule jws_sign_Ok [OF live])
  obtain sf where sf: "Signer parse (Some m) now (later 1 ctx) (map Some os) = Ok (jws_Key j, sf)"
      "call_SignFunc sf rand False (signing_message (jws_Header j) claims) = (True, Ok (jws_Signature j))"
    using sign(1,2) by (auto simp: keystore_of_def call_SignFunc_def)
  show thesis by (rule that [OF sf sign(3-5)])
qed

lemma token_accepted:
  assumes signing: "jws_Sign category (Some \<lparr>js_keystore = Some (keystore_of parse m now rand), js_runtimeOptions = []\<rparr>)
       ctx claims (map forward_sign os) = Ok j"
    and unique: "filter (\<lambda>k. key_id k = desc_ID (jws_Key j)) (ks_keys (repository m)) = [k]"
    and later: "filter (\<lambda>k. key_id k = desc_ID (jws_Key j)) (ks_keys (repository m')) = [k']"
    and pair: "\<And>b b'. key_backend k = Some b \<Longrightarrow> key_backend k' = Some b' \<Longrightarrow> signature_pair b' b"
    and able: "eligible zero_Selector now' KeyOpVerify (desc_Algorithm (jws_Key j)) k'"
    and opts: "None \<notin> set (runtimeOptions m')" and utf8: "valid_utf8 (desc_ID (jws_Key j))"
  shows "jws_Encoded j = bytes_of (b64_EncodeToString RawURLEncoding (jws_Header j) @ ''.''
         @ b64_EncodeToString RawURLEncoding claims @ ''.'' @ b64_EncodeToString RawURLEncoding (jws_Signature j))
     \<and> jws_Header j = json_Marshal [(''alg'', JString (desc_Algorithm (jws_Key j))), (''kid'', JString (desc_ID (jws_Key j)))]
     \<and> jws_Claims j = claims
     \<and> b64_DecodeString RawURLEncoding (b64_EncodeToString RawURLEncoding claims) = Inr claims
     \<and> jws_Verify category
         (Some \<lparr>jv_keystore = Some (keystore_of parse' m' now' rand'), jv_runtimeOptions = []\<rparr>) (Some background)
         (signing_message (jws_Header j) claims) (jws_Signature j)
         [WithVerifierTokenHeader (jws_Header j), WithVerifierAlg (desc_Algorithm (jws_Key j))] = Ok ()"
proof -
  let ?kid = "desc_ID (jws_Key j)" and ?alg = "desc_Algorithm (jws_Key j)"
  obtain sf where sf: "Signer parse (Some m) now (later 1 ctx) (map Some os) = Ok (jws_Key j, sf)"
      "call_SignFunc sf rand False (signing_message (jws_Header j) claims) = (True, Ok (jws_Signature j))"
    and sign: "jws_Header j = json_Marshal_map (mapHeader (jws_Key j))" "jws_Claims j = claims"
      "jws_Encoded j = bytes_of (b64_EncodeToString RawURLEncoding (jws_Header j) @ ''.''
         @ b64_EncodeToString RawURLEncoding claims @ ''.'' @ b64_EncodeToString RawURLEncoding (jws_Signature j))"
    by (rule jws_Sign_Signer [OF signing])
  have verified: "Verify (Some m') now' background (signing_message (jws_Header j) claims) (jws_Signature j)
      (by_id ?kid ?alg) = Ok ()"
    by (rule sign_then_verify [OF sf unique later pair able opts])
  have header: "WithVerifierTokenHeader (jws_Header j) = forward_verify (WithKeys (Select [Some (WithID ?kid)]))"
    using utf8 by (simp add: WithVerifierTokenHeader_def sign(1) token_header_kid valid_utf8_def forwarded)
  have "jws_Verify category
         (Some \<lparr>jv_keystore = Some (keystore_of parse' m' now' rand'), jv_runtimeOptions = []\<rparr>) (Some background)
         (signing_message (jws_Header j) claims) (jws_Signature j)
         (map forward_verify [WithKeys (Select [Some (WithID ?kid)]), WithAlgorithms [?alg]]) = Ok ()"
    using verify_forwarded [of category "keystore_of parse' m' now' rand'" "[]" background _ _
        "[WithKeys (Select [Some (WithID ?kid)]), WithAlgorithms [?alg]]"] verified
    by (simp add: by_id_def) (simp add: keystore_of_def)
  then show ?thesis
    using sign header b64_roundtrip [OF sound_encodings(1)] by (simp add: forwarded marshalled_header)
qed

section \<open>Properties\<close>

text \<open>C13: The options of the package only collect options of the keystore: a call with them is the call of the
  keystore with the runtime options first and the options of the call after them, each in their order.
  So for algorithms and for keys the last option counts, and an option of the call overrides one that
  was configured.\<close>

theorem jws_options_in_order:
  assumes "signer = \<lparr>js_keystore = Some k, js_runtimeOptions = map forward_sign ds\<rparr>" "ctx 0 = None"
  shows "jws_Sign category (Some signer) ctx claims (map forward_sign os)
       = jws_sign category signer (later 1 ctx) claims (Some mapHeader) (map Some (ds @ os))
     \<and> jws_Verify category (Some \<lparr>jv_keystore = Some k, jv_runtimeOptions = map forward_verify ds\<rparr>) (Some ctx)
         message signature (map forward_verify os)
       = ki_Verify k (later 1 ctx) message signature (map Some (ds @ os))
     \<and> (WithSignerAlg a, WithSignerKeys s) = (forward_sign (WithAlgorithms [a]), forward_sign (WithKeys s))
     \<and> (WithVerifierAlg a, WithVerifierKeys s) = (forward_verify (WithAlgorithms [a]), forward_verify (WithKeys s))"
  using assms sign_forwarded [of category "Some k" ds ctx claims os]
    verify_forwarded [of category k ds ctx message signature os]
  by (simp add: forwarded)

theorem jws_options_in_order_witness:
  "jws_Verify (\<lambda>_ err. err) (Some \<lparr>jv_keystore = Some (keystore_of sample_parser one_key_store 0 sample_entropy),
       jv_runtimeOptions = [WithVerifierAlg A256GCM]\<rparr>) (Some background) [1] [2] [WithVerifierAlg HS256]
     = Verify (Some one_key_store) 0 background [1] [2] [Some (WithAlgorithms [A256GCM]), Some (WithAlgorithms [HS256])]"
  using jws_options_in_order [OF refl, of background "\<lambda>_ err. err"
      "keystore_of sample_parser one_key_store 0 sample_entropy" "[WithAlgorithms [A256GCM]]" _ "[WithAlgorithms [HS256]]"]
  by (simp add: forwarded) (simp add: keystore_of_def)

text \<open>C7: A token that a signer over a store makes has the compact form: three parts in unpadded base64url
  with dots between them, of which the first decodes to the header with the algorithm and the identifier
  of the key, the second to the claims and the third to the signature. A verifier over any store in which
  the identifier names one key that may verify now, with a backend that accepts what the signer's signs,
  accepts the first two parts with the signature, when it takes the key from the token's header and the algorithm is given. The
  assumptions on the stores are those of signing and verifying through them; the identifier must be
  well-formed UTF-8, because it goes through JSON.\<close>

theorem jws_sign_verify:
  assumes signing: "jws_Sign category (Some \<lparr>js_keystore = Some (keystore_of parse m now rand), js_runtimeOptions = []\<rparr>)
       ctx claims (map forward_sign os) = Ok j"
    and unique: "filter (\<lambda>k. key_id k = desc_ID (jws_Key j)) (ks_keys (repository m)) = [k]"
    and later: "filter (\<lambda>k. key_id k = desc_ID (jws_Key j)) (ks_keys (repository m')) = [k']"
    and pair: "\<And>b b'. key_backend k = Some b \<Longrightarrow> key_backend k' = Some b' \<Longrightarrow> signature_pair b' b"
    and able: "eligible zero_Selector now' KeyOpVerify (desc_Algorithm (jws_Key j)) k'"
    and opts: "None \<notin> set (runtimeOptions m')" and utf8: "valid_utf8 (desc_ID (jws_Key j))"
  shows "jws_Encoded j = bytes_of (b64_EncodeToString RawURLEncoding (jws_Header j) @ ''.''
         @ b64_EncodeToString RawURLEncoding claims @ ''.'' @ b64_EncodeToString RawURLEncoding (jws_Signature j))
     \<and> jws_Header j = json_Marshal [(''alg'', JString (desc_Algorithm (jws_Key j))), (''kid'', JString (desc_ID (jws_Key j)))]
     \<and> jws_Claims j = claims
     \<and> b64_DecodeString RawURLEncoding (b64_EncodeToString RawURLEncoding claims) = Inr claims
     \<and> jws_Verify category
         (Some \<lparr>jv_keystore = Some (keystore_of parse' m' now' rand'), jv_runtimeOptions = []\<rparr>) (Some background)
         (signing_message (jws_Header j) claims) (jws_Signature j)
         [WithVerifierTokenHeader (jws_Header j), WithVerifierAlg (desc_Algorithm (jws_Key j))] = Ok ()"
  by (rule token_accepted [OF assms])

theorem jws_sign_verify_witness:
  "\<exists>j. jws_Sign (\<lambda>_ err. err) (Some \<lparr>js_keystore = Some (keystore_of sample_parser one_key_store 0 sample_entropy),
       js_runtimeOptions = []\<rparr>) background [1, 2] [WithSignerAlg HS256] = Ok j
     \<and> jws_Verify (\<lambda>_ err. err) (Some \<lparr>jv_keystore = Some (keystore_of sample_parser
         (sample_store [sample_key ''a'' KeyStatusPassive 1]) 9 sample_entropy), jv_runtimeOptions = []\<rparr>) (Some background)
         (signing_message (jws_Header j) [1, 2]) (jws_Signature j)
         [WithVerifierTokenHeader (jws_Header j), WithVerifierAlg HS256] = Ok ()"
proof -
  let ?k = "keystore_of sample_parser one_key_store 0 sample_entropy"
  let ?sf = "\<lparr>sf_id = ''a'', sf_algorithm = HS256, sf_ctx = background, sf_signer = sample_sign\<rparr>"
  obtain d where signer: "Signer sample_parser (Some one_key_store) 0 background
      [Some (WithAlgorithms [HS256])] = Ok (d, ?sf)"
    using one_key_signer by blast
  have signed: "\<exists>signature. call_SignFunc ?sf sample_entropy False message = (True, Ok signature)" for message
    by (simp add: call_SignFunc_def sample_sign_def sym_Sign_def sym_signatureOptions_def)
  have d: "desc_ID d = ''a''" "desc_Algorithm d = HS256"
    using Signer_OkE [OF signer] Descriptor_id by fastforce+
  obtain j where j: "jws_sign (\<lambda>_ err. err) \<lparr>js_keystore = Some ?k, js_runtimeOptions = []\<rparr> background [1, 2]
      (Some mapHeader) [Some (WithAlgorithms [HS256])] = Ok j" "jws_Key j = d"
    using signer signed [of "signing_message (json_Marshal_map (mapHeader d)) [1, 2]"]
    by (auto simp: jws_sign_def keystore_of_def Let_def)
  have sign: "jws_Sign (\<lambda>_ err. err) (Some \<lparr>js_keystore = Some ?k, js_runtimeOptions = []\<rparr>) background [1, 2]
      (map forward_sign [WithAlgorithms [HS256]]) = Ok j"
    using sign_forwarded [of "\<lambda>_ err. err" "Some ?k" "[]" background "[1, 2]" "[WithAlgorithms [HS256]]"] j by simp
  have pair: "signature_pair b' b" if "key_backend (sample_key ''a'' KeyStatusActive 1) = Some b"
      "key_backend (sample_key ''a'' KeyStatusPassive 1) = Some b'" for b b'
    using that by (auto intro: sym.own.signature_pair_axioms)
  let ?old = "sample_key ''a'' KeyStatusActive 1" and ?new = "sample_key ''a'' KeyStatusPassive 1"
  have able: "eligible zero_Selector 9 KeyOpVerify (desc_Algorithm (jws_Key j)) ?new"
    by (simp add: sample_eligible status_defs op_defs j(2) d)
  have stores: "filter (\<lambda>k. key_id k = desc_ID (jws_Key j)) (ks_keys (repository one_key_store)) = [?old]"
    "filter (\<lambda>k. key_id k = desc_ID (jws_Key j)) (ks_keys (repository (sample_store [?new]))) = [?new]"
    "None \<notin> set (runtimeOptions (sample_store [?new]))"
    "valid_utf8 (desc_ID (jws_Key j))"
    by (simp_all add: j(2) d one_key_store_def ASCII_valid)
  note jws_sign_verify [OF sign stores(1,2) pair able stores(3,4), of sample_parser sample_entropy]
  note verified = this [THEN conjunct2, THEN conjunct2, THEN conjunct2, THEN conjunct2, unfolded j(2) d(2)]
  have "[WithSignerAlg HS256] = map forward_sign [WithAlgorithms [HS256]]" by (simp add: forwarded)
  then show ?thesis using sign verified by auto
qed

end
