(* ===== verification/Publication.thy ===== *)
theory Publication
  imports Jwks_Endpoint Jwks_Source Jws Store_Lifecycle
begin

text \<open>
  From a signing store to a verifying one: what the packages of the backends register when a process
  starts, what the endpoint of one store publishes and a JWKS source loads, which keys a store builds of
  it, and why these accept the signatures of the store that published them.
\<close>

section \<open>The start of a process\<close>

text \<open>
  The process-wide registries, and the \<^verbatim>\<open>init\<close> functions of the three packages that fill them. Go runs them
  in an order that the imports of the program determine.
\<close>

record process =
  proc_registry :: registry
  proc_codecs :: codecs

definition sym_init :: "primitives \<Rightarrow> jose_primitives \<Rightarrow> process \<Rightarrow> process" where
  "sym_init prim jp p =
     (let p = p\<lparr>proc_registry := Regsiter (Some (sym_factory prim (jp_ParseCertificate jp))) (proc_registry p)\<rparr>;
          p = p\<lparr>proc_codecs := RegisterJOSEEncoder (Some (sym_JOSEEncoder (jp_ParseCertificate jp))) (proc_codecs p)\<rparr>
      in p\<lparr>proc_codecs := RegisterJOSEDecoder (Some sym_JOSEDecoder) (proc_codecs p)\<rparr>)"

definition ec_init :: "primitives \<Rightarrow> jose_primitives \<Rightarrow> process \<Rightarrow> process" where
  "ec_init prim jp p =
     (let p = p\<lparr>proc_registry := Regsiter (Some (ec_factory prim (jp_ParseCertificate jp))) (proc_registry p)\<rparr>;
          p = p\<lparr>proc_codecs := RegisterJOSEEncoder (Some (ec_JOSEEncoder jp)) (proc_codecs p)\<rparr>
      in p\<lparr>proc_codecs := RegisterJOSEDecoder (Some (ec_JOSEDecoder jp)) (proc_codecs p)\<rparr>)"

definition rsa_init :: "primitives \<Rightarrow> jose_primitives \<Rightarrow> process \<Rightarrow> process" where
  "rsa_init prim jp p =
     (let p = p\<lparr>proc_registry := Regsiter (Some (rsa_factory prim (jp_ParseCertificate jp))) (proc_registry p)\<rparr>;
          p = p\<lparr>proc_codecs := RegisterJOSEEncoder (Some (rsa_JOSEEncoder jp)) (proc_codecs p)\<rparr>
      in p\<lparr>proc_codecs := RegisterJOSEDecoder (Some (rsa_JOSEDecoder jp)) (proc_codecs p)\<rparr>)"

datatype backend_package = SymPackage | EcPackage | RsaPackage

fun package_init :: "primitives \<Rightarrow> jose_primitives \<Rightarrow> backend_package \<Rightarrow> process \<Rightarrow> process" where
  "package_init prim jp SymPackage = sym_init prim jp"
| "package_init prim jp EcPackage = ec_init prim jp"
| "package_init prim jp RsaPackage = rsa_init prim jp"

definition start_process :: "primitives \<Rightarrow> jose_primitives \<Rightarrow> backend_package list \<Rightarrow> process" where
  "start_process prim jp order =
     fold (package_init prim jp) order \<lparr>proc_registry = initial_registry, proc_codecs = initial_codecs\<rparr>"

fun package_factory :: "primitives \<Rightarrow> certificate_parser \<Rightarrow> backend_package \<Rightarrow> Factory" where
  "package_factory prim parse SymPackage = sym_factory prim parse"
| "package_factory prim parse EcPackage = ec_factory prim parse"
| "package_factory prim parse RsaPackage = rsa_factory prim parse"

fun package_encoder :: "jose_primitives \<Rightarrow> backend_package \<Rightarrow> JOSEEncoder" where
  "package_encoder jp SymPackage = sym_JOSEEncoder (jp_ParseCertificate jp)"
| "package_encoder jp EcPackage = ec_JOSEEncoder jp"
| "package_encoder jp RsaPackage = rsa_JOSEEncoder jp"

fun package_decoder :: "jose_primitives \<Rightarrow> backend_package \<Rightarrow> JOSEDecoder" where
  "package_decoder jp SymPackage = sym_JOSEDecoder"
| "package_decoder jp EcPackage = ec_JOSEDecoder jp"
| "package_decoder jp RsaPackage = rsa_JOSEDecoder jp"

text \<open>The registries hold what the packages registered, in the order in which they were initialised.\<close>

lemma started_from:
  "reg_factories (proc_registry (fold (package_init prim jp) order p))
     = reg_factories (proc_registry p) @ map (package_factory prim (jp_ParseCertificate jp)) order"
  "joseEncoders (proc_codecs (fold (package_init prim jp) order p))
     = joseEncoders (proc_codecs p) @ map (package_encoder jp) order"
  "joseDecoders (proc_codecs (fold (package_init prim jp) order p))
     = joseDecoders (proc_codecs p) @ map (package_decoder jp) order"
proof (induction order arbitrary: p)
  case (Cons package order)
  {
    case 1
    show ?case using Cons.IH(1)
      by (cases package) (simp_all add: sym_init_def ec_init_def rsa_init_def Let_def Regsiter_def)
  next
    case 2
    show ?case using Cons.IH(2)
      by (cases package) (simp_all add: sym_init_def ec_init_def rsa_init_def Let_def RegisterJOSEEncoder_def
          RegisterJOSEDecoder_def)
  next
    case 3
    show ?case using Cons.IH(3)
      by (cases package) (simp_all add: sym_init_def ec_init_def rsa_init_def Let_def RegisterJOSEEncoder_def
          RegisterJOSEDecoder_def)
  }
qed simp_all

lemma all_packages: "range f = {f SymPackage, f EcPackage, f RsaPackage}"
proof -
  have all: "(UNIV :: backend_package set) = {SymPackage, EcPackage, RsaPackage}"
    using backend_package.exhaust by blast
  show ?thesis unfolding all by simp
qed

text \<open>So every order of initialisation gives the registries that the theorems about them assume.\<close>

lemma started_codecs:
  assumes "set order = UNIV"
  shows "codec_registry jp (proc_codecs (start_process prim jp order))"
  unfolding codec_registry_def
  by (simp add: start_process_def started_from initial_codecs_def assms all_packages builtin_codecs_def)

lemma started_factories:
  assumes "set order = UNIV"
  shows "BackendFor (proc_registry (start_process prim jp order)) m
     = BackendFor (builtin_registry prim (jp_ParseCertificate jp)) m"
proof -
  have "set (reg_factories (proc_registry (start_process prim jp order)))
      = {ec_factory prim (jp_ParseCertificate jp), rsa_factory prim (jp_ParseCertificate jp),
         sym_factory prim (jp_ParseCertificate jp)}"
    by (auto simp add: start_process_def started_from initial_registry_def assms all_packages)
  then show ?thesis
    by (cases m) (simp add: BackendFor_def, simp only: BackendFor_any_order BackendFor_any_order [OF builtin_factories])
qed

section \<open>What is published and loaded\<close>

text \<open>A GET of a default endpoint over the store was answered with status 200 and this body.\<close>

definition publishes :: "jwks_env \<Rightarrow> store \<Rightarrow> Selector \<Rightarrow> ctxt \<Rightarrow> bytes \<Rightarrow> bool" where
  "publishes env m selector ctx body \<longleftrightarrow>
     (\<exists>e w w' h. endpoint_New env [WithKeystore (Some (Keys m)), WithKeySelector selector] = Ok e
        \<and> fresh_writer w \<and> ServeHTTP (Some e) w (Some \<lparr>rq_Method = ''GET'', rq_Context = ctx\<rparr>) = Ok w'
        \<and> rw_sent w' = Some (200, h) \<and> rw_body w' = body)"

text \<open>The network gives this body, whole and with status 200, to a request for the URL of the source.\<close>

definition delivers :: "url_env \<Rightarrow> network \<Rightarrow> jwks_source \<Rightarrow> bytes \<Rightarrow> bool" where
  "delivers ue net s body \<longleftrightarrow>
     (\<exists>u. url_Parse ue (jsrc_url s) = Inr u
        \<and> (\<forall>req. req_URL req = u \<longrightarrow> net [] req = Inr \<lparr>resp_StatusCode = 200, resp_Status = ''200 OK'',
             resp_Location = [], resp_Body = (body, None)\<rparr>))"

lemma default_encode_Ok:
  assumes "jwks_Encode env (Some \<lparr>enc_runtimeOptions = []\<rparr>) ctx (Some \<lparr>jwks_Keys = Some keys\<rparr>) [] = Ok body"
  shows "jwks_encode env (later 1 ctx) (Some \<lparr>jwks_Keys = Some keys\<rparr>) [] = Ok body"
  using assms by (cases "ctx 0"; cases keys) (simp_all add: jwks_Encode_def)

lemma published_body:
  assumes "publishes env m selector ctx body"
  shows "Keys m ctx selector = Ok (filter (Matches selector) (contents m))
     \<and> jwks_encode env (later 1 (later 1 ctx)) (Some \<lparr>jwks_Keys = Some (filter (Matches selector) (contents m))\<rparr>) []
       = Ok body"
proof -
  let ?req = "\<lparr>rq_Method = ''GET'', rq_Context = ctx\<rparr>"
  obtain e w w' h where p: "endpoint_New env [WithKeystore (Some (Keys m)), WithKeySelector selector] = Ok e"
      "fresh_writer w" "ServeHTTP (Some e) w (Some ?req) = Ok w'" "rw_sent w' = Some (200, h)" "rw_body w' = body"
    using assms(1) unfolding publishes_def by blast
  have e: "e = store_lister.default_endpoint m env selector"
    using p(1) store_lister.default_New by simp
  have "store_lister.served m env selector ctx = Ok body"
  proof (cases "store_lister.served m env selector ctx")
    case (Ok served)
    then show ?thesis
      using p(3,5) store_lister.serve_get [OF _ p(2), of ?req] unfolding e by auto
  next
    case (Err err)
    then have "w' = http_Error ''internal server error'' 500 w"
      using p(3) store_lister.serve_get [OF _ p(2), of ?req] unfolding e by simp
    then obtain h' where "rw_sent w' = Some (500, h')" using http_Error_status [OF p(2)] by blast
    then show ?thesis using p(4) by simp
  next
    case (Panic p')
    then show ?thesis using p(3) store_lister.serve_get [OF _ p(2), of ?req] unfolding e by simp
  qed
  then obtain keys where "Keys m ctx selector = Ok keys"
      "jwks_Encode env (Some \<lparr>enc_runtimeOptions = []\<rparr>) (later 1 ctx) (Some \<lparr>jwks_Keys = Some keys\<rparr>) [] = Ok body"
    by (auto simp: store_lister.served_def)
  moreover from this(1) have "keys = filter (Matches selector) (contents m)"
    by (simp add: Keys_def Find_eq split: option.splits)
  ultimately show ?thesis using default_encode_Ok by blast
qed

text \<open>The candidate that a source makes of a published key.\<close>

definition loaded_candidate :: "jose_primitives \<Rightarrow> jwks_source \<Rightarrow> Key \<Rightarrow> material \<Rightarrow> KeyCandidate" where
  "loaded_candidate jp s key m =
     (exported_candidate key (exported_material jp ExportPublicMaterial m))
       \<lparr>cand_Source := pl_id s, cand_Status := KeyStatusActive\<rparr>"

lemma published_load:
  assumes "publishes env m selector ctx body" "keys = filter (Matches selector) (contents m)"
    and "codec_registry jp (je_codecs env)" "codec_registry jp (je_codecs env')"
    and "\<forall>key\<in>set keys. regular_jose jp [] key"
    and "plain_decoder s" "\<not> pl_closed s" "jsrc_client s \<noteq> None"
    and "delivers ue net s body" "length body \<le> 10485760"
  shows "\<exists>ms s'. map key_material keys = map Some ms
     \<and> jsource_Load env' ue net (Some background) s = Some (s', Ok (map2 (loaded_candidate jp s) keys ms))
     \<and> pl_snapshot s' = hex_EncodeToString (ue_sha256 ue body)"
proof -
  let ?response = "\<lparr>resp_StatusCode = 200, resp_Status = ''200 OK'', resp_Location = [], resp_Body = (body, None)\<rparr>"
  obtain ms where ms: "map key_material keys = map Some ms"
      "jwks_Decode env' (Some \<lparr>dec_runtimeOptions = []\<rparr>) background (Some body) []
         = Ok \<lparr>jwks_Keys = Some (map2 (\<lambda>key m.
             exported_candidate key (exported_material jp ExportPublicMaterial m)) keys ms)\<rparr>"
    using encoded_set_decodes [OF conjunct2 [OF published_body [OF assms(1)]] assms(3,4)] assms(2,5) by (auto simp: export_policy_def)
  have label: "label_key s (exported_candidate key m) = (exported_candidate key m)
      \<lparr>cand_Source := pl_id s, cand_Status := KeyStatusActive\<rparr>" for key m
    by (simp add: label_key_def exported_candidate_def zero_KeyCandidate_def)
  obtain u where u: "url_Parse ue (jsrc_url s) = Inr u" "\<And>req. req_URL req = u \<Longrightarrow> net [] req = Inr ?response"
    using assms(9) unfolding delivers_def by blast
  have "client_Do ue net (checkRedirect s) [] \<lparr>req_URL = u, req_Accept = accept\<rparr> = Some (Inr ?response)" for accept
    using u(2) by (subst client_Do.simps) (simp add: redirect_status_def)
  moreover have "jsource_read env' ue background s ?response
      = Ok (map2 (loaded_candidate jp s) keys ms, hex_EncodeToString (ue_sha256 ue body))"
    using ms(2) assms(6,10)
    by (simp add: jsource_read_Ok maximumJWKSSize_def plain_decoder_def label comp_def case_prod_beta
        loaded_candidate_def)
  ultimately have "jsource_load env' ue net background s
      = Some (Ok (map2 (loaded_candidate jp s) keys ms, hex_EncodeToString (ue_sha256 ue body)))"
    unfolding jsource_load_Ok using assms(8) u(1) by blast
  then show ?thesis
    using ms(1) assms(7) by (intro exI [of _ ms]) (simp add: jsource_Load_def jsource_commit_def)
qed

section \<open>Keys that sign and keys that verify\<close>

text \<open>The signing primitive of a private key makes signatures that the verifying one accepts.\<close>

fun sound_signatures :: "primitives \<Rightarrow> material option \<Rightarrow> bool" where
  "sound_signatures prim (Some (PrivateMaterial (Some (PrivECDSA (Some k))))) = ecdsa_signatures_verify prim k"
| "sound_signatures prim (Some (PrivateMaterial (Some (PrivRSA (Some k))))) = rsa_signatures_verify prim k"
| "sound_signatures prim m = True"

text \<open>The material of a key that can sign.\<close>

lemma signing_material:
  assumes "BackendFor (builtin_registry prim parse) (Some m) = Ok b" "backend_Sign b = Some sign"
  shows "(\<exists>k. Clone parse m = PrivateMaterial (Some (PrivECDSA (Some k)))
        \<and> b = ec_privateBackend prim (PrivECDSA (Some k)))
     \<or> (\<exists>k. Clone parse m = PrivateMaterial (Some (PrivRSA (Some k)))
        \<and> b = rsa_privateBackend prim (PrivRSA (Some k)))
     \<or> (\<exists>k. Clone parse m = SymmetricMaterial (Some k) \<and> b = symmetricBackend prim k)"
proof -
  from assms(1) consider "ec_factory_New prim parse m = Ok b" | "rsa_factory_New prim parse m = Ok b"
    | "sym_factory_New prim parse m = Ok b"
    unfolding BackendFor_any_order [OF builtin_factories] by (auto split: if_splits)
  then show ?thesis
    using assms(2)
    by cases (auto simp: ec_factory_New_def rsa_factory_New_def sym_factory_New_def ec_certificateBackend_def
        rsa_certificateBackend_def ec_publicBackend_def rsa_publicBackend_def
        split: material.splits option.splits private_key.splits public_key.splits)
qed

text \<open>The backends that the factories make for the materials of public and symmetric keys.\<close>

lemma public_backends:
  "BackendFor (builtin_registry prim parse) (Some (PublicMaterial (Some (PubECDSA (Some k)))))
     = Ok (ec_publicBackend prim (PubECDSA (Some k)))"
  "BackendFor (builtin_registry prim parse) (Some (PublicMaterial (Some (PubRSA (Some k')))))
     = Ok (rsa_publicBackend prim (PubRSA (Some k')))"
  "BackendFor (builtin_registry prim parse) (Some (SymmetricMaterial (Some key)))
     = Ok (symmetricBackend prim key)"
  unfolding BackendFor_any_order [OF builtin_factories]
  by (simp_all add: ec_factory_New_def rsa_factory_New_def sym_factory_New_def sym_factory_Supports_def)

text \<open>
  What is published of a key that signs becomes a key that accepts its signatures, claims every
  algorithm that the signer has, and holds the public part only.
\<close>

lemma published_pair:
  assumes "built_key prim parse k" "key_backend k = Some b" "backend_Sign b = Some sign" "key_material k = Some m"
    and "sound_signatures prim (Some m)"
    and "BackendFor (builtin_registry prim parse') (Some (exported_material jp ExportPublicMaterial m)) = Ok b'"
  shows "signature_pair b' b
     \<and> (\<forall>a. backend_Supports b KeyUseSigning KeyOpSign a \<longrightarrow> backend_Supports b' KeyUseSigning KeyOpVerify a)
     \<and> exported_material jp ExportPublicMaterial m = public_view m
     \<and> Clone parse'' (exported_material jp ExportPublicMaterial m) = public_view m"
proof -
  obtain c where c: "BackendFor (builtin_registry prim parse) (cand_Material c) = Ok b" "k = key_New parse c (Some b)"
    using assms(1,2) by (auto simp: built_key_def key_New_def)
  then obtain m0 where m0: "cand_Material c = Some m0" "Clone parse m0 = m"
    using assms(4) by (cases "cand_Material c") (auto simp: key_New_def)
  have policy: "ExportPublicMaterial \<noteq> ExportPrivateMaterial"
    by (simp add: ExportPublicMaterial_def ExportPrivateMaterial_def)
  from signing_material [OF c(1) [unfolded m0(1)] assms(3), unfolded m0(2)]
  consider (ec) key where "m = PrivateMaterial (Some (PrivECDSA (Some key)))" "b = ec_privateBackend prim (PrivECDSA (Some key))"
    | (rsa) key where "m = PrivateMaterial (Some (PrivRSA (Some key)))" "b = rsa_privateBackend prim (PrivRSA (Some key))"
    | (sym) key where "m = SymmetricMaterial (Some key)" "b = symmetricBackend prim key"
    by blast
  then show ?thesis
  proof cases
    case ec
    then have "b' = ec_publicBackend prim (PubECDSA (Some (ec_PublicPart key)))"
      using assms(6) policy by (simp add: exported_material_def public_backends)
    then show ?thesis
      using ec assms(5) policy ec_signature_pair [of prim key]
      by (auto simp: exported_material_def ec_privateBackend_def ec_publicBackend_def table_Supports_iff Cap_def op_defs)
  next
    case rsa
    then have "b' = rsa_publicBackend prim (PubRSA (Some (rsa_PublicPart key)))"
      using assms(6) policy by (simp add: exported_material_def public_backends)
    then show ?thesis
      using rsa assms(5) policy rsa_signature_pair [of prim key]
      by (auto simp: exported_material_def rsa_privateBackend_def rsa_publicBackend_def rsa_capabilities_private
          rsa_capabilities_public op_defs use_defs)
  next
    case sym
    then have "b' = symmetricBackend prim key"
      using assms(6) by (simp add: exported_material_def public_backends)
    then show ?thesis
      using sym sym.own.signature_pair_axioms [of prim key]
      by (auto simp: exported_material_def symmetricBackend_def sym_supports_iff op_defs use_defs)
  qed
qed

section \<open>The store that verifies\<close>

text \<open>A source that was bound has loaded, and its keys are in the store.\<close>

lemma Bind_Ok:
  assumes "Bind env (Some s) m w = (m', w', Ok ())"
  obtains new where "load_keys env (src_ID env s) (src_Load env s) = Ok new"
    "contents m' = filter (\<lambda>k. key_source k \<noteq> src_ID env s) (contents m) @ new"
    "runtimeOptions m' = runtimeOptions m"
proof -
  have "loaded_keys env s \<noteq> Panic p" for p
    using assms
    by (auto simp: Bind_def bind_reserve_def loaded_keys_def Let_def split: if_splits prod.splits)
  then show thesis
    using Bind_cases [of "Some s" env m w] assms that by (auto simp: loaded_keys_def)
qed

text \<open>The keys that are built of a published set, one for each published key.\<close>

lemma built_of_published:
  assumes "map key_material keys = map Some ms"
    and "load_keys env sid (Ok (map2 (loaded_candidate jp s) keys ms)) = Ok new"
  shows "list_all2 (\<lambda>k k'. \<exists>m b. key_material k = Some m
     \<and> BackendFor (env_registry env) (Some (exported_material jp ExportPublicMaterial m)) = Ok b
     \<and> k' = key_New (env_parse env) (loaded_candidate jp s k m) (Some b)) keys new"
proof -
  have "list_all2 (\<lambda>c k. \<exists>b. BackendFor (env_registry env) (cand_Material c) = Ok b
      \<and> k = key_New (env_parse env) c (Some b)) (map2 (loaded_candidate jp s) keys ms) new"
    using load_keys_pairs [OF assms(2)] by auto
  with assms(1) show ?thesis
  proof (induction keys arbitrary: ms new)
    case (Cons k keys)
    then obtain m ms' where "ms = m # ms'" "key_material k = Some m" "map key_material keys = map Some ms'" by auto
    then show ?case
      using Cons.prems(2) Cons.IH [of ms']
      by (auto simp: list_all2_Cons1 loaded_candidate_def exported_candidate_def)
  qed simp
qed

lemma loaded_candidate_simps [simp]:
  "cand_ID (loaded_candidate jp s k m) = key_id k" "cand_Source (loaded_candidate jp s k m) = pl_id s"
  "cand_Status (loaded_candidate jp s k m) = KeyStatusActive"
  "cand_NotBefore (loaded_candidate jp s k m) = 0" "cand_NotAfter (loaded_candidate jp s k m) = 0"
  "cand_Restrictions (loaded_candidate jp s k m) = kept_restrictions (key_restrictions k)"
  "cand_Material (loaded_candidate jp s k m) = Some (exported_material jp ExportPublicMaterial m)"
  by (simp_all add: loaded_candidate_def exported_candidate_def zero_KeyCandidate_def)

text \<open>The restrictions that are published let a key verify with an algorithm.\<close>

definition verification_published :: "Capability list \<Rightarrow> KeyAlg \<Rightarrow> bool" where
  "verification_published rs a \<longleftrightarrow>
     kept_restrictions rs = [] \<or> Cap KeyUseSigning KeyOpVerify a \<in> set (kept_restrictions rs)"

lemma loaded_key_eligible:
  assumes "backend_Supports b KeyUseSigning KeyOpVerify a" "verification_published (key_restrictions k) a"
  shows "eligible zero_Selector now KeyOpVerify a (key_New parse (loaded_candidate jp s k m) (Some b))"
  using assms
  by (auto simp: eligible_def Matches_zero verification_published_def operation_use_def op_defs status_defs Cap_def)

text \<open>
  Neither the status nor the validity of a key is published, and an endpoint without a selector lists
  every key: a key that was disabled or has expired, with which its own store verifies nothing any
  more, verifies in a store that loads it.
\<close>

lemma disabled_key_revived:
  assumes "key_status k = KeyStatusDisabled \<or> key_notAfter k \<noteq> 0 \<and> key_notAfter k < now"
    and "backend_Supports b KeyUseSigning KeyOpVerify a" "verification_published (key_restrictions k) a"
  shows "\<not> eligible selector now KeyOpVerify a k \<and> Matches zero_Selector k
     \<and> eligible zero_Selector now KeyOpVerify a (key_New parse (loaded_candidate jp s k m) (Some b))"
  using assms loaded_key_eligible by (auto simp: eligible_def Matches_zero)

text \<open>
  A restriction to signing alone is published as it is, with the public key: a store that loads it
  never verifies with it.
\<close>

lemma signing_restriction_published:
  assumes "a \<noteq> []" "key_restrictions k = [Cap KeyUseSigning KeyOpSign a]"
  shows "kept_restrictions (key_restrictions k) = key_restrictions k
     \<and> \<not> verification_published (key_restrictions k) a'
     \<and> \<not> eligible selector now KeyOpVerify a' (key_New parse (loaded_candidate jp s k m) b)"
proof -
  have "restorable (key_restrictions k)"
    using assms by (simp add: restorable_def expressible_def op_defs)
  then have kept: "kept_restrictions (key_restrictions k) = key_restrictions k"
    by (rule iffD2 [OF restored_iff, rotated]) (simp add: assms(2))
  then show ?thesis
    using assms by (auto simp: verification_published_def eligible_def operation_use_def op_defs Cap_def)
qed

text \<open>
  The store that bound the source has one key under the identifier of a published key that has no other
  namesake: the one that was built of its published form.
\<close>

lemma bound_published_key:
  assumes "Bind cenv (Some src) m1 w = (m2, w', Ok ())"
    and "src_ID cenv src = pl_id s" "src_Load cenv src = Ok (map2 (loaded_candidate jp s) keys ms)"
    and "map key_material keys = map Some ms" "filter (\<lambda>k. key_id k = kid) keys = [k]"
    and "\<forall>key\<in>set (contents m1). key_id key = kid \<longrightarrow> key_source key = pl_id s"
  shows "\<exists>m b. key_material k = Some m
     \<and> BackendFor (env_registry cenv) (Some (exported_material jp ExportPublicMaterial m)) = Ok b
     \<and> filter (\<lambda>k. key_id k = kid) (contents m2) = [key_New (env_parse cenv) (loaded_candidate jp s k m) (Some b)]
     \<and> runtimeOptions m2 = runtimeOptions m1"
proof -
  obtain new where new: "load_keys cenv (pl_id s) (Ok (map2 (loaded_candidate jp s) keys ms)) = Ok new"
      "contents m2 = filter (\<lambda>k. key_source k \<noteq> pl_id s) (contents m1) @ new" "runtimeOptions m2 = runtimeOptions m1"
    using Bind_Ok [OF assms(1)] assms(2,3) by metis
  obtain m b where b: "key_material k = Some m"
      "BackendFor (env_registry cenv) (Some (exported_material jp ExportPublicMaterial m)) = Ok b"
      "filter (\<lambda>k. key_id k = kid) new = [key_New (env_parse cenv) (loaded_candidate jp s k m) (Some b)]"
    using list_all2_filter_single [OF built_of_published [OF assms(4) new(1)], of "\<lambda>k. key_id k = kid"
        "\<lambda>k. key_id k = kid" k] assms(5)
    by fastforce
  have "filter (\<lambda>k. key_id k = kid) (filter (\<lambda>k. key_source k \<noteq> pl_id s) (contents m1)) = []"
    using assms(6) by (auto simp: filter_empty_conv)
  then show ?thesis using b new(2,3) by auto
qed

section \<open>A sample of two processes\<close>

text \<open>An issuer with one RSA key, and a consumer that fetches its set.\<close>

definition sample_issuer_key :: Key where
  "sample_issuer_key = sample_rsa_jose_key
     \<lparr>key_backend := Some (rsa_privateBackend (sample_primitives False) (PrivRSA (Some sample_rsa_private)))\<rparr>"

definition sample_process :: process where
  "sample_process = start_process (sample_primitives False) sample_rsa_jose [SymPackage, EcPackage, RsaPackage]"

definition sample_consumer :: environment where
  "sample_consumer = \<lparr>
     src_ID = \<lambda>_. ''j'', src_self_refreshing = \<lambda>_. True,
     src_Load = \<lambda>_. Ok [loaded_candidate sample_rsa_jose sample_jsource sample_issuer_key
       (PrivateMaterial (Some (PrivRSA (Some sample_rsa_private))))],
     src_Close = \<lambda>_. None, env_registry = proc_registry sample_process, env_parse = \<lambda>_. Inl (External 0)\<rparr>"

definition sample_delivery :: network where
  "sample_delivery = (\<lambda>via req. Inr \<lparr>resp_StatusCode = 200, resp_Status = ''200 OK'', resp_Location = [],
     resp_Body = (sample_document, None)\<rparr>)"

lemma sample_order: "set [SymPackage, EcPackage, RsaPackage] = UNIV"
  using backend_package.exhaust by auto

lemma sample_process_codecs: "je_codecs sample_source_env = proc_codecs sample_process"
  by (simp add: sample_source_env_def sample_process_def start_process_def registered_codecs_def builtin_codecs_def
      register_codec_def sym_init_def ec_init_def rsa_init_def Let_def)

lemma sample_issuer_simps [simp]:
  "key_id sample_issuer_key = ''r1''" "key_restrictions sample_issuer_key = []" "key_status sample_issuer_key = []"
  "key_notBefore sample_issuer_key = 0" "key_notAfter sample_issuer_key = 0" "key_priority sample_issuer_key = 0"
  "key_material sample_issuer_key = Some (PrivateMaterial (Some (PrivRSA (Some sample_rsa_private))))"
  "key_backend sample_issuer_key
     = Some (rsa_privateBackend (sample_primitives False) (PrivRSA (Some sample_rsa_private)))"
  by (simp_all add: sample_issuer_key_def sample_rsa_jose_key_def zero_KeyCandidate_def key_New_def sample_rsa_private_def)

lemma sample_issuer_built: "built_key (sample_primitives False) (jp_ParseCertificate sample_rsa_jose) sample_issuer_key"
  unfolding built_key_def
proof (intro exI conjI)
  let ?c = "zero_KeyCandidate\<lparr>cand_ID := ''r1'', cand_Material := Some (PrivateMaterial (Some (PrivRSA (Some sample_rsa_private))))\<rparr>"
  let ?b = "rsa_privateBackend (sample_primitives False) (PrivRSA (Some sample_rsa_private))"
  show "BackendFor (builtin_registry (sample_primitives False) (jp_ParseCertificate sample_rsa_jose)) (cand_Material ?c) = Ok ?b"
    by (simp add: BackendFor_any_order [OF builtin_factories] rsa_factory_New_def sample_rsa_private_def)
  show "sample_issuer_key = key_New (jp_ParseCertificate sample_rsa_jose) ?c (Some ?b)"
    by (simp add: sample_issuer_key_def sample_rsa_jose_key_def key_New_def sample_rsa_jose_def)
qed

lemma sample_publishes:
  "publishes sample_source_env (sample_store [sample_issuer_key]) zero_Selector background sample_document"
proof -
  let ?m = "sample_store [sample_issuer_key]" and ?req = "\<lparr>rq_Method = ''GET'', rq_Context = background\<rparr>"
  have fresh: "fresh_writer sample_writer" by (simp add: fresh_writer_def sample_writer_def)
  have "Keys ?m background zero_Selector = Ok [sample_issuer_key]"
    by (simp add: Keys_def Find_eq Matches_zero)
  then have "store_lister.served ?m sample_source_env zero_Selector background = Ok sample_document"
    using sample_document_backend by (simp add: store_lister.served_def jwks_Encode_def sample_issuer_key_def)
  then show ?thesis
    using store_lister.serve_get [OF _ fresh, of ?req] store_lister.default_New fresh
    unfolding publishes_def by (intro exI conjI) auto
qed

lemma sample_token:
  "\<exists>j. jws_Sign (\<lambda>_ err. err)
     (Some \<lparr>js_keystore = Some (keystore_of sample_parser (sample_store [sample_issuer_key]) 0 sample_entropy),
       js_runtimeOptions = []\<rparr>) background claims (map forward_sign [WithAlgorithms [RS256]]) = Ok j
     \<and> desc_ID (jws_Key j) = ''r1'' \<and> desc_Algorithm (jws_Key j) = RS256"
proof -
  let ?m = "sample_store [sample_issuer_key]"
  let ?k = "keystore_of sample_parser ?m 0 sample_entropy"
  let ?sign = "rsa_private_Sign (sample_primitives False) (PrivRSA (Some sample_rsa_private))"
  let ?sf = "\<lparr>sf_id = ''r1'', sf_algorithm = RS256, sf_ctx = background, sf_signer = ?sign\<rparr>"
  have "eligible zero_Selector 0 KeyOpSign RS256 sample_issuer_key"
    by (simp add: eligible_def Matches_zero status_defs rsa_privateBackend_def rsa_capabilities_private
        operation_use_def op_defs)
  then have sel: "selectKey (Some ?m) 0 background KeyOpSign zero_Selector [RS256] = Ok (sample_issuer_key, RS256)"
    unfolding selectKey_Ok_iff by (intro conjI exI [of _ "[]"]) simp_all
  obtain d where d: "Descriptor sample_parser sample_issuer_key RS256 = Ok d"
    using sample_issuer_built by (auto simp: Descriptor_def Key_Material_def sample_rsa_private_def)
  have req: "operation_request ?m [Some (WithAlgorithms [RS256])]
      = Ok \<lparr>query_Keys = zero_Selector, query_Algorithms = [RS256]\<rparr>"
    by (simp add: operation_request_def WithAlgorithms_def zero_operationQuery_def)
  have signer: "Signer sample_parser (Some ?m) 0 background [Some (WithAlgorithms [RS256])] = Ok (d, ?sf)"
    using Signer_OkI [OF req _ _ _ _ d, of 0 background _ ?sign] sel by (simp add: rsa_privateBackend_def)
  have "\<exists>signature. call_SignFunc ?sf sample_entropy False (signing_message (json_Marshal_map (mapHeader d)) claims)
      = (True, Ok signature)"
    by (simp add: call_SignFunc_def rsa_private_Sign_def rsa_private_signatureOptions_def hashMessage_def
        sample_primitives_def rsa_algs)
  then obtain j where "jws_sign (\<lambda>_ err. err) \<lparr>js_keystore = Some ?k, js_runtimeOptions = []\<rparr> background claims
      (Some mapHeader) [Some (WithAlgorithms [RS256])] = Ok j" "jws_Key j = d"
    using signer by (auto simp: jws_sign_def keystore_of_def Let_def)
  then show ?thesis
    using sign_forwarded [of "\<lambda>_ err. err" "Some ?k" "[]" background claims "[WithAlgorithms [RS256]]"]
      Descriptor_id [OF d] by simp
qed

lemma sample_bound:
  "\<exists>m2 w. Bind sample_consumer (Some 0) empty_store sample_world = (m2, w, Ok ())"
proof -
  have "BackendFor (proc_registry sample_process) (Some (PublicMaterial (Some (PubRSA (Some k)))))
      = Ok (rsa_publicBackend (sample_primitives False) (PubRSA (Some k)))" for k
    unfolding sample_process_def started_factories [OF sample_order] by (rule public_backends)
  then have "\<exists>keys. loaded_keys sample_consumer 0 = Ok keys"
    by (simp add: loaded_keys_def load_keys_def buildCandidates_def sample_consumer_def exported_material_def
        ExportPublicMaterial_def ExportPrivateMaterial_def)
  moreover have "TrimSpace (src_ID sample_consumer 0) \<noteq> []"
    unfolding sample_consumer_def environment.select_convs by code_simp
  ultimately show ?thesis
    using Bind_cases [of "Some 0" sample_consumer empty_store sample_world] by (auto simp: empty_store_def)
qed

end
