(* ===== verification/Test_Keys.thy ===== *)
theory Test_Keys
  imports File_Source Ec_Jose
begin

text \<open>
  The package \<^verbatim>\<open>internal/testkeys\<close>: the keys that the tests of the repository use. The embedded files, the
  PEM decoder and the parser are parameters; a call of \<^verbatim>\<open>t.Fatalf\<close>, which ends the test, is an error.
\<close>

section \<open>The fixtures\<close>

type_synonym Kind = string

definition tk_RSA2048 :: Kind where "tk_RSA2048 = ''RSA2048''"
definition tk_ES256 :: Kind where "tk_ES256 = ''ES256''"
definition tk_ES384 :: Kind where "tk_ES384 = ''ES384''"
definition tk_ES512 :: Kind where "tk_ES512 = ''ES512''"
definition tk_Ed25519 :: Kind where "tk_Ed25519 = ''Ed25519''"

lemmas kind_defs = tk_RSA2048_def tk_ES256_def tk_ES384_def tk_ES512_def tk_Ed25519_def

type_synonym embedded = "string \<Rightarrow> bytes"

definition pemForKind :: "embedded \<Rightarrow> Kind \<Rightarrow> bytes res" where
  "pemForKind files kind =
     (if kind = tk_RSA2048 then Ok (files ''testdata/rsa2048.pem'')
      else if kind = tk_ES256 then Ok (files ''testdata/es256.pem'')
      else if kind = tk_ES384 then Ok (files ''testdata/es384.pem'')
      else if kind = tk_ES512 then Ok (files ''testdata/es512.pem'')
      else if kind = tk_Ed25519 then Ok (files ''testdata/ed25519.pem'')
      else Err (Errorf ''testkeys: unknown key kind %q'' [StrArg kind]))"

definition requireECDSACurve :: "Kind \<Rightarrow> private_key \<Rightarrow> elliptic_curve \<Rightarrow> unit res" where
  "requireECDSACurve kind key want =
     (case key of
        PrivECDSA None \<Rightarrow> Panic ''nil pointer dereference''
      | PrivECDSA (Some ecdsaKey) \<Rightarrow>
          if ec_Curve (ec_PublicPart ecdsaKey) \<noteq> Some want
          then
            (case (Option.bind (ec_Curve (ec_PublicPart ecdsaKey)) Params, Params want) of
               (Some params, Some wanted) \<Rightarrow>
                 Err (Errorf ''testkeys: %q uses curve %q, want %q''
                   [StrArg kind, StrArg (curve_Name params), StrArg (curve_Name wanted)])
             | _ \<Rightarrow> Panic ''nil pointer dereference'')
          else Ok ()
      | _ \<Rightarrow> Err (Errorf ''testkeys: %q contains %T, want *ecdsa.PrivateKey'' [StrArg kind]))"

definition validateType :: "Kind \<Rightarrow> private_key \<Rightarrow> unit res" where
  "validateType kind key =
     (if kind = tk_RSA2048 then
        (case key of
           PrivRSA (Some rsaKey) \<Rightarrow>
             (case rsa_N (rsa_PublicPart rsaKey) of
                None \<Rightarrow> Panic ''nil pointer dereference''
              | Some n \<Rightarrow>
                  if BitLen (nat \<bar>n\<bar>) \<noteq> 2048
                  then Err (Errorf ''testkeys: RSA key has %d bits, want 2048'' [IntArg (int (BitLen (nat \<bar>n\<bar>)))])
                  else Ok ())
         | PrivRSA None \<Rightarrow> Panic ''nil pointer dereference''
         | _ \<Rightarrow> Err (Errorf ''testkeys: %q contains %T, want *rsa.PrivateKey'' [StrArg kind]))
      else if kind = tk_ES256 then requireECDSACurve kind key P256
      else if kind = tk_ES384 then requireECDSACurve kind key P384
      else if kind = tk_ES512 then requireECDSACurve kind key P521
      else if kind = tk_Ed25519 then
        (case key of
           PrivEd25519 bs \<Rightarrow> Ok ()
         | _ \<Rightarrow> Err (Errorf ''testkeys: %q contains %T, want ed25519.PrivateKey'' [StrArg kind]))
      else Ok ())"

definition tk_Private :: "file_parsers \<Rightarrow> embedded \<Rightarrow> Kind \<Rightarrow> private_key res" where
  "tk_Private ps files kind =
     bind_res (pemForKind files kind) (\<lambda>pemData.
       (case pem_Decode ps pemData of
          None \<Rightarrow> Err (Errorf ''testkeys: cannot decode PEM for %q'' [StrArg kind])
        | Some (block, rest) \<Rightarrow>
            (case parse_PKCS8PrivateKey ps block of
               Inl err \<Rightarrow> Err (Wrapf ''testkeys: parse private key %q: %v'' [StrArg kind] err)
             | Inr key \<Rightarrow> bind_res (validateType kind key) (\<lambda>_. Ok key))))"

text \<open>\<^verbatim>\<open>ed25519.PrivateKey.Public\<close> copies what follows the first 32 bytes into a slice of 32 bytes.\<close>

definition tk_Public :: "file_parsers \<Rightarrow> embedded \<Rightarrow> Kind \<Rightarrow> public_key res" where
  "tk_Public ps files kind =
     bind_res (tk_Private ps files kind) (\<lambda>privateKey.
       case privateKey of
         PrivRSA (Some key) \<Rightarrow> Ok (PubRSA (Some (rsa_PublicPart key)))
       | PrivECDSA (Some key) \<Rightarrow> Ok (PubECDSA (Some (ec_PublicPart key)))
       | PrivRSA None \<Rightarrow> Panic ''nil pointer dereference''
       | PrivECDSA None \<Rightarrow> Panic ''nil pointer dereference''
       | PrivEd25519 bs \<Rightarrow>
           if length bs < 32 then Panic ''slice bounds out of range''
           else Ok (PubEd25519 (take 32 (drop 32 bs @ replicate 32 0)))
       | _ \<Rightarrow> Err (Errorf ''testkeys: unsupported private key type %T'' []))"

section \<open>Malformed keys\<close>

type_synonym Malformation = string

definition MissingPublicPoint :: Malformation where "MissingPublicPoint = ''missing-public-point''"
definition ZeroPrivateValue :: Malformation where "ZeroPrivateValue = ''zero-private-value''"
definition InvalidLength :: Malformation where "InvalidLength = ''invalid-length''"
definition IncompleteKey :: Malformation where "IncompleteKey = ''incomplete-key''"

definition MalformedPublic :: "Kind \<Rightarrow> Malformation \<Rightarrow> public_key res" where
  "MalformedPublic kind malformation =
     (if kind = tk_RSA2048 \<and> malformation = IncompleteKey
      then Ok (PubRSA (Some \<lparr>rsa_N = Some 15, rsa_E = 0\<rparr>))
      else if kind = tk_ES256 \<and> malformation = MissingPublicPoint
      then Ok (PubECDSA (Some \<lparr>ec_Curve = Some P256, ec_X = None, ec_Y = None\<rparr>))
      else if kind = tk_Ed25519 \<and> malformation = InvalidLength
      then Ok (PubEd25519 (replicate 17 0))
      else Err (Errorf ''testkeys: unsupported malformed key combination %q/%q'' [StrArg kind, StrArg malformation]))"

definition MalformedPrivate :: "Kind \<Rightarrow> Malformation \<Rightarrow> private_key res" where
  "MalformedPrivate kind malformation =
     (if kind = tk_RSA2048 \<and> malformation = IncompleteKey
      then Ok (PrivRSA (Some \<lparr>rsa_PublicPart = \<lparr>rsa_N = Some 15, rsa_E = 65537\<rparr>, rsa_D = Some 1,
             rsa_Primes = [], rsa_Precomputed = None\<rparr>))
      else if kind = tk_ES256 \<and> malformation = MissingPublicPoint
      then Ok (PrivECDSA (Some \<lparr>ec_PublicPart = \<lparr>ec_Curve = Some P256, ec_X = None, ec_Y = None\<rparr>, ec_D = Some 1\<rparr>))
      else if kind = tk_ES256 \<and> malformation = ZeroPrivateValue
      then Ok (PrivECDSA (Some \<lparr>ec_PublicPart = \<lparr>ec_Curve = Some P256, ec_X = Some 0, ec_Y = Some 0\<rparr>, ec_D = Some 0\<rparr>))
      else if kind = tk_Ed25519 \<and> malformation = InvalidLength
      then Ok (PrivEd25519 (replicate 17 0))
      else Err (Errorf ''testkeys: unsupported malformed key combination %q/%q'' [StrArg kind, StrArg malformation]))"

section \<open>Facts\<close>

text \<open>A key that \<^verbatim>\<open>Private\<close> gives has the type that its kind names, so \<^verbatim>\<open>Public\<close> gives its public part.\<close>

fun of_kind :: "Kind \<Rightarrow> private_key \<Rightarrow> bool" where
  "of_kind kind (PrivRSA (Some k)) \<longleftrightarrow> kind = tk_RSA2048"
| "of_kind kind (PrivECDSA (Some k)) \<longleftrightarrow>
     (kind, ec_Curve (ec_PublicPart k)) \<in> {(tk_ES256, Some P256), (tk_ES384, Some P384), (tk_ES512, Some P521)}"
| "of_kind kind (PrivEd25519 bs) \<longleftrightarrow> kind = tk_Ed25519"
| "of_kind kind key \<longleftrightarrow> False"

lemma requireECDSACurve_Ok:
  "requireECDSACurve kind key want = Ok u \<longleftrightarrow>
     (\<exists>k. key = PrivECDSA (Some k) \<and> ec_Curve (ec_PublicPart k) = Some want)"
  by (auto simp: requireECDSACurve_def split: private_key.splits option.splits)

lemma Private_of_kind:
  assumes "tk_Private ps files kind = Ok key"
  shows "of_kind kind key"
proof -
  obtain data where data: "pemForKind files kind = Ok data" using assms by (auto simp: tk_Private_def)
  then obtain block rest where block: "pem_Decode ps data = Some (block, rest)"
    using assms by (cases "pem_Decode ps data") (auto simp: tk_Private_def)
  have valid: "validateType kind key = Ok ()"
    using assms data block by (cases "parse_PKCS8PrivateKey ps block") (auto simp: tk_Private_def)
  have known: "kind \<in> {tk_RSA2048, tk_ES256, tk_ES384, tk_ES512, tk_Ed25519}"
    using data by (auto simp: pemForKind_def split: if_splits)
  from known show ?thesis
  proof (elim insertE emptyE)
    assume "kind = tk_RSA2048"
    then show ?thesis using valid
      by (auto simp: validateType_def split: private_key.splits option.splits)
  next
    assume "kind = tk_Ed25519"
    then show ?thesis using valid by (auto simp: validateType_def kind_defs split: private_key.splits)
  qed (use valid in \<open>auto simp: validateType_def kind_defs requireECDSACurve_Ok\<close>)
qed

lemma Public_of_Private:
  assumes "tk_Private ps files kind = Ok key" "kind \<noteq> tk_Ed25519"
  shows "(\<exists>k. key = PrivRSA (Some k) \<and> tk_Public ps files kind = Ok (PubRSA (Some (rsa_PublicPart k))))
     \<or> (\<exists>k. key = PrivECDSA (Some k) \<and> tk_Public ps files kind = Ok (PubECDSA (Some (ec_PublicPart k))))"
  using assms Private_of_kind [OF assms(1)]
  by (cases "(kind, key)" rule: of_kind.cases) (auto simp: tk_Public_def)

text \<open>The EC encoder refuses all malformed EC keys.\<close>

lemma malformed_EC_refused:
  assumes "MalformedPrivate tk_ES256 malformation = Ok k"
  shows "ec_encode_material jp policy jwk (Some (PrivateMaterial (Some k))) \<noteq> Ok jwk'"
  using assms
  by (auto simp: MalformedPrivate_def kind_defs validatePrivateKey_def split: if_splits)

lemma malformed_EC_public_refused:
  assumes "MalformedPublic tk_ES256 malformation = Ok k"
  shows "ec_encode_material jp policy jwk (Some (PublicMaterial (Some k))) \<noteq> Ok jwk'"
  using assms
  by (auto simp: MalformedPublic_def kind_defs ec_setPublicJWK_def split: if_splits option.splits)

end
