(* ===== verification/Spec2Isabelle.thy ===== *)
theory Spec2Isabelle
  imports Store_Concurrency Random_Source File_Source Publication Test_Keys
begin

text \<open>
  vcrypt is a Go library that loads, rotates, selects and uses cryptographic keys. A \<^emph>\<open>source\<close> gives key
  candidates; the \<^emph>\<open>store\<close> makes keys of them with the backends that registered factories create, keeps them
  in a repository, replaces the keys of a source when it refreshes, and offers signing, verification,
  encryption and decryption with a key that it selects; tokens (JWS) and key sets (JWKS) are built on top.
  The theories follow these parts; a definition has the name of the Go function, with a prefix where two
  packages have a function of the same name (\<open>ec_Encode\<close> is \<^verbatim>\<open>joseEncoder.Encode\<close> of \<^verbatim>\<open>backend/ec\<close>).

  \<^bold>\<open>General conventions\<close> (\<open>Prelude\<close>, \<open>Go_Std\<close>, \<open>Http\<close>, \<open>Base64\<close>, \<open>Json\<close>, \<open>Json_Compact\<close>). A fallible function gives
  an \<open>'a res\<close>: a value, a Go error, or a run-time panic, so nil dereferences and failed type assertions are
  results of the model. Errors keep their format string, arguments and wrapped error. A context is the
  sequence of the answers of its checks, numbered in the order in which one call makes them. Machine
  integers that matter are bytes (\<^verbatim>\<open>8 word\<close>) or 64-bit integers with the wrap-around written out
  (\<open>int64\<close>). \<^verbatim>\<open>encoding/base64\<close> and the part of \<^verbatim>\<open>encoding/json\<close> that the codecs use are defined, with UTF-8
  validation, case-folded field names and the depth limit of 10000, which also bounds the recursion of
  the parser. \<open>Http\<close> is the response writer of \<^verbatim>\<open>net/http\<close>.

  \<^bold>\<open>Key material and keys.\<close> \<open>Material\<close> is \<^verbatim>\<open>material/\<close> (kinds of material, \<^verbatim>\<open>Clone\<close>, \<^verbatim>\<open>Public\<close>), \<open>Keys\<close> is \<^verbatim>\<open>key/\<close>
  (candidates, keys, descriptors, selectors), \<open>Keyset\<close> is \<^verbatim>\<open>keyset/\<close> with the in-place compaction of
  \<^verbatim>\<open>Replace\<close>, proved to be a filter.

  \<^bold>\<open>Backends.\<close> \<open>Crypto\<close> holds the primitives of the standard library as one record of functions, a parameter
  of the backends, with the documented facts that some theorems assume (a signature verifies under the
  public part of its key, opening undoes sealing, a block cipher is a permutation). \<open>Sym_Backend\<close>,
  \<open>Ec_Backend\<close> and \<open>Rsa_Backend\<close> are \<^verbatim>\<open>backend/symetric\<close>, \<^verbatim>\<open>backend/ec\<close> and \<^verbatim>\<open>backend/rsa\<close>, for both values of the build
  tag \<^verbatim>\<open>with_unsafe_crypto\<close>; HMAC, PKCS#7, the ECB and CBC modes and the fixed-width form of ECDSA signatures
  are defined; what differs without the tag is in definitions of its own (their names begin with \<open>disabled\<close>). \<open>Backend_Contract\<close>
  states what the store relies on, as locales that the three backends interpret. \<open>Registry\<close> is \<^verbatim>\<open>backend/registry.go\<close> and \<^verbatim>\<open>codec.registry.go\<close>: the five registries share one locale.

  \<^bold>\<open>The store.\<close> \<open>Keystore\<close> has the operations of \<^verbatim>\<open>keystore/keystore_api.go\<close> over the repository,
  \<open>Keystore_Operations\<close> what they guarantee: which key is selected, when the selection fails and how, that a
  selected key is usable, and that a signature verifies through the store. \<open>Store_Lifecycle\<close> is
  \<^verbatim>\<open>keystore/keystore.go\<close> with its constructor: \<^verbatim>\<open>New\<close>, \<^verbatim>\<open>Bind\<close>, \<^verbatim>\<open>RefreshAll\<close>, \<^verbatim>\<open>Close\<close> and the refresh callbacks, each
  as a function on the state. \<open>Store_Concurrency\<close> has the same code as an inductive step relation whose steps
  are the critical sections of any number of concurrent calls, with the invariant of reachable states,
  what holds after \<^verbatim>\<open>Close\<close>, that \<^verbatim>\<open>Close\<close> cannot deadlock, and that the concurrent store refines an atomic one
  (\<open>abstract_step\<close>); \<^verbatim>\<open>New\<close> gives an initial state of the relation and a \<^verbatim>\<open>Bind\<close> alone is one of its runs.

  \<^bold>\<open>Sources.\<close> \<open>Source_Contract\<close> is what the store relies on (\<^verbatim>\<open>keysource/source.go\<close>), a locale. \<open>Random_Source\<close>,
  \<open>File_Source\<close> and \<open>Jwks_Source\<close> are \<^verbatim>\<open>keysource/randomsource\<close>, \<^verbatim>\<open>filesource\<close> and \<^verbatim>\<open>jwkssource\<close>, and interpret it. The
  polling of the latter two is one step relation and one locale (\<open>Polling_Source\<close>) that both interpret; the
  random source has a step relation of its own. Generated keys, the file system, the PEM and X.509 parsers,
  the network, the parsing of URLs and SHA-256 are parameters; the redirects that \<^verbatim>\<open>http.Client\<close> follows are
  written out, as a partial function, since a caller's policy for redirects may never stop.

  \<^bold>\<open>JOSE.\<close> \<open>Jose_Common\<close>, \<open>Sym_Jose\<close>, \<open>Ec_Jose\<close> and \<open>Rsa_Jose\<close> are the codecs in \<^verbatim>\<open>encoder.jose.go\<close> and \<^verbatim>\<open>decoder.jose.go\<close>
  of the backends; \<open>Jose_Contract\<close> is what \<^verbatim>\<open>jwks\<close> relies on, interpreted for all three. \<open>Middleware\<close> has the
  configuration and runtime options that \<^verbatim>\<open>jwks\<close>, \<^verbatim>\<open>jwksendpoint\<close> and \<^verbatim>\<open>jws\<close> share. \<open>Jwks\<close> and \<open>Jwks_Writer\<close> are
  \<^verbatim>\<open>jwks/\<close>, \<open>Jwks_Endpoint\<close> is \<^verbatim>\<open>jwksendpoint/\<close> over a locale for the listing of keys, and \<open>Jws\<close> is \<^verbatim>\<open>jws/\<close> over the
  keystore interface. \<open>Test_Keys\<close> is \<^verbatim>\<open>internal/testkeys\<close>.

  \<^bold>\<open>Composition.\<close> \<open>Publication\<close> has the \<^verbatim>\<open>init\<close> functions of the backend packages and the lemmas that lead from
  one process to another: the registries are the same for every order of initialisation, the public part of
  a key makes a backend that accepts what the backend of the key signs (the locale \<open>signature_pair\<close>), and
  loading and binding a published set gives one key for each published one. This theory states what
  follows: what the endpoint of one store publishes, a JWKS source gives to another, and a token that the
  first store signs, the second verifies.

  \<^bold>\<open>Fuel and bounds.\<close> The loop over PEM blocks has fuel for one block per byte, which is enough because every
  block takes at least one byte from the data; \<open>file_decode_exact\<close> shows that it always ends. A JWKS
  response has at most 10485760 bytes, and an exchange with the source's own client at most ten requests
  (\<open>jwks_source_ends\<close>). The validity of random keys is proved without wrap-around for times within 292 years
  of the start of the source.

  \<^bold>\<open>Idealisations.\<close> Values are copied where the code copies and where sharing cannot be seen, so aliasing is not
  expressed except in \<open>Keyset\<close>; a nil and an empty byte slice are the same except where the code tells them
  apart. Checks of a context inside the standard library are part of the parameter that stands for it.
  An error of an HTTP body comes in a read of its own. Times are integers of nanoseconds without the
  monotonic clock. A null element of an array of strings keeps the element that an earlier
  occurrence of the same member put there, but not what the spare capacity of the slice may still hold. Goroutines are steps of a relation; fairness is not assumed, and liveness is stated as the
  possibility of the step that ends a call. A critical section is one step, so the mutexes of the store and
  of the sources are not parts of the state, and holding one of them across a wait cannot be expressed.
  Where the code executes a \<^verbatim>\<open>go\<close> statement for a watcher, a counter in the state of the source (\<open>pl_watches\<close>,
  \<open>rs_watches\<close>), which the struct does not have, counts it, and a step starts as many goroutines as it
  counted; that there is at most one follows from the guards of the code.
  \<^verbatim>\<open>ecdsa.Verify\<close> is a total function, while Go can panic on a public key whose coordinates are nil.

  \<^bold>\<open>Not modelled\<close>: the key files that \<^verbatim>\<open>internal/testkeys\<close> embeds, which are arguments; the constants, types
  and assertions that only tell the compiler which interfaces a type implements; the module \<^verbatim>\<open>vapi\<close>, of which only the categories of
  errors occur, as a parameter; the tests.
\<close>

section \<open>Publication\<close>

text \<open>C11: What the endpoint of one store publishes, a JWKS source that fetches it gives to another. When a GET
  of an endpoint with default options got status 200, and a source with the standard codecs receives that
  body of at most 10485760 bytes, its \<^verbatim>\<open>Load\<close> returns one candidate for each selected key, in the same
  order: with the identifier of the key, the restrictions that a JWK can express, its public material only,
  the source's identifier, and the status active; and it records the digest of the body.\<close>

theorem published_keys_load:
  assumes "endpoint_New env [WithKeystore (Some (Keys m)), WithKeySelector selector] = Ok e"
    and "fresh_writer w" "ServeHTTP (Some e) w (Some \<lparr>rq_Method = ''GET'', rq_Context = ctx\<rparr>) = Ok w'"
    and "rw_sent w' = Some (200, h)"
    and "codec_registry jp (je_codecs env)" "codec_registry jp (je_codecs env')"
    and "Keys m ctx selector = Ok keys" "\<forall>key\<in>set keys. regular_jose jp [] key"
    and "plain_decoder s" "\<not> pl_closed s" "jsrc_client s \<noteq> None" "url_Parse ue (jsrc_url s) = Inr u"
    and "\<And>req. req_URL req = u \<Longrightarrow> net [] req = Inr \<lparr>resp_StatusCode = 200, resp_Status = ''200 OK'',
        resp_Location = [], resp_Body = (rw_body w', None)\<rparr>"
    and "length (rw_body w') \<le> 10485760"
  shows "\<exists>ms s'. map key_material keys = map Some ms
     \<and> jsource_Load env' ue net (Some background) s = Some (s', Ok (map2 (\<lambda>key m.
          (exported_candidate key (exported_material jp ExportPublicMaterial m))
            \<lparr>cand_Source := pl_id s, cand_Status := KeyStatusActive\<rparr>) keys ms))
     \<and> pl_snapshot s' = hex_EncodeToString (ue_sha256 ue (rw_body w'))"
proof -
  have "publishes env m selector ctx (rw_body w')" using assms(1-4) unfolding publishes_def by blast
  moreover have "delivers ue net s (rw_body w')" using assms(12,13) unfolding delivers_def by blast
  moreover have "keys = filter (Matches selector) (contents m)"
    using assms(7) by (simp add: Keys_def Find_eq split: option.splits)
  ultimately show ?thesis
    using published_load [of env m selector ctx "rw_body w'" keys jp env' s ue net] assms(5,6,8-11,14)
    by (simp add: loaded_candidate_def)
qed

theorem published_keys_load_witness:
  "\<exists>s' c. jsource_Load sample_source_env sample_urls
       (\<lambda>via req. Inr \<lparr>resp_StatusCode = 200, resp_Status = ''200 OK'', resp_Location = [], resp_Body = (sample_document, None)\<rparr>)
       (Some background) sample_jsource = Some (s', Ok [c])
     \<and> cand_ID c = ''r1'' \<and> cand_Source c = ''j'' \<and> pl_snapshot s' = hex_EncodeToString sample_document"
proof -
  let ?m = "sample_store [sample_rsa_jose_key]" and ?req = "\<lparr>rq_Method = ''GET'', rq_Context = background\<rparr>"
  let ?e = "store_lister.default_endpoint ?m sample_source_env zero_Selector"
  let ?w' = "sample_writer\<lparr>rw_Header := jwks_header (rw_Header sample_writer),
      rw_sent := Some (200, jwks_header (rw_Header sample_writer)), rw_body := sample_document\<rparr>"
  have fresh: "fresh_writer sample_writer" by (simp add: fresh_writer_def sample_writer_def)
  have keys: "Keys ?m background zero_Selector = Ok [sample_rsa_jose_key]"
    by (simp add: Keys_def Find_eq Matches_zero)
  then have "store_lister.served ?m sample_source_env zero_Selector background = Ok sample_document"
    using sample_document_encoded by (simp add: store_lister.served_def jwks_Encode_def)
  then have serve: "ServeHTTP (Some ?e) sample_writer (Some ?req) = Ok ?w'"
    using store_lister.serve_get [OF _ fresh, of ?req] by simp
  have registry: "codec_registry sample_rsa_jose (je_codecs sample_source_env)"
    by (simp add: sample_source_env_def registered_builtin)
  have fits: "length (rw_body ?w') \<le> 10485760"
    using sample_document_fits by (simp add: maximumJWKSSize_def)
  have "\<exists>ms s'. map key_material [sample_rsa_jose_key] = map Some ms
     \<and> jsource_Load sample_source_env sample_urls
         (\<lambda>via req. Inr \<lparr>resp_StatusCode = 200, resp_Status = ''200 OK'', resp_Location = [], resp_Body = (sample_document, None)\<rparr>)
         (Some background) sample_jsource = Some (s', Ok (map2 (\<lambda>key m.
          (exported_candidate key (exported_material sample_rsa_jose ExportPublicMaterial m))
            \<lparr>cand_Source := pl_id sample_jsource, cand_Status := KeyStatusActive\<rparr>) [sample_rsa_jose_key] ms))
     \<and> pl_snapshot s' = hex_EncodeToString (ue_sha256 sample_urls (rw_body ?w'))"
    by (rule published_keys_load [OF store_lister.default_New fresh serve _ registry registry keys _ _ _ _ _ _ fits])
      (simp_all add: sample_regular plain_decoder_def sample_jsource_def sample_urls_def)
  then show ?thesis
    by (auto simp: exported_candidate_def sample_rsa_jose_key_def key_New_def sample_jsource_def sample_urls_def)
qed

text \<open>C4: A token that one store signs, another verifies with nothing but what the first publishes. The
  issuer's store holds keys that were built from candidates; its signer made a token with a key whose
  identifier is the key's alone, the endpoint of the store answered a GET with a body that lists this key
  among the selected ones, and a JWKS source of the other process received that body and was bound to
  the consumer's store. Then the consumer's store has exactly one key of that identifier, which holds the
  public material only, and a verifier over it that takes the key from the token's header and is given
  the algorithm accepts the token. In both processes the packages of the backends were initialised in
  any order. Assumed are the documented behaviour of the signature primitives for the key at hand, that
  the network delivers the body, that the consumer has no other key of the same identifier, and that the
  restrictions of the key are published such that they permit verification.\<close>

theorem published_token_verifies:
  assumes packages: "set order = UNIV" "set order' = UNIV"
      "je_codecs env = proc_codecs (start_process prim jp order)"
      "je_codecs env' = proc_codecs (start_process prim jp order')"
      "env_registry cenv = proc_registry (start_process prim jp order')"
    and issuer: "built_key prim (jp_ParseCertificate jp) k" "sound_signatures prim (key_material k)"
      "filter (\<lambda>k. key_id k = desc_ID (jws_Key j)) (contents m) = [k]"
    and signed: "jws_Sign category (Some \<lparr>js_keystore = Some (keystore_of parse m now rand), js_runtimeOptions = []\<rparr>)
       ctx claims (map forward_sign os) = Ok j"
    and published: "publishes env m selector ctx' body" "length body \<le> 10485760" "Matches selector k"
      "\<forall>key\<in>set (contents m). Matches selector key \<longrightarrow> regular_jose jp [] key"
      "verification_published (key_restrictions k) (desc_Algorithm (jws_Key j))"
    and loaded: "plain_decoder s" "\<not> pl_closed s" "jsrc_client s \<noteq> None" "delivers ue net s body"
      "jsource_Load env' ue net (Some background) s = Some (s', candidates)"
    and bound: "src_ID cenv src = pl_id s" "src_Load cenv src = candidates"
      "Bind cenv (Some src) m1 w = (m2, w', Ok ())"
      "\<forall>key\<in>set (contents m1). key_id key = desc_ID (jws_Key j) \<longrightarrow> key_source key = pl_id s"
      "None \<notin> set (runtimeOptions m1)"
  shows "(\<exists>k'. filter (\<lambda>k. key_id k = desc_ID (jws_Key j)) (contents m2) = [k']
        \<and> key_material k' = map_option public_view (key_material k) \<and> key_source k' = pl_id s)
     \<and> jws_Verify category
         (Some \<lparr>jv_keystore = Some (keystore_of parse' m2 now' rand'), jv_runtimeOptions = []\<rparr>) (Some background)
         (signing_message (jws_Header j) claims) (jws_Signature j)
         [WithVerifierTokenHeader (jws_Header j), WithVerifierAlg (desc_Algorithm (jws_Key j))] = Ok ()"
proof -
  let ?kid = "desc_ID (jws_Key j)" and ?alg = "desc_Algorithm (jws_Key j)"
  let ?keys = "filter (Matches selector) (contents m)"
  obtain sf where sf: "Signer parse (Some m) now (later 1 ctx) (map Some os) = Ok (jws_Key j, sf)"
    by (rule jws_Sign_Signer [OF signed])
  obtain b sign where b: "key_backend k = Some b" "backend_Sign b = Some sign" "k \<in> set (contents m)"
      "key_id k = ?kid" "backend_Supports b KeyUseSigning KeyOpSign ?alg"
    using signing_key [OF sf issuer(3)] by (auto simp: eligible_def operation_use_def op_defs)
  obtain ms where ms: "map key_material ?keys = map Some ms"
      "candidates = Ok (map2 (loaded_candidate jp s) ?keys ms)"
    using published_load [OF published(1) refl, of jp env' s ue net] started_codecs packages published(2,4) loaded
    by auto
  have "filter (\<lambda>k. key_id k = ?kid) ?keys = filter (Matches selector) (filter (\<lambda>k. key_id k = ?kid) (contents m))"
    by (simp add: conj_commute)
  then have "filter (\<lambda>k. key_id k = ?kid) ?keys = [k]" using issuer(3) published(3) by simp
  then obtain mat b' where k': "key_material k = Some mat"
      "BackendFor (env_registry cenv) (Some (exported_material jp ExportPublicMaterial mat)) = Ok b'"
      "filter (\<lambda>k. key_id k = ?kid) (contents m2) = [key_New (env_parse cenv) (loaded_candidate jp s k mat) (Some b')]"
      "runtimeOptions m2 = runtimeOptions m1"
    using bound_published_key [OF bound(3,1) _ ms(1) _ bound(4)] bound(2) ms(2) by blast
  let ?k' = "key_New (env_parse cenv) (loaded_candidate jp s k mat) (Some b')"
  have pair: "signature_pair b' b" "backend_Supports b' KeyUseSigning KeyOpVerify ?alg"
      "Clone (env_parse cenv) (exported_material jp ExportPublicMaterial mat) = public_view mat"
    using published_pair [OF issuer(1) b(1,2) k'(1)] issuer(2) k'(1,2) b(5) started_factories packages(2,5) by auto
  have "valid_utf8 ?kid"
    using published(3,4) b(3,4) by (auto simp: regular_jose_def valid_strings_def)
  moreover have "None \<notin> set (runtimeOptions m2)" using bound(5) k'(4) by simp
  moreover have "eligible zero_Selector now' KeyOpVerify ?alg ?k'"
    by (rule loaded_key_eligible [OF pair(2) published(5)])
  moreover have "signature_pair b2 b1" if "key_backend k = Some b1" "key_backend ?k' = Some b2" for b1 b2
    using that pair(1) b(1) by simp
  ultimately have "jws_Verify category
         (Some \<lparr>jv_keystore = Some (keystore_of parse' m2 now' rand'), jv_runtimeOptions = []\<rparr>) (Some background)
         (signing_message (jws_Header j) claims) (jws_Signature j)
         [WithVerifierTokenHeader (jws_Header j), WithVerifierAlg ?alg] = Ok ()"
    using token_accepted [OF signed issuer(3) k'(3)] by blast
  moreover have "key_material ?k' = map_option public_view (key_material k)"
    using k'(1) pair(3) by (simp add: key_New_def)
  ultimately show ?thesis using k'(3) by auto
qed

theorem published_token_verifies_witness:
  "\<exists>j m2 w. jws_Sign (\<lambda>_ err. err)
       (Some \<lparr>js_keystore = Some (keystore_of sample_parser (sample_store [sample_issuer_key]) 0 sample_entropy),
         js_runtimeOptions = []\<rparr>) background [1, 2] (map forward_sign [WithAlgorithms [RS256]]) = Ok j
     \<and> Bind sample_consumer (Some 0) empty_store sample_world = (m2, w, Ok ())
     \<and> jws_Verify (\<lambda>_ err. err)
         (Some \<lparr>jv_keystore = Some (keystore_of sample_parser m2 9 sample_entropy), jv_runtimeOptions = []\<rparr>)
         (Some background) (signing_message (jws_Header j) [1, 2]) (jws_Signature j)
         [WithVerifierTokenHeader (jws_Header j), WithVerifierAlg RS256] = Ok ()"
proof -
  let ?m = "sample_store [sample_issuer_key]"
  obtain j where j: "jws_Sign (\<lambda>_ err. err)
       (Some \<lparr>js_keystore = Some (keystore_of sample_parser ?m 0 sample_entropy), js_runtimeOptions = []\<rparr>)
       background [1, 2] (map forward_sign [WithAlgorithms [RS256]]) = Ok j"
      "desc_ID (jws_Key j) = ''r1''" "desc_Algorithm (jws_Key j) = RS256"
    using sample_token by blast
  obtain m2 w where bound: "Bind sample_consumer (Some 0) empty_store sample_world = (m2, w, Ok ())"
    using sample_bound by blast
  have codecs: "codec_registry sample_rsa_jose (je_codecs sample_source_env)"
    by (simp add: sample_source_env_def registered_builtin)
  have fits: "length sample_document \<le> 10485760" using sample_document_fits by (simp add: maximumJWKSSize_def)
  have source: "plain_decoder sample_jsource" "\<not> pl_closed sample_jsource" "jsrc_client sample_jsource \<noteq> None"
      "delivers sample_urls sample_delivery sample_jsource sample_document"
    by (simp_all add: plain_decoder_def sample_jsource_def delivers_def sample_delivery_def sample_urls_def)
  have regular: "\<forall>key\<in>set (contents ?m). Matches zero_Selector key \<longrightarrow> regular_jose sample_rsa_jose [] key"
    using sample_regular(2) by (simp add: sample_issuer_key_def)
  have "filter (Matches zero_Selector) (contents ?m) = [sample_issuer_key]" by (simp add: Matches_zero)
  then obtain s' where load: "jsource_Load sample_source_env sample_urls sample_delivery (Some background) sample_jsource
      = Some (s', src_Load sample_consumer 0)"
    using published_load [OF sample_publishes refl codecs codecs _ source fits] regular
    by (auto simp: sample_consumer_def)
  note published_token_verifies [OF sample_order sample_order _ _ _ sample_issuer_built _ _ j(1) sample_publishes fits _
      regular _ source load _ refl bound, where now' = 9 and parse' = sample_parser and rand' = sample_entropy]
  from this [THEN conjunct2] have "jws_Verify (\<lambda>_ err. err)
         (Some \<lparr>jv_keystore = Some (keystore_of sample_parser m2 9 sample_entropy), jv_runtimeOptions = []\<rparr>)
         (Some background) (signing_message (jws_Header j) [1, 2]) (jws_Signature j)
         [WithVerifierTokenHeader (jws_Header j), WithVerifierAlg RS256] = Ok ()"
    using sample_process_codecs
    by (simp add: j(2,3) Matches_zero sample_consumer_def sample_jsource_def sample_process_def empty_store_def
        keyset_New_def verification_published_def kept_map common_algorithm_def)
  then show ?thesis using j(1) bound by blast
qed

end
